(* ===== verification/Prelude.thy ===== *)
theory Prelude
  imports
    Complex_Main
    "HOL-Library.AList"
    "HOL-Library.Monad_Syntax"
    "HOL-Library.List_Lexorder"
    "HOL-Library.Char_ord"
begin

text \<open>
  Shared vocabulary of the development.

  \<^item> The conventions for effects: a Rust value is a HOL value; \<^typ>\<open>'a option\<close> as the result of
    an operation is the ``may panic'' monad, \<^const>\<open>None\<close> standing for a call that does not return
    normally (a panic, or a loop that never ends), and \<open>Result<T, E>\<close> is the sum \<open>'e + 't\<close>.
  \<^item> Fixed-width counters are \<^typ>\<open>nat\<close> or \<^typ>\<open>int\<close> with the wrap-around of a release build written out.
  \<^item> \<open>BTreeMap\<close> is an association list kept sorted by \<open>bt_insert\<close>; \<open>HashMap\<close> is a partial
    function where the code never iterates over it, and an association list where it does (its order
    standing for the unspecified iteration order, over which every theorem quantifies).
  \<^item> \<open>rust_decimal\<close> is not part of the repository: a \<open>Decimal\<close> is the rational number it denotes,
    and its arithmetic, printing and parsing are the fields of the parameter \<open>decimal_ops\<close>.
\<close>

named_theorems rust_defs \<open>definitions of thin wrappers that proofs unfold\<close>
named_theorems wf_intros \<open>introduction rules for well-formedness invariants\<close>

section \<open>Chained fallible calls\<close>

named_theorems rust_bind \<open>when a chain of fallible calls returns\<close>

lemma bind_sum_Some [rust_bind]:
  "Option.bind m (\<lambda>r. case r of Inl u \<Rightarrow> f u | Inr x \<Rightarrow> g x) = Some z \<longleftrightarrow>
     (\<exists>u. m = Some (Inl u) \<and> f u = Some z) \<or> (\<exists>x. m = Some (Inr x) \<and> g x = Some z)"
  by (cases m) (auto split: sum.splits)

lemma bind_prod_Some [rust_bind]:
  "Option.bind m (\<lambda>(a, b). f a b) = Some z \<longleftrightarrow> (\<exists>a b. m = Some (a, b) \<and> f a b = Some z)"
  by (cases m) auto

lemma case_sum_eq_Some [rust_bind]:
  "(case r of Inl u \<Rightarrow> f u | Inr x \<Rightarrow> g x) = Some z \<longleftrightarrow>
     (\<exists>u. r = Inl u \<and> f u = Some z) \<or> (\<exists>x. r = Inr x \<and> g x = Some z)"
  by (cases r) auto

lemma case_option_eq_Some [rust_bind]:
  "(case r of None \<Rightarrow> f | Some x \<Rightarrow> g x) = Some z \<longleftrightarrow>
     r = None \<and> f = Some z \<or> (\<exists>x. r = Some x \<and> g x = Some z)"
  by (cases r) auto

lemma case_prod_eq_Some [rust_bind]:
  "(case p of (a, b) \<Rightarrow> f a b) = Some z \<longleftrightarrow> (\<exists>a b. p = (a, b) \<and> f a b = Some z)"
  by (cases p) auto

lemma if_eq_Some [rust_bind]:
  "(if c then x else y) = Some z \<longleftrightarrow> c \<and> x = Some z \<or> \<not> c \<and> y = Some z"
  by simp

lemmas [rust_bind] = bind_eq_Some_conv

section \<open>The decimal library as a parameter\<close>

text \<open>
  The operators of \<open>Decimal\<close> panic on overflow, so they return an option. \<open>dec_show\<close> is
  \<open>normalize().to_string()\<close> and \<open>dec_parse\<close> is \<open>str::parse::<Decimal>\<close>.
\<close>

record decimal_ops =
  dec_add :: "rat \<Rightarrow> rat \<Rightarrow> rat option"
  dec_sub :: "rat \<Rightarrow> rat \<Rightarrow> rat option"
  dec_mul :: "rat \<Rightarrow> rat \<Rightarrow> rat option"
  dec_div :: "rat \<Rightarrow> rat \<Rightarrow> rat option"
  dec_parse :: "string \<Rightarrow> rat option"
  dec_show :: "rat \<Rightarrow> string"

text \<open>
  What the documentation of the library promises and the exchange relies on: on a set \<open>S\<close> of
  quantities (a bounded grid of lot sizes) sums and differences that stay in \<open>S\<close> are exact.
  A grid is non-negative and closed under taking a smaller quantity away.
\<close>

definition quantity_grid :: "rat set \<Rightarrow> bool" where
  "quantity_grid S \<longleftrightarrow> 0 \<in> S \<and> (\<forall>x \<in> S. 0 \<le> x) \<and> (\<forall>x \<in> S. \<forall>y \<in> S. y \<le> x \<longrightarrow> x - y \<in> S)"

definition dec_exact_on :: "decimal_ops \<Rightarrow> rat set \<Rightarrow> bool" where
  "dec_exact_on D S \<longleftrightarrow>
     (\<forall>a \<in> S. \<forall>b \<in> S. a + b \<in> S \<longrightarrow> dec_add D a b = Some (a + b)) \<and>
     (\<forall>a \<in> S. \<forall>b \<in> S. a - b \<in> S \<longrightarrow> dec_sub D a b = Some (a - b))"

text \<open>
  Volume-weighted averages of prices from the range \<open>A\<close> over quantities from \<open>S\<close> can be computed
  without overflow and, rounded or not, stay in the range.
\<close>

definition dec_average_on :: "decimal_ops \<Rightarrow> rat set \<Rightarrow> rat set \<Rightarrow> bool" where
  "dec_average_on D S A \<longleftrightarrow> 0 \<in> A \<and>
     (\<forall>avg \<in> A. \<forall>p \<in> A. \<forall>cum \<in> S. \<forall>q \<in> S. 0 < q \<longrightarrow> cum + q \<in> S \<longrightarrow>
       (\<exists>x y z w. dec_mul D avg cum = Some x \<and> dec_mul D p q = Some y \<and> dec_add D x y = Some z \<and>
          dec_div D z (cum + q) = Some w \<and> w \<in> A))"

definition decimal_ok :: "decimal_ops \<Rightarrow> rat set \<Rightarrow> rat set \<Rightarrow> bool" where
  "decimal_ok D S A \<longleftrightarrow> quantity_grid S \<and> dec_exact_on D S \<and> dec_average_on D S A"

lemma decimal_ok_zero: "decimal_ok D S A \<Longrightarrow> 0 \<in> S" "decimal_ok D S A \<Longrightarrow> 0 \<in> A"
  by (auto simp: decimal_ok_def quantity_grid_def dec_average_on_def)

lemma decimal_ok_nonneg: "decimal_ok D S A \<Longrightarrow> x \<in> S \<Longrightarrow> 0 \<le> x"
  by (auto simp: decimal_ok_def quantity_grid_def)

lemma decimal_ok_diff: "decimal_ok D S A \<Longrightarrow> x \<in> S \<Longrightarrow> y \<in> S \<Longrightarrow> y \<le> x \<Longrightarrow> x - y \<in> S"
  by (auto simp: decimal_ok_def quantity_grid_def)

lemma decimal_ok_add:
  "decimal_ok D S A \<Longrightarrow> a \<in> S \<Longrightarrow> b \<in> S \<Longrightarrow> a + b \<in> S \<Longrightarrow> dec_add D a b = Some (a + b)"
  by (auto simp: decimal_ok_def dec_exact_on_def)

lemma decimal_ok_sub:
  "decimal_ok D S A \<Longrightarrow> a \<in> S \<Longrightarrow> b \<in> S \<Longrightarrow> b \<le> a \<Longrightarrow> dec_sub D a b = Some (a - b)"
  by (meson decimal_ok_def dec_exact_on_def decimal_ok_diff)

lemma decimal_ok_average:
  assumes "decimal_ok D S A" "avg \<in> A" "p \<in> A" "cum \<in> S" "q \<in> S" "0 < q" "cum + q \<in> S"
  obtains x y z w where "dec_mul D avg cum = Some x" "dec_mul D p q = Some y"
    "dec_add D x y = Some z" "dec_div D z (cum + q) = Some w" "w \<in> A"
  using assms unfolding decimal_ok_def dec_average_on_def by meson

text \<open>
  A concrete decimal library for evaluating examples: exact arithmetic that overflows beyond the
  96-bit range of the real one.
\<close>

definition dec_limit :: rat where
  "dec_limit = 79228162514264337593543950335"

definition checked_dec :: "rat \<Rightarrow> rat option" where
  "checked_dec x = (if \<bar>x\<bar> \<le> dec_limit then Some x else None)"

definition sample_decimal :: decimal_ops where
  "sample_decimal = \<lparr>dec_add = \<lambda>a b. checked_dec (a + b), dec_sub = \<lambda>a b. checked_dec (a - b),
     dec_mul = \<lambda>a b. checked_dec (a * b), dec_div = \<lambda>a b. if b = 0 then None else checked_dec (a / b),
     dec_parse = \<lambda>s. None, dec_show = \<lambda>d. ''0''\<rparr>"

definition sample_quantities :: "rat set" where
  "sample_quantities = {x. 0 \<le> x \<and> x \<le> 1000000}"

definition sample_prices :: "rat set" where
  "sample_prices = {x. 0 \<le> x \<and> x \<le> 10000000000000}"

lemma weighted_average_bounds:
  fixes avg p cum q M :: rat
  assumes "0 \<le> avg" "avg \<le> M" "0 \<le> p" "p \<le> M" "0 \<le> cum" "0 < q"
  shows "0 \<le> (avg * cum + p * q) / (cum + q)" "(avg * cum + p * q) / (cum + q) \<le> M"
proof -
  have "avg * cum + p * q \<le> M * cum + M * q"
    using assms by (intro add_mono mult_right_mono) auto
  then show "(avg * cum + p * q) / (cum + q) \<le> M"
    using assms by (simp add: pos_divide_le_eq distrib_left)
qed (use assms in simp)

lemma sample_product_bound:
  fixes x y :: rat
  assumes "x \<in> sample_prices" "y \<in> sample_quantities"
  shows "0 \<le> x * y \<and> x * y \<le> 10000000000000000000"
proof -
  have "x * y \<le> 10000000000000 * 1000000"
    using assms by (intro mult_mono) (auto simp: sample_prices_def sample_quantities_def)
  moreover have "0 \<le> x * y"
    using assms by (simp add: sample_prices_def sample_quantities_def)
  ultimately show ?thesis by simp
qed

lemma sample_average:
  assumes "avg \<in> sample_prices" "p \<in> sample_prices" "cum \<in> sample_quantities"
    "q \<in> sample_quantities" "0 < q"
  shows "\<exists>x y z w. dec_mul sample_decimal avg cum = Some x \<and> dec_mul sample_decimal p q = Some y \<and>
    dec_add sample_decimal x y = Some z \<and> dec_div sample_decimal z (cum + q) = Some w \<and>
    w \<in> sample_prices"
proof -
  let ?w = "(avg * cum + p * q) / (cum + q)"
  have w: "0 \<le> ?w" "?w \<le> 10000000000000"
    using weighted_average_bounds [of avg 10000000000000 p cum q] assms
    by (auto simp: sample_prices_def sample_quantities_def)
  have nz: "cum + q \<noteq> 0"
    using assms by (auto simp: sample_quantities_def)
  have b: "0 \<le> avg * cum \<and> avg * cum \<le> 10000000000000000000"
    "0 \<le> p * q \<and> p * q \<le> 10000000000000000000"
    using sample_product_bound assms by auto
  have s: "\<bar>avg * cum + p * q\<bar> \<le> dec_limit" "\<bar>avg * cum\<bar> \<le> dec_limit" "\<bar>p * q\<bar> \<le> dec_limit"
    using b by (simp_all add: dec_limit_def)
  have t: "\<bar>?w\<bar> \<le> dec_limit"
    unfolding abs_of_nonneg [OF w(1)] dec_limit_def using w(2) by linarith
  show ?thesis
    using s t w nz by (simp add: sample_decimal_def checked_dec_def sample_prices_def)
qed

lemma sample_decimal_ok: "decimal_ok sample_decimal sample_quantities sample_prices"
proof -
  have "dec_average_on sample_decimal sample_quantities sample_prices"
    using sample_average by (auto simp: dec_average_on_def sample_prices_def)
  moreover have "dec_exact_on sample_decimal sample_quantities"
    by (auto simp: dec_exact_on_def sample_decimal_def sample_quantities_def checked_dec_def
        dec_limit_def)
  ultimately show ?thesis
    by (auto simp: decimal_ok_def quantity_grid_def sample_quantities_def)
qed

end
