(* ===== verification/Order.thy ===== *)
theory Order
  imports Prelude
begin

text \<open>
  Orders (\<open>src/core/order.rs\<close>): sides, types and states, the order record, its two constructors and
  the effective price that ranks an order in its side of the book; and the execution accounting
  \<open>apply_fill\<close> of \<open>src/core/orderbook.rs\<close>. The lemmas give the accounting identity of one fill
  and the well-formedness \<open>order_wf\<close> every resting order has.
\<close>

type_synonym order_id = int

definition MARKET_BUY_PRICE :: int where
  "MARKET_BUY_PRICE = 9999999999999"

datatype side = Buy | Sell

lemma all_side: "(\<forall>sd. P sd) \<longleftrightarrow> P Buy \<and> P Sell"
  by (metis side.exhaust)

datatype order_type = Market | Limit

datatype order_state = New | Booked | PartialFill | Filled | Cancelled | Expired | Rejected

fun side_as_str :: "side \<Rightarrow> string" where
  "side_as_str Buy = ''buy''"
| "side_as_str Sell = ''sell''"

fun is_active :: "order_state \<Rightarrow> bool" where
  "is_active Filled = False"
| "is_active Cancelled = False"
| "is_active Expired = False"
| "is_active Rejected = False"
| "is_active _ = True"

record order =
  o_session :: string
  o_id :: order_id
  o_exchange_id :: string
  o_instrument :: int
  o_side :: side
  o_type :: order_type
  o_price :: rat
  o_quantity :: rat
  o_remaining :: rat
  o_cum :: rat
  o_avg :: rat
  o_state :: order_state
  o_arrival :: nat

definition order_limit ::
  "string \<Rightarrow> order_id \<Rightarrow> int \<Rightarrow> side \<Rightarrow> rat \<Rightarrow> rat \<Rightarrow> nat \<Rightarrow> order" where
  "order_limit session ident inst sd p q arr =
     \<lparr>o_session = session, o_id = ident, o_exchange_id = [], o_instrument = inst, o_side = sd,
      o_type = Limit, o_price = p, o_quantity = q, o_remaining = q, o_cum = 0, o_avg = 0,
      o_state = New, o_arrival = arr\<rparr>"

definition order_market :: "string \<Rightarrow> order_id \<Rightarrow> int \<Rightarrow> side \<Rightarrow> rat \<Rightarrow> nat \<Rightarrow> order" where
  "order_market session ident inst sd q arr =
     (order_limit session ident inst sd 0 q arr)\<lparr>o_price := 0, o_type := Market\<rparr>"

definition effective_price :: "order \<Rightarrow> rat" where
  "effective_price ord =
     (case o_type ord of
        Market \<Rightarrow> (case o_side ord of Buy \<Rightarrow> of_int MARKET_BUY_PRICE | Sell \<Rightarrow> 0)
      | Limit \<Rightarrow> o_price ord)"

definition min_decimal :: "rat \<Rightarrow> rat \<Rightarrow> rat" where
  "min_decimal a b = (if a < b then a else b)"

lemma min_decimal_min [simp]: "min_decimal a b = min a b"
  by (simp add: min_decimal_def min_def)

text \<open>The identity under which a price level indexes an order.\<close>

abbreviation o_key :: "order \<Rightarrow> string \<times> order_id" where
  "o_key ord \<equiv> (o_session ord, o_id ord)"

section \<open>Execution accounting\<close>

definition apply_fill :: "decimal_ops \<Rightarrow> order \<Rightarrow> rat \<Rightarrow> rat \<Rightarrow> order option" where
  "apply_fill D ord quantity price = do {
     let previous_cum = o_cum ord;
     new_cum \<leftarrow> dec_add D previous_cum quantity;
     avg \<leftarrow> (if new_cum = 0 then Some 0
            else do {
              weighted \<leftarrow> dec_mul D (o_avg ord) previous_cum;
              notional \<leftarrow> dec_mul D price quantity;
              total \<leftarrow> dec_add D weighted notional;
              dec_div D total new_cum
            });
     rest \<leftarrow> dec_sub D (o_remaining ord) quantity;
     Some (ord\<lparr>o_avg := avg, o_cum := new_cum, o_remaining := rest,
              o_state := (if rest = 0 then Filled else PartialFill)\<rparr>)
   }"

text \<open>
  A resting order: quantities on the grid, a positive remainder, executed plus open quantity equal to
  the ordered quantity, prices in range, an active state.
\<close>

definition order_wf :: "rat set \<Rightarrow> rat set \<Rightarrow> order \<Rightarrow> bool" where
  "order_wf S A ord \<longleftrightarrow>
     o_remaining ord \<in> S \<and> 0 < o_remaining ord \<and> o_cum ord \<in> S \<and> o_quantity ord \<in> S \<and>
     o_cum ord + o_remaining ord = o_quantity ord \<and>
     o_price ord \<in> A \<and> o_avg ord \<in> A \<and> is_active (o_state ord)"

text \<open>The effect of a fill when no arithmetic overflows; the average is whatever the library rounds to.\<close>

definition filled :: "order \<Rightarrow> rat \<Rightarrow> rat \<Rightarrow> order" where
  "filled ord q avg =
     ord\<lparr>o_avg := avg, o_cum := o_cum ord + q, o_remaining := o_remaining ord - q,
         o_state := (if o_remaining ord - q = 0 then Filled else PartialFill)\<rparr>"

lemma filled_simps [simp]:
  "o_session (filled ord q avg) = o_session ord" "o_id (filled ord q avg) = o_id ord"
  "o_exchange_id (filled ord q avg) = o_exchange_id ord"
  "o_instrument (filled ord q avg) = o_instrument ord" "o_side (filled ord q avg) = o_side ord"
  "o_type (filled ord q avg) = o_type ord" "o_price (filled ord q avg) = o_price ord"
  "o_quantity (filled ord q avg) = o_quantity ord" "o_arrival (filled ord q avg) = o_arrival ord"
  "o_remaining (filled ord q avg) = o_remaining ord - q" "o_cum (filled ord q avg) = o_cum ord + q"
  "o_avg (filled ord q avg) = avg"
  "o_state (filled ord q avg) = (if o_remaining ord - q = 0 then Filled else PartialFill)"
  by (simp_all add: filled_def)

lemma effective_price_filled [simp]: "effective_price (filled ord q avg) = effective_price ord"
  by (simp add: effective_price_def split: order_type.split side.split)

lemma order_wf_cum_le:
  assumes "decimal_ok D S A" "order_wf S A ord" "q \<in> S" "q \<le> o_remaining ord"
  shows "o_cum ord + q \<in> S"
proof -
  have "o_remaining ord - q \<in> S"
    using assms by (auto simp: order_wf_def intro: decimal_ok_diff)
  moreover have "o_remaining ord - q \<le> o_quantity ord"
    using decimal_ok_nonneg [OF assms(1), of "o_cum ord"] decimal_ok_nonneg [OF assms(1,3)] assms(2)
    by (auto simp: order_wf_def)
  ultimately have "o_quantity ord - (o_remaining ord - q) \<in> S"
    using assms by (auto simp: order_wf_def intro: decimal_ok_diff)
  moreover have "o_quantity ord - (o_remaining ord - q) = o_cum ord + q"
    using assms(2) by (auto simp: order_wf_def)
  ultimately show ?thesis by simp
qed

lemma apply_fill_Some:
  assumes ok: "decimal_ok D S A" and wf: "order_wf S A ord"
    and q: "q \<in> S" "0 < q" "q \<le> o_remaining ord" and p: "p \<in> A"
  obtains avg where "apply_fill D ord q p = Some (filled ord q avg)" "avg \<in> A"
proof -
  have cq: "o_cum ord + q \<in> S" by (rule order_wf_cum_le [OF ok wf q(1,3)])
  have cum: "o_cum ord \<in> S" "o_avg ord \<in> A" "o_remaining ord \<in> S"
    using wf by (auto simp: order_wf_def)
  have nz: "o_cum ord + q \<noteq> 0"
    using decimal_ok_nonneg [OF ok cum(1)] q(2) by linarith
  obtain x y z w where "dec_mul D (o_avg ord) (o_cum ord) = Some x" "dec_mul D p q = Some y"
    "dec_add D x y = Some z" "dec_div D z (o_cum ord + q) = Some w" "w \<in> A"
    using decimal_ok_average [OF ok cum(2) p cum(1) q(1,2) cq] by blast
  moreover have "dec_add D (o_cum ord) q = Some (o_cum ord + q)"
    by (rule decimal_ok_add [OF ok cum(1) q(1) cq])
  moreover have "dec_sub D (o_remaining ord) q = Some (o_remaining ord - q)"
    by (rule decimal_ok_sub [OF ok cum(3) q(1,3)])
  ultimately show ?thesis
    using that nz by (simp add: apply_fill_def filled_def Let_def)
qed

text \<open>The average after a fill, as the library computes it.\<close>

lemma apply_fill_average:
  assumes "apply_fill D ord q p = Some (filled ord q avg)" "0 \<le> o_cum ord" "0 < q"
  shows "\<exists>weighted notional total. dec_mul D (o_avg ord) (o_cum ord) = Some weighted \<and> dec_mul D p q = Some notional \<and>
    dec_add D weighted notional = Some total \<and> dec_div D total (o_cum ord + q) = Some avg"
proof -
  obtain c a r where f: "dec_add D (o_cum ord) q = Some c"
    "(if c = 0 then Some 0 else do {
        weighted \<leftarrow> dec_mul D (o_avg ord) (o_cum ord); notional \<leftarrow> dec_mul D p q;
        total \<leftarrow> dec_add D weighted notional; dec_div D total c }) = Some a"
    "ord\<lparr>o_avg := a, o_cum := c, o_remaining := r, o_state := (if r = 0 then Filled else PartialFill)\<rparr> = filled ord q avg"
    using assms(1) unfolding apply_fill_def Let_def bind_eq_Some_conv option.inject by blast
  have "o_cum (filled ord q avg) = c" "o_avg (filled ord q avg) = a" unfolding f(3) [symmetric] by simp_all
  then have "c = o_cum ord + q" "a = avg" by simp_all
  then show ?thesis using f(2) assms(2,3) by (auto simp: rust_bind split: if_splits)
qed

lemma filled_wf:
  assumes "decimal_ok D S A" "order_wf S A ord" "q \<in> S" "q < o_remaining ord" "avg \<in> A"
  shows "order_wf S A (filled ord q avg)"
  using assms order_wf_cum_le [OF assms(1,2,3)] decimal_ok_diff [OF assms(1), of "o_remaining ord" q]
  by (auto simp: order_wf_def)

end
