(* ===== verification/BTree.thy ===== *)
theory BTree
  imports Prelude
begin

text \<open>
  \<open>std::collections::BTreeMap\<close> as the association list of its entries in key order: the
  operations the exchange uses, the contract they meet (locale \<open>ordered_map\<close>), and the splitting
  lemmas with which the price-level and order-book proofs follow an entry through an update.
\<close>

fun bt_insert :: "'k::linorder \<Rightarrow> 'v \<Rightarrow> ('k \<times> 'v) list \<Rightarrow> ('k \<times> 'v) list" where
  "bt_insert k v [] = [(k, v)]"
| "bt_insert k v (e # m) =
     (if k < fst e then (k, v) # e # m
      else if k = fst e then (k, v) # m
      else e # bt_insert k v m)"

definition bt_remove :: "'k \<Rightarrow> ('k \<times> 'v) list \<Rightarrow> ('k \<times> 'v) list" where
  "bt_remove k m = filter (\<lambda>e. fst e \<noteq> k) m"

abbreviation bt_get :: "('k \<times> 'v) list \<Rightarrow> 'k \<Rightarrow> 'v option" where
  "bt_get \<equiv> map_of"

abbreviation bt_sorted :: "('k::linorder \<times> 'v) list \<Rightarrow> bool" where
  "bt_sorted m \<equiv> sorted_wrt (<) (map fst m)"

definition bt_first :: "('k \<times> 'v) list \<Rightarrow> ('k \<times> 'v) option" where
  "bt_first m = (case m of [] \<Rightarrow> None | e # _ \<Rightarrow> Some e)"

definition bt_last :: "('k \<times> 'v) list \<Rightarrow> ('k \<times> 'v) option" where
  "bt_last m = (if m = [] then None else Some (last m))"

section \<open>The map contract\<close>

locale ordered_map =
  fixes empty :: 'm
    and insert :: "'k::linorder \<Rightarrow> 'v \<Rightarrow> 'm \<Rightarrow> 'm"
    and remove :: "'k \<Rightarrow> 'm \<Rightarrow> 'm"
    and get :: "'m \<Rightarrow> 'k \<Rightarrow> 'v option"
    and entries :: "'m \<Rightarrow> ('k \<times> 'v) list"
    and inv :: "'m \<Rightarrow> bool"
  assumes inv_empty: "inv empty"
    and inv_insert: "inv m \<Longrightarrow> inv (insert k v m)"
    and inv_remove: "inv m \<Longrightarrow> inv (remove k m)"
    and get_empty: "get empty k = None"
    and get_insert: "inv m \<Longrightarrow> get (insert k v m) = (get m)(k \<mapsto> v)"
    and get_remove: "inv m \<Longrightarrow> get (remove k m) = (get m)(k := None)"
    and entries_sorted: "inv m \<Longrightarrow> sorted_wrt (<) (map fst (entries m))"
    and entries_get: "inv m \<Longrightarrow> (k, v) \<in> set (entries m) \<longleftrightarrow> get m k = Some v"
begin

lemma dom_entries: "inv m \<Longrightarrow> dom (get m) = fst ` set (entries m)"
proof -
  assume m: "inv m"
  have "k \<in> dom (get m) \<longleftrightarrow> k \<in> fst ` set (entries m)" for k
    using entries_get [OF m, of k] by (force simp: dom_def)
  then show ?thesis by blast
qed

lemma first_entry_least:
  assumes "inv m" "entries m = (k, v) # es" "get m k' = Some v'"
  shows "k \<le> k'"
proof -
  have "(k', v') \<in> set (entries m)"
    using entries_get [OF assms(1)] assms(3) by blast
  then show ?thesis
    using entries_sorted [OF assms(1)] assms(2) by (force simp: less_imp_le)
qed

lemma last_entry_greatest:
  assumes "inv m" "entries m = es @ [(k, v)]" "get m k' = Some v'"
  shows "k' \<le> k"
proof -
  have "(k', v') \<in> set (entries m)"
    using entries_get [OF assms(1)] assms(3) by blast
  then show ?thesis
    using entries_sorted [OF assms(1)] assms(2) by (force simp: sorted_wrt_append less_imp_le)
qed

lemma insert_remove_get: "inv m \<Longrightarrow> get (remove k (insert k v m)) = (get m)(k := None)"
  by (simp add: get_remove get_insert inv_insert)

end

section \<open>Sorted association lists meet it\<close>

lemma set_bt_insert_fst: "fst ` set (bt_insert k v m) = insert k (fst ` set m)"
  by (induction m) auto

lemma bt_sorted_insert: "bt_sorted m \<Longrightarrow> bt_sorted (bt_insert k v m)"
proof (induction m)
  case (Cons e m)
  have "x < y" if "x = fst e" "y \<in> fst ` set (bt_insert k v m)" "fst e < k" for x y
    using that Cons.prems by (auto simp: set_bt_insert_fst)
  with Cons show ?case
    by (auto simp: not_less image_iff)
qed simp

lemma bt_sorted_remove: "bt_sorted m \<Longrightarrow> bt_sorted (bt_remove k m)"
  by (induction m) (auto simp: bt_remove_def)

lemma bt_get_insert [simp]: "bt_get (bt_insert k v m) = (bt_get m)(k \<mapsto> v)"
  by (induction m) auto

lemma bt_get_remove [simp]: "bt_get (bt_remove k m) = (bt_get m)(k := None)"
  by (induction m) (auto simp: bt_remove_def)

lemma bt_sorted_distinct: "bt_sorted m \<Longrightarrow> distinct (map fst m)"
  by (simp add: strict_sorted_iff)

interpretation bt: ordered_map "[]" bt_insert bt_remove bt_get "\<lambda>m. m" bt_sorted
proof unfold_locales
  fix m :: "('k::linorder \<times> 'v) list" and k v
  assume "bt_sorted m"
  then show "((k, v) \<in> set m) = (bt_get m k = Some v)"
    by (simp add: bt_sorted_distinct)
qed (auto intro: bt_sorted_insert bt_sorted_remove)

section \<open>Following an entry\<close>

lemma bt_remove_append [simp]: "bt_remove k (xs @ ys) = bt_remove k xs @ bt_remove k ys"
  by (simp add: bt_remove_def)

lemma bt_remove_Cons [simp]: "bt_remove k (e # m) = (if fst e = k then bt_remove k m else e # bt_remove k m)"
  by (simp add: bt_remove_def)

lemma bt_remove_Nil [simp]: "bt_remove k [] = []"
  by (simp add: bt_remove_def)

lemma bt_remove_idle: "k \<notin> fst ` set m \<Longrightarrow> bt_remove k m = m"
  by (induction m) auto

lemma bt_insert_middle:
  "(\<forall>e \<in> set xs. fst e < k) \<Longrightarrow> bt_insert k v (xs @ (k, w) # ys) = xs @ (k, v) # ys"
  by (induction xs) auto

lemma bt_insert_end: "(\<forall>e \<in> set m. fst e < k) \<Longrightarrow> bt_insert k v m = m @ [(k, v)]"
  by (induction m) auto

lemma bt_sorted_middle:
  "bt_sorted (xs @ (k, v) # ys) \<longleftrightarrow>
     bt_sorted xs \<and> bt_sorted ys \<and> (\<forall>e \<in> set xs. fst e < k) \<and> (\<forall>e \<in> set ys. k < fst e) \<and>
     (\<forall>d \<in> set xs. \<forall>e \<in> set ys. fst d < fst e)"
  by (auto simp: sorted_wrt_append)

lemma bt_get_middle: "bt_sorted (xs @ (k, v) # ys) \<Longrightarrow> bt_get (xs @ (k, v) # ys) k = Some v"
  using bt.entries_get [of "xs @ (k, v) # ys" k v] by simp

lemma bt_remove_middle: "bt_sorted (xs @ (k, v) # ys) \<Longrightarrow> bt_remove k (xs @ (k, v) # ys) = xs @ ys"
proof -
  assume "bt_sorted (xs @ (k, v) # ys)"
  then have "k \<notin> fst ` set xs" "k \<notin> fst ` set ys"
    unfolding bt_sorted_middle by force+
  then show ?thesis by (simp add: bt_remove_idle)
qed

lemma bt_insert_replace:
  "bt_sorted (xs @ (k, v) # ys) \<Longrightarrow> bt_insert k w (xs @ (k, v) # ys) = xs @ (k, w) # ys"
  unfolding bt_sorted_middle by (simp add: bt_insert_middle)

lemma bt_split:
  assumes "bt_sorted m" "bt_get m k = Some v"
  obtains xs ys where "m = xs @ (k, v) # ys" "bt_remove k m = xs @ ys"
    "\<And>w. bt_insert k w m = xs @ (k, w) # ys"
proof -
  obtain xs ys where m: "m = xs @ (k, v) # ys"
    using map_of_SomeD [OF assms(2)] by (meson split_list)
  then have lt: "\<forall>e \<in> set xs. fst e < k" "\<forall>e \<in> set ys. k < fst e"
    using assms(1) unfolding m bt_sorted_middle by auto
  have "bt_remove k m = xs @ ys"
    using assms(1) unfolding m by (rule bt_remove_middle)
  then show ?thesis
    using that m lt(1) by (simp add: bt_insert_middle)
qed

lemma bt_split_new:
  assumes "bt_sorted m" "bt_get m k = None"
  obtains xs ys where "m = xs @ ys" "\<And>w. bt_insert k w m = xs @ (k, w) # ys"
proof -
  have "\<exists>xs ys. m = xs @ ys \<and> (\<forall>w. bt_insert k w m = xs @ (k, w) # ys)"
    using assms
  proof (induction m)
    case (Cons e m)
    show ?case
    proof (cases "k < fst e")
      case True
      then show ?thesis by (intro exI [of _ "[]"] exI [of _ "e # m"]) auto
    next
      case False
      with Cons obtain xs ys where "m = xs @ ys" "\<forall>w. bt_insert k w m = xs @ (k, w) # ys"
        by (fastforce split: if_splits)
      with False Cons.prems show ?thesis
        by (intro exI [of _ "e # xs"] exI [of _ ys]) auto
    qed
  qed simp
  then show ?thesis using that by blast
qed

lemma bt_remove_insert [simp]: "bt_remove k (bt_insert k v m) = bt_remove k m"
  by (induction m) auto

lemma bt_insert_twice [simp]: "bt_insert k v (bt_insert k w m) = bt_insert k v m"
  by (induction m) auto

lemma bt_get_mem: "bt_get m k = Some v \<Longrightarrow> (k, v) \<in> set m"
  by (rule map_of_SomeD)

lemma set_bt_insertD: "e \<in> set (bt_insert k v m) \<Longrightarrow> e = (k, v) \<or> e \<in> set m"
  by (induction m) (auto split: if_splits)

lemma set_bt_removeD: "e \<in> set (bt_remove k m) \<Longrightarrow> e \<in> set m"
  by (simp add: bt_remove_def)

lemma bt_first_Some: "bt_first m = Some e \<Longrightarrow> \<exists>es. m = e # es"
  by (auto simp: bt_first_def split: list.splits)

lemma bt_last_Some: "bt_last m = Some e \<Longrightarrow> \<exists>es. m = es @ [e]"
  by (auto simp: bt_last_def split: if_splits intro: exI [of _ "butlast m"])

end
