(* ===== verification/Text.thy ===== *)
theory Text
  imports Prelude
begin

text \<open>
  The text conversions of the Rust standard library that the exchange uses: \<open>Display\<close> and
  \<open>FromStr\<close> of the integer types, \<open>{:03}\<close>, \<open>split\<close>, \<open>split_once\<close>, \<open>split_whitespace\<close>, \<open>trim\<close> and
  \<open>starts_with\<close> on ASCII text, and the wrap-around of fixed-width counters. The round-trip lemmas
  serve the frame and codec proofs.
\<close>

section \<open>Fixed-width counters\<close>

abbreviation u32_max :: nat where "u32_max \<equiv> 4294967295"
abbreviation u64_max :: nat where "u64_max \<equiv> 18446744073709551615"
abbreviation i32_max :: int where "i32_max \<equiv> 2147483647"
abbreviation i32_min :: int where "i32_min \<equiv> - 2147483648"
abbreviation i64_max :: int where "i64_max \<equiv> 9223372036854775807"
abbreviation i64_min :: int where "i64_min \<equiv> - 9223372036854775808"

definition wrap_u64 :: "nat \<Rightarrow> nat" where
  "wrap_u64 n = n mod 18446744073709551616"

definition wrap_i32 :: "int \<Rightarrow> int" where
  "wrap_i32 i = (i + 2147483648) mod 4294967296 - 2147483648"

definition wrap_i64 :: "int \<Rightarrow> int" where
  "wrap_i64 i = (i + 9223372036854775808) mod 18446744073709551616 - 9223372036854775808"

definition saturating_inc_u64 :: "nat \<Rightarrow> nat" where
  "saturating_inc_u64 n = (if n < u64_max then n + 1 else u64_max)"

lemma wrap_u64_small [simp]: "n \<le> u64_max \<Longrightarrow> wrap_u64 n = n"
  by (simp add: wrap_u64_def)

lemma wrap_i32_small: "i32_min \<le> i \<Longrightarrow> i \<le> i32_max \<Longrightarrow> wrap_i32 i = i"
  by (simp add: wrap_i32_def)

lemma wrap_i64_small: "i64_min \<le> i \<Longrightarrow> i \<le> i64_max \<Longrightarrow> wrap_i64 i = i"
  by (simp add: wrap_i64_def)

section \<open>Decimal digits\<close>

definition is_ascii_digit :: "char \<Rightarrow> bool" where
  "is_ascii_digit c \<longleftrightarrow> 48 \<le> (of_char c :: nat) \<and> (of_char c :: nat) \<le> 57"

definition digit_char :: "nat \<Rightarrow> char" where
  "digit_char d = char_of (48 + d)"

definition digit_val :: "char \<Rightarrow> nat" where
  "digit_val c = of_char c - 48"

lemma of_char_digit_char: "d < 10 \<Longrightarrow> (of_char (digit_char d) :: nat) = 48 + d"
  by (simp add: digit_char_def)

lemma digit_char_digit [simp]: "d < 10 \<Longrightarrow> is_ascii_digit (digit_char d)"
  by (simp add: is_ascii_digit_def of_char_digit_char)

lemma digit_val_char [simp]: "d < 10 \<Longrightarrow> digit_val (digit_char d) = d"
  by (simp add: digit_val_def of_char_digit_char)

section \<open>Display of integers\<close>

fun show_nat :: "nat \<Rightarrow> string" where
  "show_nat n = (if n < 10 then [digit_char n] else show_nat (n div 10) @ [digit_char (n mod 10)])"

declare show_nat.simps [simp del]

definition show_int :: "int \<Rightarrow> string" where
  "show_int i = (if i < 0 then CHR ''-'' # show_nat (nat (- i)) else show_nat (nat i))"

definition show_pad3 :: "nat \<Rightarrow> string" where
  "show_pad3 n = replicate (3 - length (show_nat n)) (CHR ''0'') @ show_nat n"

lemma show_nat_digits: "list_all is_ascii_digit (show_nat n)"
proof (induction n rule: show_nat.induct)
  case (1 n)
  then show ?case
    by (subst show_nat.simps) simp
qed

lemma show_nat_nonempty [simp]: "show_nat n \<noteq> []"
  by (subst show_nat.simps) simp

section \<open>FromStr of integers\<close>

definition digits_val :: "string \<Rightarrow> nat" where
  "digits_val s = foldl (\<lambda>acc c. acc * 10 + digit_val c) 0 s"

lemma digits_val_snoc: "digits_val (s @ [c]) = digits_val s * 10 + digit_val c"
  by (simp add: digits_val_def)

lemma digits_val_show_nat [simp]: "digits_val (show_nat n) = n"
proof (induction n rule: show_nat.induct)
  case (1 n)
  then show ?case
    by (subst show_nat.simps) (auto simp: digits_val_snoc digits_val_def)
qed

definition all_digits :: "string \<Rightarrow> bool" where
  "all_digits s \<longleftrightarrow> list_all is_ascii_digit s"

text \<open>Unsigned integers: an optional plus sign, at least one digit, nothing above the maximum.\<close>

definition strip_plus :: "string \<Rightarrow> string" where
  "strip_plus s = (case s of [] \<Rightarrow> [] | c # r \<Rightarrow> if c = CHR ''+'' then r else s)"

definition parse_uint :: "nat \<Rightarrow> string \<Rightarrow> nat option" where
  "parse_uint bound s =
     (let ds = strip_plus s
      in if ds \<noteq> [] \<and> all_digits ds \<and> digits_val ds \<le> bound then Some (digits_val ds) else None)"

abbreviation parse_u64 :: "string \<Rightarrow> nat option" where "parse_u64 \<equiv> parse_uint u64_max"
abbreviation parse_u32 :: "string \<Rightarrow> nat option" where "parse_u32 \<equiv> parse_uint u32_max"
abbreviation parse_u16 :: "string \<Rightarrow> nat option" where "parse_u16 \<equiv> parse_uint 65535"

text \<open>Signed integers: an optional sign, at least one digit, within the bounds.\<close>

definition parse_sint :: "int \<Rightarrow> int \<Rightarrow> string \<Rightarrow> int option" where
  "parse_sint lo hi s =
     (let neg = (case s of [] \<Rightarrow> False | c # _ \<Rightarrow> c = CHR ''-'');
          ds = (if neg then tl s else strip_plus s);
          v = (if neg then - int (digits_val ds) else int (digits_val ds))
      in if ds \<noteq> [] \<and> all_digits ds \<and> lo \<le> v \<and> v \<le> hi then Some v else None)"

abbreviation parse_i32 :: "string \<Rightarrow> int option" where "parse_i32 \<equiv> parse_sint i32_min i32_max"
abbreviation parse_i64 :: "string \<Rightarrow> int option" where "parse_i64 \<equiv> parse_sint i64_min i64_max"

lemma sign_not_digit: "\<not> is_ascii_digit (CHR ''+'')" "\<not> is_ascii_digit (CHR ''-'')"
  by (simp_all add: is_ascii_digit_def)

lemma strip_plus_digits: "all_digits s \<Longrightarrow> strip_plus s = s"
  by (cases s) (auto simp: strip_plus_def all_digits_def sign_not_digit)

lemma all_digits_show_nat [simp]: "all_digits (show_nat n)"
  by (simp add: all_digits_def show_nat_digits)

lemma parse_uint_digits:
  "all_digits s \<Longrightarrow> s \<noteq> [] \<Longrightarrow> digits_val s \<le> b \<Longrightarrow> parse_uint b s = Some (digits_val s)"
  by (simp add: parse_uint_def strip_plus_digits)

lemma parse_uint_show_nat [simp]: "n \<le> b \<Longrightarrow> parse_uint b (show_nat n) = Some n"
  by (simp add: parse_uint_def strip_plus_digits)

lemma parse_uint_bound: "parse_uint b s = Some n \<Longrightarrow> n \<le> b"
  by (auto simp: parse_uint_def Let_def split: if_splits)

lemma show_nat_not_minus: "show_nat n = c # r \<Longrightarrow> c \<noteq> CHR ''-''"
  using show_nat_digits [of n] sign_not_digit(2) by auto

lemma parse_sint_show_int:
  assumes "lo \<le> i" "i \<le> hi"
  shows "parse_sint lo hi (show_int i) = Some i"
proof (cases "i < 0")
  case True
  then show ?thesis
    using assms by (simp add: parse_sint_def show_int_def)
next
  case False
  moreover have "\<not> (case show_nat (nat i) of [] \<Rightarrow> False | c # _ \<Rightarrow> c = CHR ''-'')"
    using show_nat_not_minus [of "nat i"] by (cases "show_nat (nat i)") auto
  ultimately show ?thesis
    using assms by (simp add: parse_sint_def show_int_def strip_plus_digits)
qed

lemma show_nat_inj: "show_nat m = show_nat n \<Longrightarrow> m = n"
  by (metis digits_val_show_nat)

section \<open>ASCII classes, trimming and splitting\<close>

definition is_ascii_whitespace_char :: "char \<Rightarrow> bool" where
  "is_ascii_whitespace_char c \<longleftrightarrow> (of_char c :: nat) \<in> {9, 10, 11, 12, 13, 32}"

definition is_ascii_graphic :: "char \<Rightarrow> bool" where
  "is_ascii_graphic c \<longleftrightarrow> 33 \<le> (of_char c :: nat) \<and> (of_char c :: nat) \<le> 126"

definition is_ascii_char :: "char \<Rightarrow> bool" where
  "is_ascii_char c \<longleftrightarrow> (of_char c :: nat) < 128"

definition trim :: "string \<Rightarrow> string" where
  "trim s = rev (dropWhile is_ascii_whitespace_char (rev (dropWhile is_ascii_whitespace_char s)))"

definition starts_with :: "string \<Rightarrow> string \<Rightarrow> bool" where
  "starts_with p s \<longleftrightarrow> take (length p) s = p"

definition ends_with_char :: "char \<Rightarrow> string \<Rightarrow> bool" where
  "ends_with_char c s \<longleftrightarrow> s \<noteq> [] \<and> last s = c"

fun split_char :: "char \<Rightarrow> string \<Rightarrow> string list" where
  "split_char c [] = [[]]"
| "split_char c (x # s) =
     (if x = c then [] # split_char c s
      else (case split_char c s of [] \<Rightarrow> [[x]] | p # ps \<Rightarrow> (x # p) # ps))"

definition split_once :: "char \<Rightarrow> string \<Rightarrow> (string \<times> string) option" where
  "split_once c s =
     (if c \<in> set s then Some (takeWhile (\<lambda>x. x \<noteq> c) s, tl (dropWhile (\<lambda>x. x \<noteq> c) s)) else None)"

fun split_ws_acc :: "string \<Rightarrow> string \<Rightarrow> string list" where
  "split_ws_acc w [] = (if w = [] then [] else [rev w])"
| "split_ws_acc w (c # s) =
     (if is_ascii_whitespace_char c
      then (if w = [] then split_ws_acc [] s else rev w # split_ws_acc [] s)
      else split_ws_acc (c # w) s)"

definition split_whitespace :: "string \<Rightarrow> string list" where
  "split_whitespace s = split_ws_acc [] s"

lemma split_char_nonempty [simp]: "split_char c s \<noteq> []"
  by (induction s) (auto split: list.splits)

lemma split_char_append:
  "c \<notin> set p \<Longrightarrow> split_char c (p @ c # s) = p # split_char c s"
  by (induction p) auto

lemma split_char_none: "c \<notin> set p \<Longrightarrow> split_char c p = [p]"
  by (induction p) auto

lemma split_once_append: "c \<notin> set p \<Longrightarrow> split_once c (p @ c # s) = Some (p, s)"
  by (induction p) (auto simp: split_once_def)

lemma starts_with_append [simp]: "starts_with p (p @ s)"
  by (simp add: starts_with_def)

end
