(* ===== verification/Price_Level.thy ===== *)
theory Price_Level
  imports Order BTree Text
begin

text \<open>
  One price level of the book (\<open>PriceLevel\<close> in \<open>src/core/orderbook.rs\<close>): orders in arrival order
  under ascending keys, an index from order identity to key, and the running total of the open
  quantity. \<open>level_inv\<close> says that index, queue and total agree; every operation keeps it, and the
  lemmas give the effect of each operation on the queue.
\<close>

record price_level =
  pl_price :: rat
  pl_orders :: "(int \<times> order) list"
  pl_index :: "string \<times> order_id \<Rightarrow> int option"
  pl_total :: rat
  pl_next :: int

definition pl_new :: "rat \<Rightarrow> price_level" where
  "pl_new p = \<lparr>pl_price = p, pl_orders = [], pl_index = Map.empty, pl_total = 0, pl_next = 0\<rparr>"

definition pl_top :: "price_level \<Rightarrow> order option" where
  "pl_top l = map_option snd (bt_first (pl_orders l))"

definition pl_insert_at :: "decimal_ops \<Rightarrow> price_level \<Rightarrow> int \<Rightarrow> order \<Rightarrow> price_level option" where
  "pl_insert_at D l key ord =
     (let identity = o_key ord
      in if pl_index l identity \<noteq> None then None
         else do {
           total \<leftarrow> dec_add D (pl_total l) (o_remaining ord);
           Some (l\<lparr>pl_total := total, pl_index := (pl_index l)(identity \<mapsto> key),
                   pl_orders := bt_insert key ord (pl_orders l)\<rparr>)
         })"

definition pl_push_back :: "decimal_ops \<Rightarrow> price_level \<Rightarrow> order \<Rightarrow> price_level option" where
  "pl_push_back D l ord =
     (let key = pl_next l
      in if key < i64_max then pl_insert_at D (l\<lparr>pl_next := key + 1\<rparr>) key ord else None)"

definition pl_locate :: "price_level \<Rightarrow> string \<Rightarrow> order_id \<Rightarrow> order option" where
  "pl_locate l session ident =
     (case pl_index l (session, ident) of None \<Rightarrow> None | Some key \<Rightarrow> bt_get (pl_orders l) key)"

definition pl_remove ::
  "decimal_ops \<Rightarrow> price_level \<Rightarrow> string \<Rightarrow> order_id \<Rightarrow> (unit + order \<times> price_level) option" where
  "pl_remove D l session ident =
     (case pl_index l (session, ident) of
        None \<Rightarrow> Some (Inl ())
      | Some key \<Rightarrow> do {
          ord \<leftarrow> bt_get (pl_orders l) key;
          total \<leftarrow> dec_sub D (pl_total l) (o_remaining ord);
          Some (Inr (ord, l\<lparr>pl_index := (pl_index l)((session, ident) := None),
                            pl_orders := bt_remove key (pl_orders l), pl_total := total\<rparr>))
        })"

definition pl_update_fill :: "decimal_ops \<Rightarrow> price_level \<Rightarrow> order \<Rightarrow> rat \<Rightarrow> price_level option" where
  "pl_update_fill D l ord quantity =
     (if o_remaining ord = 0
      then do {
        r \<leftarrow> pl_remove D l (o_session ord) (o_id ord);
        (case r of Inl _ \<Rightarrow> None | Inr (_, l') \<Rightarrow> Some l')
      }
      else do {
        total \<leftarrow> dec_sub D (pl_total l) quantity;
        key \<leftarrow> pl_index l (o_key ord);
        _ \<leftarrow> bt_get (pl_orders l) key;
        Some (l\<lparr>pl_total := total, pl_orders := bt_insert key ord (pl_orders l)\<rparr>)
      })"

section \<open>Invariant\<close>

text \<open>The open quantity of a queue of keyed orders.\<close>

definition open_qty :: "(int \<times> order) list \<Rightarrow> rat" where
  "open_qty os = sum_list (map (\<lambda>e. o_remaining (snd e)) os)"

lemma open_qty_simps [simp]:
  "open_qty [] = 0" "open_qty (e # os) = o_remaining (snd e) + open_qty os"
  "open_qty (xs @ ys) = open_qty xs + open_qty ys"
  by (simp_all add: open_qty_def)

lemma open_qty_nonneg: "\<forall>e \<in> set os. order_wf S A (snd e) \<Longrightarrow> 0 \<le> open_qty os"
  by (induction os) (auto simp: order_wf_def)

definition index_agrees :: "(string \<times> order_id \<Rightarrow> int option) \<Rightarrow> (int \<times> order) list \<Rightarrow> bool" where
  "index_agrees ix os \<longleftrightarrow> (\<forall>i k. ix i = Some k \<longleftrightarrow> (\<exists>ord. (k, ord) \<in> set os \<and> o_key ord = i))"

text \<open>\<open>fits p ord\<close> is the placement rule: which orders may rest at price \<open>p\<close> of this side and book.\<close>

definition level_inv :: "(rat \<Rightarrow> order \<Rightarrow> bool) \<Rightarrow> rat set \<Rightarrow> rat set \<Rightarrow> rat \<Rightarrow> price_level \<Rightarrow> bool" where
  "level_inv fits S A p l \<longleftrightarrow>
     pl_price l = p \<and> bt_sorted (pl_orders l) \<and> (\<forall>e \<in> set (pl_orders l). fst e < pl_next l) \<and>
     index_agrees (pl_index l) (pl_orders l) \<and>
     pl_total l = open_qty (pl_orders l) \<and> pl_total l \<in> S \<and>
     (\<forall>e \<in> set (pl_orders l). order_wf S A (snd e) \<and> fits p (snd e))"

lemma level_inv_new: "decimal_ok D S A \<Longrightarrow> level_inv fits S A p (pl_new p)"
  by (simp add: level_inv_def pl_new_def index_agrees_def decimal_ok_zero)

lemma index_agrees_functional:
  assumes "index_agrees ix os" "(k, a) \<in> set os" "(j, b) \<in> set os" "o_key a = o_key b"
  shows "k = j"
proof -
  have "ix (o_key a) = Some k" "ix (o_key b) = Some j"
    using assms unfolding index_agrees_def by blast+
  then show ?thesis using assms(4) by simp
qed

lemma index_agrees_mem: "index_agrees ix os \<Longrightarrow> (k, ord) \<in> set os \<Longrightarrow> ix (o_key ord) = Some k"
  unfolding index_agrees_def by blast

lemma index_agrees_insert:
  assumes "index_agrees ix os" "ix (o_key ord) = None"
  shows "index_agrees (ix(o_key ord \<mapsto> k)) (os @ [(k, ord)])"
proof -
  have *: "\<And>i j. ix i = Some j \<longleftrightarrow> (\<exists>ord. (j, ord) \<in> set os \<and> o_key ord = i)"
    using assms(1) unfolding index_agrees_def by blast
  have "o_key a \<noteq> o_key ord" if "(j, a) \<in> set os" for j a
    using that * [of "o_key a" j] assms(2) by auto
  then show ?thesis
    unfolding index_agrees_def using * by auto
qed

lemma index_agrees_remove:
  assumes "index_agrees ix (xs @ (k, ord) # ys)" "bt_sorted (xs @ (k, ord) # ys)"
  shows "index_agrees (ix(o_key ord := None)) (xs @ ys)"
proof -
  let ?os = "xs @ (k, ord) # ys"
  have *: "\<And>i j. ix i = Some j \<longleftrightarrow> (\<exists>ord. (j, ord) \<in> set ?os \<and> o_key ord = i)"
    using assms(1) unfolding index_agrees_def by blast
  have d: "o_key a \<noteq> o_key ord" if "(j, a) \<in> set (xs @ ys)" for j a
  proof
    assume "o_key a = o_key ord"
    moreover have "(j, a) \<in> set ?os" "(k, ord) \<in> set ?os" using that by auto
    ultimately have "j = k" by (blast intro: index_agrees_functional [OF assms(1)])
    then show False using that assms(2) unfolding bt_sorted_middle by fastforce
  qed
  show ?thesis
    unfolding index_agrees_def
  proof (intro allI)
    fix i j
    show "((ix(o_key ord := None)) i = Some j) = (\<exists>a. (j, a) \<in> set (xs @ ys) \<and> o_key a = i)"
      using * [of i j] d by (cases "i = o_key ord") auto
  qed
qed

lemma index_agrees_replace:
  assumes "index_agrees ix (xs @ (k, ord) # ys)" "o_key ord' = o_key ord"
  shows "index_agrees ix (xs @ (k, ord') # ys)"
  using assms unfolding index_agrees_def by auto

section \<open>Effect of the operations\<close>

lemma pl_locate_mem:
  assumes "level_inv fits S A p l" "(k, ord) \<in> set (pl_orders l)"
  shows "pl_locate l (o_session ord) (o_id ord) = Some ord"
  using assms index_agrees_mem [of "pl_index l" "pl_orders l" k ord]
  by (simp add: pl_locate_def level_inv_def bt_sorted_distinct)

lemma pl_locate_Some:
  assumes "level_inv fits S A p l" "pl_locate l s i = Some ord"
  obtains xs k ys where "pl_orders l = xs @ (k, ord) # ys" "o_session ord = s" "o_id ord = i"
    "pl_index l (s, i) = Some k"
proof -
  obtain k where k: "pl_index l (s, i) = Some k" "bt_get (pl_orders l) k = Some ord"
    using assms(2) by (auto simp: pl_locate_def split: option.splits)
  have srt: "bt_sorted (pl_orders l)" and ix: "index_agrees (pl_index l) (pl_orders l)"
    using assms(1) by (auto simp: level_inv_def)
  obtain a where a: "(k, a) \<in> set (pl_orders l)" "o_key a = (s, i)"
    using ix k(1) unfolding index_agrees_def by blast
  have "a = ord"
    using a(1) k(2) srt by (simp add: bt_sorted_distinct)
  then show ?thesis
    using that a k split_list [of "(k, ord)"] by (metis prod.inject)
qed

lemma pl_locate_None_iff:
  assumes "level_inv fits S A p l"
  shows "pl_locate l s i = None \<longleftrightarrow> pl_index l (s, i) = None"
proof (cases "pl_index l (s, i)")
  case (Some k)
  then obtain ord where "(k, ord) \<in> set (pl_orders l)"
    using assms unfolding level_inv_def index_agrees_def by blast
  then show ?thesis
    using Some assms by (simp add: pl_locate_def level_inv_def bt_sorted_distinct)
qed (simp add: pl_locate_def)

lemma level_index_None_iff:
  assumes "level_inv fits S A p l"
  shows "pl_index l i = None \<longleftrightarrow> (\<forall>e \<in> set (pl_orders l). o_key (snd e) \<noteq> i)"
proof -
  have "index_agrees (pl_index l) (pl_orders l)" using assms by (simp add: level_inv_def)
  then have "pl_index l i = None \<longleftrightarrow> (\<forall>k ord. (k, ord) \<in> set (pl_orders l) \<longrightarrow> o_key ord \<noteq> i)"
    unfolding index_agrees_def by (metis not_None_eq)
  then show ?thesis
    by (simp only: Ball_def split_paired_All snd_conv)
qed

lemma pl_push_back_ok:
  assumes ok: "decimal_ok D S A" and inv: "level_inv fits S A p l" and wf: "order_wf S A ord"
    and fits: "fits p ord" and new: "pl_index l (o_key ord) = None"
    and room: "pl_total l + o_remaining ord \<in> S" "pl_next l < i64_max"
  obtains l' where "pl_push_back D l ord = Some l'" "level_inv fits S A p l'"
    "pl_orders l' = pl_orders l @ [(pl_next l, ord)]"
proof -
  let ?l = "l\<lparr>pl_next := pl_next l + 1, pl_total := pl_total l + o_remaining ord,
     pl_index := (pl_index l)(o_key ord \<mapsto> pl_next l), pl_orders := pl_orders l @ [(pl_next l, ord)]\<rparr>"
  have add: "dec_add D (pl_total l) (o_remaining ord) = Some (pl_total l + o_remaining ord)"
    using ok inv wf room by (intro decimal_ok_add) (auto simp: level_inv_def order_wf_def)
  have ins: "bt_insert (pl_next l) ord (pl_orders l) = pl_orders l @ [(pl_next l, ord)]"
    using inv by (intro bt_insert_end) (auto simp: level_inv_def)
  have "pl_push_back D l ord = Some ?l"
    using new room add ins by (simp add: pl_push_back_def pl_insert_at_def Let_def)
  moreover have "level_inv fits S A p ?l"
    using inv wf fits room(1) index_agrees_insert [of "pl_index l" "pl_orders l" ord "pl_next l"] new
    by (auto simp: level_inv_def sorted_wrt_append)
  ultimately show ?thesis using that by simp
qed

lemma level_inv_middle_qty:
  assumes "decimal_ok D S A" "level_inv fits S A p l" "pl_orders l = xs @ (k, ord) # ys"
  shows "o_remaining ord \<in> S" "pl_total l \<in> S" "o_remaining ord \<le> pl_total l"
    "pl_total l - o_remaining ord = open_qty (xs @ ys)" "order_wf S A ord"
proof -
  have "\<forall>e \<in> set xs. order_wf S A (snd e)" "\<forall>e \<in> set ys. order_wf S A (snd e)"
    using assms by (auto simp: level_inv_def)
  then have "0 \<le> open_qty xs" "0 \<le> open_qty ys"
    by (auto intro: open_qty_nonneg)
  then show "o_remaining ord \<le> pl_total l"
    using assms by (auto simp: level_inv_def)
qed (use assms in \<open>auto simp: level_inv_def order_wf_def\<close>)

lemma pl_remove_ok:
  assumes ok: "decimal_ok D S A" and inv: "level_inv fits S A p l"
    and os: "pl_orders l = xs @ (k, ord) # ys"
  obtains l' where "pl_remove D l (o_session ord) (o_id ord) = Some (Inr (ord, l'))"
    "level_inv fits S A p l'" "pl_orders l' = xs @ ys" "pl_next l' = pl_next l"
proof -
  let ?l = "l\<lparr>pl_index := (pl_index l)(o_key ord := None), pl_orders := xs @ ys,
     pl_total := pl_total l - o_remaining ord\<rparr>"
  have srt: "bt_sorted (xs @ (k, ord) # ys)" and ix: "index_agrees (pl_index l) (xs @ (k, ord) # ys)"
    using inv os by (auto simp: level_inv_def)
  have get: "bt_get (pl_orders l) k = Some ord"
    using srt unfolding os by (rule bt_get_middle)
  have rm: "bt_remove k (pl_orders l) = xs @ ys"
    using srt unfolding os by (rule bt_remove_middle)
  note q = level_inv_middle_qty [OF ok inv os]
  have sub: "dec_sub D (pl_total l) (o_remaining ord) = Some (pl_total l - o_remaining ord)"
    using decimal_ok_sub [OF ok q(2,1,3)] .
  have "pl_index l (o_key ord) = Some k"
    using ix by (simp add: index_agrees_mem)
  then have "pl_remove D l (o_session ord) (o_id ord) = Some (Inr (ord, ?l))"
    using get sub rm by (simp add: pl_remove_def)
  moreover have "level_inv fits S A p ?l"
    using inv os q(4) decimal_ok_diff [OF ok q(2,1,3)] index_agrees_remove [OF ix srt] srt
    by (auto simp: level_inv_def sorted_wrt_append)
  ultimately show ?thesis using that by simp
qed

lemma pl_remove_missing:
  "pl_index l (s, i) = None \<Longrightarrow> pl_remove D l s i = Some (Inl ())"
  by (simp add: pl_remove_def)

lemma pl_update_fill_ok:
  assumes ok: "decimal_ok D S A" and inv: "level_inv fits S A p l"
    and os: "pl_orders l = xs @ (k, ord) # ys"
    and q: "q \<in> S" "0 < q" "q \<le> o_remaining ord" and avg: "avg \<in> A"
    and fits: "fits p (filled ord q avg) = fits p ord"
  obtains l' where "pl_update_fill D l (filled ord q avg) q = Some l'" "level_inv fits S A p l'"
    "pl_orders l' = (if q = o_remaining ord then xs @ ys else xs @ (k, filled ord q avg) # ys)"
proof (cases "q = o_remaining ord")
  case True
  obtain l' where "pl_remove D l (o_session ord) (o_id ord) = Some (Inr (ord, l'))"
    "level_inv fits S A p l'" "pl_orders l' = xs @ ys"
    using pl_remove_ok [OF ok inv os] by blast
  then show ?thesis
    using that True by (simp add: pl_update_fill_def)
next
  case False
  note mid = level_inv_middle_qty [OF ok inv os]
  let ?o = "filled ord q avg"
  let ?l = "l\<lparr>pl_total := pl_total l - q, pl_orders := xs @ (k, ?o) # ys\<rparr>"
  have srt: "bt_sorted (xs @ (k, ord) # ys)" and ix: "index_agrees (pl_index l) (xs @ (k, ord) # ys)"
    using inv os by (auto simp: level_inv_def)
  have ins: "bt_insert k ?o (pl_orders l) = xs @ (k, ?o) # ys"
    using srt unfolding os bt_sorted_middle by (intro bt_insert_middle) simp
  have get: "bt_get (pl_orders l) k = Some ord"
    using srt unfolding os by (rule bt_get_middle)
  have le: "q \<le> pl_total l" using q(3) mid(3) by linarith
  have ixk: "pl_index l (o_key ord) = Some k"
    using ix by (rule index_agrees_mem) simp
  have "pl_update_fill D l ?o q = Some ?l"
    using False decimal_ok_sub [OF ok mid(2) q(1) le]
    by (simp add: pl_update_fill_def ixk get ins)
  moreover have "level_inv fits S A p ?l"
    using inv os ix srt mid(4) decimal_ok_diff [OF ok mid(2) q(1) le] fits
      filled_wf [OF ok mid(5) q(1) _ avg] False q(3)
    by (auto simp: level_inv_def intro: index_agrees_replace)
  ultimately show ?thesis using that False by simp
qed

end
