(* ===== verification/Order_Book.thy ===== *)
theory Order_Book
  imports Price_Level
begin

text \<open>
  The order book of one instrument (\<open>OrderBook\<close> in \<open>src/core/orderbook.rs\<close>) without the matching
  loop: insertion, the tiered operations \<open>insert_only\<close> and \<open>execute\<close>, lookup, removal and the depth
  snapshot. \<open>book_wf\<close> is the invariant of both sides; the lemmas describe each operation by its
  effect on the queue of a side, the orders in priority order.
\<close>

datatype fill_policy = Real_Fill | Tiered_Fill

type_synonym levels = "(rat \<times> price_level) list"

record book_level =
  bl_price :: rat
  bl_quantity :: rat

record book =
  bk_instrument :: int
  bk_sequence :: nat
  bk_bids :: "book_level list"
  bk_asks :: "book_level list"

definition has_bids :: "book \<Rightarrow> bool" where
  "has_bids bk \<longleftrightarrow> bk_bids bk \<noteq> []"

definition has_asks :: "book \<Rightarrow> bool" where
  "has_asks bk \<longleftrightarrow> bk_asks bk \<noteq> []"

record order_book =
  ob_instrument :: int
  ob_bids :: levels
  ob_asks :: levels

text \<open>The reasons of \<open>InvalidExecution\<close>, which the code renders as text.\<close>

datatype invalid_execution =
    NonPositiveRemaining order_id rat
  | NonPositiveFill rat rat
  | NotActive order_id order_state
  | ExceedsRemaining rat rat

datatype tiered_book_error = TieredOrderNotFound | TieredDuplicateOrder | TieredInvalidExecution invalid_execution

definition ob_new :: "int \<Rightarrow> order_book" where
  "ob_new inst = \<lparr>ob_instrument = inst, ob_bids = [], ob_asks = []\<rparr>"

fun levels_of :: "side \<Rightarrow> order_book \<Rightarrow> levels" where
  "levels_of Buy b = ob_bids b"
| "levels_of Sell b = ob_asks b"

fun set_levels :: "side \<Rightarrow> levels \<Rightarrow> order_book \<Rightarrow> order_book" where
  "set_levels Buy ls b = b\<lparr>ob_bids := ls\<rparr>"
| "set_levels Sell ls b = b\<lparr>ob_asks := ls\<rparr>"

lemma levels_set [simp]:
  "levels_of sd (set_levels sd ls b) = ls" "ob_instrument (set_levels sd ls b) = ob_instrument b"
  "sd \<noteq> sd' \<Longrightarrow> levels_of sd' (set_levels sd ls b) = levels_of sd' b"
  by (cases sd; cases sd'; simp)+

section \<open>Operations on the levels of one side\<close>

definition levels_push :: "decimal_ops \<Rightarrow> levels \<Rightarrow> rat \<Rightarrow> order \<Rightarrow> levels option" where
  "levels_push D ls price ord = do {
     let level = (case bt_get ls price of None \<Rightarrow> pl_new price | Some l \<Rightarrow> l);
     level' \<leftarrow> pl_push_back D level ord;
     Some (bt_insert price level' ls)
   }"

definition levels_update_fill :: "decimal_ops \<Rightarrow> levels \<Rightarrow> rat \<Rightarrow> order \<Rightarrow> rat \<Rightarrow> levels option" where
  "levels_update_fill D ls key ord quantity = do {
     level \<leftarrow> bt_get ls key;
     level' \<leftarrow> pl_update_fill D level ord quantity;
     Some (if pl_orders level' = [] then bt_remove key ls else bt_insert key level' ls)
   }"

section \<open>Operations of the book\<close>

definition ob_insert :: "decimal_ops \<Rightarrow> order_book \<Rightarrow> order \<Rightarrow> order_book option" where
  "ob_insert D b ord = do {
     let price = effective_price ord;
     ls \<leftarrow> levels_push D (levels_of (o_side ord) b) price ord;
     Some (set_levels (o_side ord) ls b)
   }"

definition ob_insert_only ::
  "decimal_ops \<Rightarrow> order_book \<Rightarrow> order \<Rightarrow> (tiered_book_error + order \<times> order_book) option" where
  "ob_insert_only D b ord =
     (if o_remaining ord \<le> 0
      then Some (Inl (TieredInvalidExecution (NonPositiveRemaining (o_id ord) (o_remaining ord))))
      else
        let ord = ord\<lparr>o_state := (if o_cum ord = 0 then Booked else PartialFill)\<rparr>;
            price = o_price ord;
            ls = levels_of (o_side ord) b;
            level = (case bt_get ls price of None \<Rightarrow> pl_new price | Some l \<Rightarrow> l)
        in if pl_index level (o_key ord) \<noteq> None then Some (Inl TieredDuplicateOrder)
           else do {
             ls' \<leftarrow> levels_push D ls price ord;
             Some (Inr (ord, set_levels (o_side ord) ls' b))
           })"

definition ob_execute ::
  "decimal_ops \<Rightarrow> order_book \<Rightarrow> string \<Rightarrow> order_id \<Rightarrow> side \<Rightarrow> rat \<Rightarrow> rat \<Rightarrow> rat
     \<Rightarrow> (tiered_book_error + order \<times> order_book) option" where
  "ob_execute D b session ident sd key_price qty fill_price =
     (if qty \<le> 0 \<or> fill_price \<le> 0 then Some (Inl (TieredInvalidExecution (NonPositiveFill qty fill_price)))
      else case bt_get (levels_of sd b) key_price of
        None \<Rightarrow> Some (Inl TieredOrderNotFound)
      | Some level \<Rightarrow>
          (case pl_locate level session ident of
             None \<Rightarrow> Some (Inl TieredOrderNotFound)
           | Some ord \<Rightarrow>
               if \<not> is_active (o_state ord) then Some (Inl (TieredInvalidExecution (NotActive ident (o_state ord))))
               else if o_remaining ord < qty
                 then Some (Inl (TieredInvalidExecution (ExceedsRemaining qty (o_remaining ord))))
               else do {
                 ord' \<leftarrow> apply_fill D ord qty fill_price;
                 ls \<leftarrow> levels_update_fill D (levels_of sd b) key_price ord' qty;
                 Some (Inr (ord', set_levels sd ls b))
               }))"

definition ob_locate :: "order_book \<Rightarrow> string \<Rightarrow> order_id \<Rightarrow> side \<Rightarrow> rat \<Rightarrow> order option" where
  "ob_locate b session ident sd price =
     (case bt_get (levels_of sd b) price of None \<Rightarrow> None | Some l \<Rightarrow> pl_locate l session ident)"

definition cancelled :: "order \<Rightarrow> order" where
  "cancelled ord = (if is_active (o_state ord) then ord\<lparr>o_state := Cancelled\<rparr> else ord)"

definition ob_remove ::
  "decimal_ops \<Rightarrow> order_book \<Rightarrow> string \<Rightarrow> order_id \<Rightarrow> side \<Rightarrow> rat
     \<Rightarrow> (unit + order \<times> order_book) option" where
  "ob_remove D b session ident sd price =
     (case bt_get (levels_of sd b) price of
        None \<Rightarrow> Some (Inl ())
      | Some level \<Rightarrow> do {
          r \<leftarrow> pl_remove D level session ident;
          (case r of
             Inl _ \<Rightarrow> Some (Inl ())
           | Inr (removed, level') \<Rightarrow>
               Some (Inr (cancelled removed,
                 set_levels sd
                   (if pl_orders level' = [] then bt_remove price (levels_of sd b)
                    else bt_insert price level' (levels_of sd b)) b)))
        })"

definition build_levels :: "price_level list \<Rightarrow> book_level list" where
  "build_levels ls = map (\<lambda>l. \<lparr>bl_price = pl_price l, bl_quantity = pl_total l\<rparr>) ls"

definition ob_build_book :: "order_book \<Rightarrow> book" where
  "ob_build_book b =
     \<lparr>bk_instrument = ob_instrument b, bk_sequence = 0,
      bk_bids = build_levels (rev (map snd (ob_bids b))),
      bk_asks = build_levels (map snd (ob_asks b))\<rparr>"

section \<open>Invariant\<close>

definition level_key :: "fill_policy \<Rightarrow> order \<Rightarrow> rat" where
  "level_key pol ord = (case pol of Real_Fill \<Rightarrow> effective_price ord | Tiered_Fill \<Rightarrow> o_price ord)"

definition rests :: "fill_policy \<Rightarrow> int \<Rightarrow> side \<Rightarrow> rat \<Rightarrow> order \<Rightarrow> bool" where
  "rests pol inst sd p ord \<longleftrightarrow> level_key pol ord = p \<and> o_side ord = sd \<and> o_instrument ord = inst"

definition side_inv :: "(rat \<Rightarrow> order \<Rightarrow> bool) \<Rightarrow> rat set \<Rightarrow> rat set \<Rightarrow> levels \<Rightarrow> bool" where
  "side_inv fits S A ls \<longleftrightarrow>
     bt_sorted ls \<and> (\<forall>e \<in> set ls. level_inv fits S A (fst e) (snd e) \<and> pl_orders (snd e) \<noteq> [])"

definition book_wf :: "fill_policy \<Rightarrow> rat set \<Rightarrow> rat set \<Rightarrow> order_book \<Rightarrow> bool" where
  "book_wf pol S A b \<longleftrightarrow>
     (\<forall>sd. side_inv (rests pol (ob_instrument b) sd) S A (levels_of sd b))"

text \<open>The queue of one side, cheapest level first, and the two sides in matching priority.\<close>

definition level_queue :: "price_level \<Rightarrow> order list" where
  "level_queue l = map snd (pl_orders l)"

definition side_queue :: "levels \<Rightarrow> order list" where
  "side_queue ls = concat (map (\<lambda>e. level_queue (snd e)) ls)"

definition bid_queue :: "order_book \<Rightarrow> order list" where
  "bid_queue b = side_queue (rev (ob_bids b))"

definition ask_queue :: "order_book \<Rightarrow> order list" where
  "ask_queue b = side_queue (ob_asks b)"

definition book_orders :: "order_book \<Rightarrow> side \<Rightarrow> order set" where
  "book_orders b sd = set (side_queue (levels_of sd b))"

text \<open>A further order of this size still fits the quantity grid at its level.\<close>

definition side_room :: "rat set \<Rightarrow> levels \<Rightarrow> rat \<Rightarrow> order \<Rightarrow> bool" where
  "side_room S ls p ord \<longleftrightarrow>
     (case bt_get ls p of None \<Rightarrow> True
      | Some l \<Rightarrow> pl_total l + o_remaining ord \<in> S \<and> pl_next l < i64_max)"

lemma side_queue_simps [simp]:
  "side_queue [] = []" "side_queue (e # ls) = level_queue (snd e) @ side_queue ls"
  "side_queue (xs @ ys) = side_queue xs @ side_queue ys"
  by (simp_all add: side_queue_def)

lemma set_side_queue_rev [simp]: "set (side_queue (rev ls)) = set (side_queue ls)"
  by (simp add: side_queue_def)

lemma rests_filled [simp]: "rests pol inst sd p (filled ord q avg) = rests pol inst sd p ord"
  by (simp add: rests_def level_key_def split: fill_policy.split)

lemma book_wf_new [simp]: "book_wf pol S A (ob_new inst)"
proof -
  have "levels_of sd (ob_new inst) = []" for sd
    by (cases sd) (simp_all add: ob_new_def)
  then show ?thesis by (simp add: book_wf_def side_inv_def)
qed

lemma book_wf_side: "book_wf pol S A b \<Longrightarrow> side_inv (rests pol (ob_instrument b) sd) S A (levels_of sd b)"
  by (simp add: book_wf_def)

lemma book_wf_set_levels:
  assumes "book_wf pol S A b" "side_inv (rests pol (ob_instrument b) sd) S A ls"
  shows "book_wf pol S A (set_levels sd ls b)"
  unfolding book_wf_def
proof
  fix sd'
  show "side_inv (rests pol (ob_instrument (set_levels sd ls b)) sd') S A (levels_of sd' (set_levels sd ls b))"
    using assms by (cases "sd = sd'") (auto simp: book_wf_def)
qed

lemma side_inv_get:
  assumes "side_inv fits S A ls" "bt_get ls p = Some l"
  shows "level_inv fits S A p l" "pl_orders l \<noteq> []"
  using bt_get_mem [OF assms(2)] assms(1) by (auto simp: side_inv_def)

lemma side_inv_replace:
  assumes "side_inv fits S A ls" "level_inv fits S A p l" "pl_orders l \<noteq> []"
  shows "side_inv fits S A (bt_insert p l ls)"
  using assms set_bt_insertD [of _ p l ls]
  by (fastforce simp: side_inv_def intro: bt_sorted_insert)

lemma side_inv_drop:
  "side_inv fits S A ls \<Longrightarrow> side_inv fits S A (bt_remove p ls)"
  by (auto simp: side_inv_def intro: bt_sorted_remove dest: set_bt_removeD)

lemma side_inv_split:
  assumes "side_inv fits S A ls" "bt_get ls p = Some l"
  obtains xs ys where "ls = xs @ (p, l) # ys" "bt_remove p ls = xs @ ys"
    "\<And>l'. bt_insert p l' ls = xs @ (p, l') # ys"
  using assms bt_split [of ls p l] by (auto simp: side_inv_def)

lemma side_queue_wf:
  assumes "side_inv fits S A ls" "ord \<in> set (side_queue ls)"
  shows "order_wf S A ord" "\<exists>p. fits p ord"
  using assms unfolding side_queue_def level_queue_def side_inv_def level_inv_def by fastforce+

end
