(* ===== verification/Book_Lemmas.thy ===== *)
theory Book_Lemmas
  imports Order_Book "HOL-Library.Multiset"
begin

text \<open>
  What the operations of the order book do to the queues of its sides: \<open>levels_push\<close> appends at its
  price, \<open>levels_update_fill\<close> replaces or drops the filled order in place, removal takes one order out
  and leaves the others in order. These carry the proofs of matching and of the engine.
\<close>

definition queue_of :: "side \<Rightarrow> order_book \<Rightarrow> order list" where
  "queue_of sd b = (case sd of Buy \<Rightarrow> bid_queue b | Sell \<Rightarrow> ask_queue b)"

lemma queue_of_simps [simp]: "queue_of Buy b = bid_queue b" "queue_of Sell b = ask_queue b"
  by (simp_all add: queue_of_def)

lemma set_queue_of: "set (queue_of sd b) = book_orders b sd"
  by (cases sd) (simp_all add: bid_queue_def ask_queue_def book_orders_def)

lemma queue_of_levels: "levels_of sd b' = levels_of sd b \<Longrightarrow> queue_of sd b' = queue_of sd b"
  by (cases sd) (simp_all add: bid_queue_def ask_queue_def)

section \<open>One side\<close>

lemma side_queue_memD:
  assumes "side_inv fits S A ls" "ord \<in> set (side_queue ls)"
  obtains p l k us vs where "bt_get ls p = Some l" "level_inv fits S A p l"
    "pl_orders l = us @ (k, ord) # vs" "fits p ord"
proof -
  obtain p l k where "(p, l) \<in> set ls" and k: "(k, ord) \<in> set (pl_orders l)"
    using assms(2) by (force simp: side_queue_def level_queue_def)
  then have get: "bt_get ls p = Some l"
    using assms(1) by (simp add: side_inv_def bt_sorted_distinct)
  then have l: "level_inv fits S A p l"
    by (rule side_inv_get [OF assms(1)])
  moreover have "fits p ord"
    using l k by (auto simp: level_inv_def)
  ultimately show ?thesis
    using that get split_list [OF k] by metis
qed

lemma level_queue_side_queue:
  assumes "bt_get ls p = Some l" "(k, ord) \<in> set (pl_orders l)"
  shows "ord \<in> set (side_queue ls)"
  using bt_get_mem [OF assms(1)] assms(2) by (force simp: side_queue_def level_queue_def)

lemma levels_push_ok:
  assumes ok: "decimal_ok D S A" and inv: "side_inv fits S A ls" and wf: "order_wf S A ord"
    and fits: "fits p ord" and room: "side_room S ls p ord"
    and new: "\<And>l. bt_get ls p = Some l \<Longrightarrow> pl_index l (o_key ord) = None"
  obtains ls' xs ys q l' where "levels_push D ls p ord = Some ls'" "side_inv fits S A ls'"
    "side_queue ls = side_queue xs @ q @ side_queue ys"
    "side_queue (rev ls) = side_queue (rev ys) @ q @ side_queue (rev xs)" "ls' = xs @ (p, l') # ys"
    "level_queue l' = q @ [ord]"
proof (cases "bt_get ls p")
  case None
  have z: "level_inv fits S A p (pl_new p)" using ok by (rule level_inv_new)
  have rem: "pl_total (pl_new p) + o_remaining ord \<in> S" "pl_next (pl_new p) < i64_max"
    "pl_index (pl_new p) (o_key ord) = None"
    using wf by (simp_all add: pl_new_def order_wf_def)
  obtain l' where l': "pl_push_back D (pl_new p) ord = Some l'" "level_inv fits S A p l'"
    "pl_orders l' = pl_orders (pl_new p) @ [(pl_next (pl_new p), ord)]"
    using pl_push_back_ok [OF ok z wf fits rem(3,1,2)] by blast
  have q: "pl_orders l' = [(0, ord)]" using l'(3) by (simp add: pl_new_def)
  obtain xs ys where xy: "ls = xs @ ys" "\<And>w. bt_insert p w ls = xs @ (p, w) # ys"
    using bt_split_new [OF _ None] inv unfolding side_inv_def by metis
  have "levels_push D ls p ord = Some (xs @ (p, l') # ys)"
    using l'(1) xy(2) by (simp add: levels_push_def Let_def None)
  moreover have s: "side_inv fits S A (xs @ (p, l') # ys)"
    using side_inv_replace [OF inv l'(2)] q xy(2) by simp
  ultimately show ?thesis
    using that [of "xs @ (p, l') # ys" xs "[]" ys l'] q xy(1) s
    by (simp add: level_queue_def side_inv_def)
next
  case (Some l)
  have l: "level_inv fits S A p l" using inv Some by (rule side_inv_get)
  have r: "pl_total l + o_remaining ord \<in> S" "pl_next l < i64_max"
    using room Some by (simp_all add: side_room_def)
  obtain l' where l': "pl_push_back D l ord = Some l'" "level_inv fits S A p l'"
    "pl_orders l' = pl_orders l @ [(pl_next l, ord)]"
    using pl_push_back_ok [OF ok l wf fits new [OF Some] r] by blast
  obtain xs ys where xy: "ls = xs @ (p, l) # ys" "\<And>w. bt_insert p w ls = xs @ (p, w) # ys"
    using side_inv_split [OF inv Some] by metis
  have "levels_push D ls p ord = Some (xs @ (p, l') # ys)"
    using Some l'(1) xy(2) by (simp add: levels_push_def Let_def)
  moreover have s: "side_inv fits S A (xs @ (p, l') # ys)"
    using side_inv_replace [OF inv l'(2)] l'(3) xy(2) by simp
  ultimately show ?thesis
    using that [of "xs @ (p, l') # ys" xs "level_queue l" ys l'] l'(3) xy(1) Some s
    by (simp add: level_queue_def side_inv_def)
qed

lemma levels_update_fill_ok:
  assumes ok: "decimal_ok D S A" and inv: "side_inv fits S A ls" and ls: "ls = xs @ (p, l) # ys"
    and os: "pl_orders l = us @ (k, ord) # vs"
    and q: "q \<in> S" "0 < q" "q \<le> o_remaining ord" and avg: "avg \<in> A"
    and fits: "fits p (filled ord q avg) = fits p ord"
  obtains ls' where "levels_update_fill D ls p (filled ord q avg) q = Some ls'"
    "side_inv fits S A ls'"
    "side_queue ls' = side_queue xs @ map snd us @
       (if q = o_remaining ord then [] else [filled ord q avg]) @ map snd vs @ side_queue ys"
    "side_queue (rev ls') = side_queue (rev ys) @ map snd us @
       (if q = o_remaining ord then [] else [filled ord q avg]) @ map snd vs @ side_queue (rev xs)"
proof -
  have srt: "bt_sorted (xs @ (p, l) # ys)"
    using inv unfolding ls side_inv_def by blast
  have get: "bt_get ls p = Some l"
    unfolding ls using srt by (rule bt_get_middle)
  have l: "level_inv fits S A p l" using inv get by (rule side_inv_get)
  obtain l' where l': "pl_update_fill D l (filled ord q avg) q = Some l'" "level_inv fits S A p l'"
    "pl_orders l' = (if q = o_remaining ord then us @ vs else us @ (k, filled ord q avg) # vs)"
    using pl_update_fill_ok [OF ok l os q avg fits] by blast
  have xy: "bt_remove p ls = xs @ ys" "\<And>w. bt_insert p w ls = xs @ (p, w) # ys"
    unfolding ls using bt_remove_middle [OF srt] bt_insert_replace [OF srt] by blast+
  let ?ls = "if pl_orders l' = [] then xs @ ys else xs @ (p, l') # ys"
  have "levels_update_fill D ls p (filled ord q avg) q = Some ?ls"
    using get l'(1) xy by (simp add: levels_update_fill_def)
  moreover have "side_inv fits S A ?ls"
    using side_inv_drop [OF inv, of p] side_inv_replace [OF inv l'(2)] xy by auto
  moreover have "level_queue l' = map snd us @
      (if q = o_remaining ord then [] else [filled ord q avg]) @ map snd vs"
    using l'(3) by (simp add: level_queue_def)
  moreover have "side_queue ?ls = side_queue xs @ level_queue l' @ side_queue ys"
    "side_queue (rev ?ls) = side_queue (rev ys) @ level_queue l' @ side_queue (rev xs)"
    by (simp_all add: level_queue_def)
  ultimately show ?thesis
    using that [of ?ls] by simp
qed

lemma remove_level_ok:
  assumes ok: "decimal_ok D S A" and inv: "side_inv fits S A ls" and get: "bt_get ls p = Some l"
    and os: "pl_orders l = us @ (k, ord) # vs"
  obtains l' ls' xs ys where "pl_remove D l (o_session ord) (o_id ord) = Some (Inr (ord, l'))"
    "(if pl_orders l' = [] then bt_remove p ls else bt_insert p l' ls) = ls'"
    "side_inv fits S A ls'" "side_queue ls = side_queue xs @ map snd us @ ord # map snd vs @ side_queue ys"
    "side_queue ls' = side_queue xs @ map snd us @ map snd vs @ side_queue ys"
    "side_queue (rev ls) = side_queue (rev ys) @ map snd us @ ord # map snd vs @ side_queue (rev xs)"
    "side_queue (rev ls') = side_queue (rev ys) @ map snd us @ map snd vs @ side_queue (rev xs)"
proof -
  have l: "level_inv fits S A p l" using inv get by (rule side_inv_get)
  obtain l' where l': "pl_remove D l (o_session ord) (o_id ord) = Some (Inr (ord, l'))"
    "level_inv fits S A p l'" "pl_orders l' = us @ vs"
    using pl_remove_ok [OF ok l os] by blast
  obtain xs ys where xy: "ls = xs @ (p, l) # ys" "bt_remove p ls = xs @ ys"
    "\<And>w. bt_insert p w ls = xs @ (p, w) # ys"
    using side_inv_split [OF inv get] by metis
  let ?ls = "if pl_orders l' = [] then xs @ ys else xs @ (p, l') # ys"
  have "side_inv fits S A ?ls"
    using side_inv_drop [OF inv, of p] side_inv_replace [OF inv l'(2)] xy(2,3) by auto
  then show ?thesis
    using that [of l' ?ls xs ys] l' xy os by (auto simp: level_queue_def)
qed

section \<open>Lookup\<close>

lemma ob_locate_iff:
  assumes "book_wf pol S A b"
  shows "ob_locate b s i sd p = Some ord \<longleftrightarrow>
    ord \<in> book_orders b sd \<and> o_key ord = (s, i) \<and> level_key pol ord = p"
proof
  have inv: "side_inv (rests pol (ob_instrument b) sd) S A (levels_of sd b)"
    using assms by (rule book_wf_side)
  {
    assume "ob_locate b s i sd p = Some ord"
    then obtain l where l: "bt_get (levels_of sd b) p = Some l" "pl_locate l s i = Some ord"
      by (auto simp: ob_locate_def split: option.splits)
    note li = side_inv_get(1) [OF inv l(1)]
    obtain xs k ys where "pl_orders l = xs @ (k, ord) # ys" "o_session ord = s" "o_id ord = i"
      using pl_locate_Some [OF li l(2)] by metis
    then have "(k, ord) \<in> set (pl_orders l)" "o_key ord = (s, i)" by auto
    moreover from this have "rests pol (ob_instrument b) sd p ord"
      using li by (auto simp: level_inv_def)
    ultimately show "ord \<in> book_orders b sd \<and> o_key ord = (s, i) \<and> level_key pol ord = p"
      using level_queue_side_queue [OF l(1)] by (simp add: book_orders_def rests_def)
  next
    assume a: "ord \<in> book_orders b sd \<and> o_key ord = (s, i) \<and> level_key pol ord = p"
    obtain p' l k us vs where *: "bt_get (levels_of sd b) p' = Some l"
      "level_inv (rests pol (ob_instrument b) sd) S A p' l" "pl_orders l = us @ (k, ord) # vs"
      "rests pol (ob_instrument b) sd p' ord"
      using side_queue_memD [OF inv] a by (metis book_orders_def)
    have "pl_locate l (o_session ord) (o_id ord) = Some ord"
      using *(2,3) by (intro pl_locate_mem) auto
    with *(1,4) a show "ob_locate b s i sd p = Some ord"
      by (simp add: ob_locate_def rests_def)
  }
qed

lemma ob_locate_None_index:
  assumes "book_wf pol S A b" "bt_get (levels_of sd b) p = Some l"
  shows "pl_index l (s, i) = None \<longleftrightarrow> ob_locate b s i sd p = None"
  using pl_locate_None_iff [OF side_inv_get(1) [OF book_wf_side [OF assms(1)] assms(2)]] assms(2)
  by (simp add: ob_locate_def)

section \<open>Removal\<close>

lemma ob_remove_found:
  assumes ok: "decimal_ok D S A" and wf: "book_wf pol S A b"
    and loc: "ob_locate b s i sd p = Some ord"
  obtains b' xs ys where "ob_remove D b s i sd p = Some (Inr (ord\<lparr>o_state := Cancelled\<rparr>, b'))"
    "book_wf pol S A b'" "ob_instrument b' = ob_instrument b"
    "queue_of sd b = xs @ ord # ys" "queue_of sd b' = xs @ ys"
    "\<And>sd'. sd' \<noteq> sd \<Longrightarrow> levels_of sd' b' = levels_of sd' b"
proof -
  have inv: "side_inv (rests pol (ob_instrument b) sd) S A (levels_of sd b)"
    using wf by (rule book_wf_side)
  obtain l where l: "bt_get (levels_of sd b) p = Some l" "pl_locate l s i = Some ord"
    using loc by (auto simp: ob_locate_def split: option.splits)
  obtain us k vs where o: "pl_orders l = us @ (k, ord) # vs" "o_session ord = s" "o_id ord = i"
    using pl_locate_Some [OF side_inv_get(1) [OF inv l(1)] l(2)] by metis
  obtain l' ls' xs ys where r: "pl_remove D l (o_session ord) (o_id ord) = Some (Inr (ord, l'))"
    "(if pl_orders l' = [] then bt_remove p (levels_of sd b) else bt_insert p l' (levels_of sd b)) = ls'"
    "side_inv (rests pol (ob_instrument b) sd) S A ls'"
    "side_queue (levels_of sd b) = side_queue xs @ map snd us @ ord # map snd vs @ side_queue ys"
    "side_queue ls' = side_queue xs @ map snd us @ map snd vs @ side_queue ys"
    "side_queue (rev (levels_of sd b)) =
       side_queue (rev ys) @ map snd us @ ord # map snd vs @ side_queue (rev xs)"
    "side_queue (rev ls') = side_queue (rev ys) @ map snd us @ map snd vs @ side_queue (rev xs)"
    using remove_level_ok [OF ok inv l(1) o(1)] by blast
  have "is_active (o_state ord)"
    using side_queue_wf(1) [OF inv, of ord] r(4) by (simp add: order_wf_def)
  then have "ob_remove D b s i sd p = Some (Inr (ord\<lparr>o_state := Cancelled\<rparr>, set_levels sd ls' b))"
    using l(1) o(2,3) r(1,2) by (simp add: ob_remove_def cancelled_def)
  moreover have "queue_of sd b =
      (case sd of Buy \<Rightarrow> side_queue (rev ys) @ map snd us | Sell \<Rightarrow> side_queue xs @ map snd us) @ ord #
      (case sd of Buy \<Rightarrow> map snd vs @ side_queue (rev xs) | Sell \<Rightarrow> map snd vs @ side_queue ys)"
    "queue_of sd (set_levels sd ls' b) =
      (case sd of Buy \<Rightarrow> side_queue (rev ys) @ map snd us | Sell \<Rightarrow> side_queue xs @ map snd us) @
      (case sd of Buy \<Rightarrow> map snd vs @ side_queue (rev xs) | Sell \<Rightarrow> map snd vs @ side_queue ys)"
    using r(4-7) by (cases sd; simp add: bid_queue_def ask_queue_def)+
  ultimately show ?thesis
    using that [of "set_levels sd ls' b"] r(3) book_wf_set_levels [OF wf] by auto
qed

lemma ob_remove_missing:
  assumes "book_wf pol S A b" "ob_locate b s i sd p = None"
  shows "ob_remove D b s i sd p = Some (Inl ())"
proof (cases "bt_get (levels_of sd b) p")
  case (Some l)
  then have "pl_index l (s, i) = None"
    using ob_locate_None_index [OF assms(1) Some] assms(2) by simp
  with Some show ?thesis by (simp add: ob_remove_def pl_remove_missing)
qed (simp add: ob_remove_def)

lemma ob_remove_cases:
  assumes "decimal_ok D S A" "book_wf pol S A b"
  obtains (missing) "ob_locate b s i sd p = None" "ob_remove D b s i sd p = Some (Inl ())"
  | (found) ord b' xs ys where "ob_locate b s i sd p = Some ord"
    "ob_remove D b s i sd p = Some (Inr (ord\<lparr>o_state := Cancelled\<rparr>, b'))"
    "book_wf pol S A b'" "ob_instrument b' = ob_instrument b"
    "queue_of sd b = xs @ ord # ys" "queue_of sd b' = xs @ ys"
    "\<And>sd'. sd' \<noteq> sd \<Longrightarrow> levels_of sd' b' = levels_of sd' b"
proof (cases "ob_locate b s i sd p")
  case None
  then show ?thesis using missing ob_remove_missing [OF assms(2)] by blast
next
  case (Some ord)
  then show ?thesis using found ob_remove_found [OF assms Some] by metis
qed

end
