(* ===== verification/Matching.thy ===== *)
theory Matching
  imports Book_Lemmas
begin

text \<open>
  Continuous matching (\<open>match_trades\<close> and \<open>add\<close> in \<open>src/core/orderbook.rs\<close>). The loop is a
  partial function in the option monad: \<^const>\<open>None\<close> is a panic or a loop that never ends. The
  specification \<open>spec_match\<close> matches two priority queues without any book structure; the loop
  refines it, and so always returns, and what the specification guarantees (an uncrossed result,
  resting-price trades, conservation of quantity) holds of the loop.
\<close>

record raw_trade =
  rt_buyer :: order
  rt_seller :: order
  rt_price :: rat
  rt_quantity :: rat
  rt_trade_id :: int

text \<open>One turn of the loop: \<open>Some None\<close> is \<open>break\<close>.\<close>

definition match_once :: "decimal_ops \<Rightarrow> order_book \<Rightarrow> (order_book \<times> raw_trade) option option" where
  "match_once D b =
     (case (bt_last (ob_bids b), bt_first (ob_asks b)) of
        (Some bl, Some al) \<Rightarrow> do {
          bid \<leftarrow> pl_top (snd bl);
          ask \<leftarrow> pl_top (snd al);
          if effective_price bid < effective_price ask then Some None
          else do {
            let price = (if o_arrival bid < o_arrival ask then o_price bid else o_price ask);
            let quantity = min_decimal (o_remaining bid) (o_remaining ask);
            buyer \<leftarrow> apply_fill D bid quantity price;
            seller \<leftarrow> apply_fill D ask quantity price;
            bids \<leftarrow> levels_update_fill D (ob_bids b) (effective_price buyer) buyer quantity;
            asks \<leftarrow> levels_update_fill D (ob_asks b) (effective_price seller) seller quantity;
            Some (Some (b\<lparr>ob_bids := bids, ob_asks := asks\<rparr>,
              \<lparr>rt_buyer = buyer, rt_seller = seller, rt_price = price, rt_quantity = quantity,
               rt_trade_id = 0\<rparr>))
          }
        }
      | _ \<Rightarrow> Some None)"

partial_function (option) match_loop ::
  "decimal_ops \<Rightarrow> order_book \<Rightarrow> raw_trade list \<Rightarrow> (order_book \<times> raw_trade list) option" where
  "match_loop D b trades =
     Option.bind (match_once D b) (\<lambda>r.
       case r of
         None \<Rightarrow> Some (b, trades)
       | Some bt \<Rightarrow> match_loop D (fst bt) (trades @ [snd bt]))"

definition match_trades :: "decimal_ops \<Rightarrow> order_book \<Rightarrow> (order_book \<times> raw_trade list) option" where
  "match_trades D b = match_loop D b []"

definition pl_write :: "price_level \<Rightarrow> string \<Rightarrow> order_id \<Rightarrow> order \<Rightarrow> price_level" where
  "pl_write l session ident ord =
     (case pl_index l (session, ident) of None \<Rightarrow> l
      | Some key \<Rightarrow> l\<lparr>pl_orders := bt_insert key ord (pl_orders l)\<rparr>)"

text \<open>The write through the reference that \<open>locate_mut\<close> returns.\<close>

definition ob_write :: "order_book \<Rightarrow> side \<Rightarrow> rat \<Rightarrow> order \<Rightarrow> order_book" where
  "ob_write b sd price ord =
     (case bt_get (levels_of sd b) price of None \<Rightarrow> b
      | Some l \<Rightarrow>
          set_levels sd (bt_insert price (pl_write l (o_session ord) (o_id ord) ord) (levels_of sd b)) b)"

definition last_snapshot :: "string \<Rightarrow> order_id \<Rightarrow> raw_trade list \<Rightarrow> order option" where
  "last_snapshot session ident trades =
     fold (\<lambda>t final.
       let final = (if o_session (rt_buyer t) = session \<and> o_id (rt_buyer t) = ident
                    then Some (rt_buyer t) else final)
       in if o_session (rt_seller t) = session \<and> o_id (rt_seller t) = ident
          then Some (rt_seller t) else final) trades None"

definition ob_add ::
  "decimal_ops \<Rightarrow> order_book \<Rightarrow> order \<Rightarrow> ((raw_trade list \<times> order option) \<times> order_book) option" where
  "ob_add D b ord = do {
     let ord = ord\<lparr>o_state := Booked\<rparr>;
     b \<leftarrow> ob_insert D b ord;
     (b, trades) \<leftarrow> match_trades D b;
     (case ob_locate b (o_session ord) (o_id ord) (o_side ord) (effective_price ord) of
        Some resting \<Rightarrow>
          let remainder = (o_type ord = Market \<and> 0 < o_remaining resting);
              resting' = (if remainder then resting\<lparr>o_state := Cancelled\<rparr> else resting);
              b = (if remainder then ob_write b (o_side ord) (effective_price ord) resting' else b)
          in if o_state resting' = Cancelled
             then do {
               r \<leftarrow> ob_remove D b (o_session ord) (o_id ord) (o_side ord) (effective_price ord);
               (case r of Inl _ \<Rightarrow> None | Inr (removed, b) \<Rightarrow> Some ((trades, Some removed), b))
             }
             else Some ((trades, Some resting'), b)
      | None \<Rightarrow> Some ((trades, last_snapshot (o_session ord) (o_id ord) trades), b))
   }"

section \<open>Specification: matching two priority queues\<close>

text \<open>
  Best bid against best ask while they cross: trade the smaller open quantity at the price of the
  order that arrived first, drop what is exhausted, keep the rest of the other at the head.
\<close>

definition trade_price :: "order \<Rightarrow> order \<Rightarrow> rat" where
  "trade_price bid ask = (if o_arrival bid < o_arrival ask then o_price bid else o_price ask)"

definition trade_of :: "(order \<Rightarrow> rat \<Rightarrow> rat \<Rightarrow> order) \<Rightarrow> order \<Rightarrow> order \<Rightarrow> raw_trade" where
  "trade_of fl bid ask =
     (let q = min (o_remaining bid) (o_remaining ask); p = trade_price bid ask
      in \<lparr>rt_buyer = fl bid q p, rt_seller = fl ask q p, rt_price = p, rt_quantity = q, rt_trade_id = 0\<rparr>)"

function spec_match ::
  "(order \<Rightarrow> rat \<Rightarrow> rat \<Rightarrow> order) \<Rightarrow> order list \<Rightarrow> order list
     \<Rightarrow> raw_trade list \<times> order list \<times> order list" where
  "spec_match fl [] as = ([], [], as)"
| "spec_match fl (b # bs) [] = ([], b # bs, [])"
| "spec_match fl (b # bs) (a # as) =
     (if effective_price b < effective_price a then ([], b # bs, a # as)
      else let t = trade_of fl b a;
               r = spec_match fl (if o_remaining b \<le> o_remaining a then bs else rt_buyer t # bs)
                                 (if o_remaining a \<le> o_remaining b then as else rt_seller t # as)
           in (t # fst r, snd r))"
  by pat_completeness auto
termination
  by (relation "measure (\<lambda>(fl, bs, as). length bs + length as)") auto

text \<open>The fill the decimal library computes, total where it does not overflow.\<close>

definition lib_fill :: "decimal_ops \<Rightarrow> order \<Rightarrow> rat \<Rightarrow> rat \<Rightarrow> order" where
  "lib_fill D ord q p = (case apply_fill D ord q p of Some ord' \<Rightarrow> ord' | None \<Rightarrow> ord)"

section \<open>One turn\<close>

lemma bids_top:
  assumes "book_wf pol S A b" "bid_queue b = bd # bs"
  obtains xs p l k vs where "ob_bids b = xs @ [(p, l)]" "pl_orders l = (k, bd) # vs"
    "bs = map snd vs @ side_queue (rev xs)" "rests pol (ob_instrument b) Buy p bd"
    "order_wf S A bd"
proof -
  have inv: "side_inv (rests pol (ob_instrument b) Buy) S A (ob_bids b)"
    using book_wf_side [OF assms(1), of Buy] by simp
  have "ob_bids b \<noteq> []" using assms(2) by (auto simp: bid_queue_def)
  then obtain xs p l where ls: "ob_bids b = xs @ [(p, l)]"
    by (metis append_butlast_last_id prod.collapse)
  then have l: "level_inv (rests pol (ob_instrument b) Buy) S A p l" "pl_orders l \<noteq> []"
    using inv by (auto simp: side_inv_def)
  then obtain k o' vs where os: "pl_orders l = (k, o') # vs"
    by (metis list.exhaust prod.collapse)
  have "o' = bd" "bs = map snd vs @ side_queue (rev xs)"
    using assms(2) ls os by (simp_all add: bid_queue_def level_queue_def)
  then show ?thesis
    using that ls os l(1) by (auto simp: level_inv_def)
qed

lemma asks_top:
  assumes "book_wf pol S A b" "ask_queue b = ak # as"
  obtains p l ys k vs where "ob_asks b = (p, l) # ys" "pl_orders l = (k, ak) # vs"
    "as = map snd vs @ side_queue ys" "rests pol (ob_instrument b) Sell p ak"
    "order_wf S A ak"
proof -
  have inv: "side_inv (rests pol (ob_instrument b) Sell) S A (ob_asks b)"
    using book_wf_side [OF assms(1), of Sell] by simp
  have "ob_asks b \<noteq> []" using assms(2) by (auto simp: ask_queue_def)
  then obtain p l ys where ls: "ob_asks b = (p, l) # ys"
    by (metis list.exhaust prod.collapse)
  then have l: "level_inv (rests pol (ob_instrument b) Sell) S A p l" "pl_orders l \<noteq> []"
    using inv by (auto simp: side_inv_def)
  then obtain k o' vs where os: "pl_orders l = (k, o') # vs"
    by (metis list.exhaust prod.collapse)
  have "o' = ak" "as = map snd vs @ side_queue ys"
    using assms(2) ls os by (simp_all add: ask_queue_def level_queue_def)
  then show ?thesis
    using that ls os l(1) by (auto simp: level_inv_def)
qed

lemma bid_queue_Nil: "book_wf pol S A b \<Longrightarrow> bid_queue b = [] \<longleftrightarrow> ob_bids b = []"
  using book_wf_side [of pol S A b Buy]
  by (cases "ob_bids b" rule: rev_cases) (auto simp: bid_queue_def side_inv_def level_queue_def)

lemma ask_queue_Nil: "book_wf pol S A b \<Longrightarrow> ask_queue b = [] \<longleftrightarrow> ob_asks b = []"
  using book_wf_side [of pol S A b Sell]
  by (cases "ob_asks b") (auto simp: ask_queue_def side_inv_def level_queue_def)

text \<open>Whether the two heads cross.\<close>

fun crossed :: "order list \<Rightarrow> order list \<Rightarrow> bool" where
  "crossed (b # bs) (a # as) \<longleftrightarrow> effective_price a \<le> effective_price b"
| "crossed _ _ \<longleftrightarrow> False"

lemma match_once_stop:
  assumes wf: "book_wf pol S A b" and nc: "\<not> crossed (bid_queue b) (ask_queue b)"
  shows "match_once D b = Some None"
proof (cases "bid_queue b")
  case Nil
  then show ?thesis
    using bid_queue_Nil [OF wf] by (simp add: match_once_def bt_last_def)
next
  case (Cons bd bs)
  show ?thesis
  proof (cases "ask_queue b")
    case Nil
    then show ?thesis
      using ask_queue_Nil [OF wf] by (simp add: match_once_def bt_first_def split: option.split)
  next
    case (Cons ak as)
    obtain xs p l k vs where bids: "ob_bids b = xs @ [(p, l)]" "pl_orders l = (k, bd) # vs"
      using bids_top [OF wf \<open>bid_queue b = bd # bs\<close>] by metis
    obtain p' l' ys k' vs' where asks: "ob_asks b = (p', l') # ys" "pl_orders l' = (k', ak) # vs'"
      using asks_top [OF wf Cons] by metis
    show ?thesis
      using bids asks nc \<open>bid_queue b = bd # bs\<close> Cons
      by (simp add: match_once_def bt_last_def bt_first_def pl_top_def)
  qed
qed

lemma lib_fill_filled:
  assumes "decimal_ok D S A" "order_wf S A ord" "q \<in> S" "0 < q" "q \<le> o_remaining ord" "p \<in> A"
  obtains avg where "apply_fill D ord q p = Some (lib_fill D ord q p)"
    "lib_fill D ord q p = filled ord q avg" "avg \<in> A"
proof -
  obtain avg where "apply_fill D ord q p = Some (filled ord q avg)" "avg \<in> A"
    using apply_fill_Some [OF assms] by blast
  then show ?thesis using that by (simp add: lib_fill_def)
qed

lemma rests_Real_price: "rests Real_Fill inst sd p ord \<Longrightarrow> effective_price ord = p"
  by (simp add: rests_def level_key_def)

lemma match_once_step:
  assumes ok: "decimal_ok D S A" and wf: "book_wf Real_Fill S A b"
    and bq: "bid_queue b = bd # bs" and aq: "ask_queue b = ak # as"
    and cross: "effective_price ak \<le> effective_price bd"
  obtains b' where "match_once D b = Some (Some (b', trade_of (lib_fill D) bd ak))"
    "book_wf Real_Fill S A b'" "ob_instrument b' = ob_instrument b"
    "bid_queue b' = (if o_remaining bd \<le> o_remaining ak then bs
                     else rt_buyer (trade_of (lib_fill D) bd ak) # bs)"
    "ask_queue b' = (if o_remaining ak \<le> o_remaining bd then as
                     else rt_seller (trade_of (lib_fill D) bd ak) # as)"
proof -
  obtain xs p l k vs where bids: "ob_bids b = xs @ [(p, l)]" "pl_orders l = (k, bd) # vs"
    "bs = map snd vs @ side_queue (rev xs)" "rests Real_Fill (ob_instrument b) Buy p bd"
    and wb: "order_wf S A bd"
    using bids_top [OF wf bq] by metis
  obtain p' l' ys k' vs' where asks: "ob_asks b = (p', l') # ys" "pl_orders l' = (k', ak) # vs'"
    "as = map snd vs' @ side_queue ys" "rests Real_Fill (ob_instrument b) Sell p' ak"
    and wa: "order_wf S A ak"
    using asks_top [OF wf aq] by metis
  let ?q = "min (o_remaining bd) (o_remaining ak)" and ?p = "trade_price bd ak"
  have q: "?q \<in> S" "0 < ?q" "?q \<le> o_remaining bd" "?q \<le> o_remaining ak"
    using wb wa by (auto simp: order_wf_def min_def)
  have pA: "?p \<in> A" using wb wa by (auto simp: order_wf_def trade_price_def)
  obtain ab where fb: "apply_fill D bd ?q ?p = Some (lib_fill D bd ?q ?p)"
    "lib_fill D bd ?q ?p = filled bd ?q ab" "ab \<in> A"
    using lib_fill_filled [OF ok wb q(1,2,3) pA] by blast
  obtain aa where fa: "apply_fill D ak ?q ?p = Some (lib_fill D ak ?q ?p)"
    "lib_fill D ak ?q ?p = filled ak ?q aa" "aa \<in> A"
    using lib_fill_filled [OF ok wa q(1,2,4) pA] by blast
  have ib: "side_inv (rests Real_Fill (ob_instrument b) Buy) S A (ob_bids b)"
    and ia: "side_inv (rests Real_Fill (ob_instrument b) Sell) S A (ob_asks b)"
    using book_wf_side [OF wf, of Buy] book_wf_side [OF wf, of Sell] by simp_all
  have lb: "ob_bids b = xs @ (p, l) # []" and la: "ob_asks b = [] @ (p', l') # ys"
    and ob: "pl_orders l = [] @ (k, bd) # vs" and oa: "pl_orders l' = [] @ (k', ak) # vs'"
    using bids asks by simp_all
  obtain nb where nb: "levels_update_fill D (ob_bids b) p (filled bd ?q ab) ?q = Some nb"
    "side_inv (rests Real_Fill (ob_instrument b) Buy) S A nb"
    "side_queue (rev nb) = side_queue (rev []) @ map snd ([] :: (int \<times> order) list) @
       (if ?q = o_remaining bd then [] else [filled bd ?q ab]) @ map snd vs @ side_queue (rev xs)"
    using levels_update_fill_ok [OF ok ib lb ob q(1,2,3) fb(3), OF rests_filled] by blast
  obtain na where na: "levels_update_fill D (ob_asks b) p' (filled ak ?q aa) ?q = Some na"
    "side_inv (rests Real_Fill (ob_instrument b) Sell) S A na"
    "side_queue na = side_queue [] @ map snd ([] :: (int \<times> order) list) @
       (if ?q = o_remaining ak then [] else [filled ak ?q aa]) @ map snd vs' @ side_queue ys"
    using levels_update_fill_ok [OF ok ia la oa q(1,2,4) fa(3), OF rests_filled] by blast
  let ?b = "b\<lparr>ob_bids := nb, ob_asks := na\<rparr>"
  have "match_once D b = Some (Some (?b, trade_of (lib_fill D) bd ak))"
    using cross bids(1,2) asks(1,2) fb(1,2) fa(1,2) nb(1) na(1)
      rests_Real_price [OF bids(4)] rests_Real_price [OF asks(4)]
    by (simp add: match_once_def bt_last_def bt_first_def pl_top_def trade_of_def trade_price_def Let_def)
  moreover have "book_wf Real_Fill S A ?b"
    using nb(2) na(2) by (simp add: book_wf_def all_side)
  moreover have "?q = o_remaining bd \<longleftrightarrow> o_remaining bd \<le> o_remaining ak"
    "?q = o_remaining ak \<longleftrightarrow> o_remaining ak \<le> o_remaining bd"
    by (auto simp: min_def)
  then have "bid_queue ?b = (if o_remaining bd \<le> o_remaining ak then bs
      else rt_buyer (trade_of (lib_fill D) bd ak) # bs)"
    "ask_queue ?b = (if o_remaining ak \<le> o_remaining bd then as
      else rt_seller (trade_of (lib_fill D) bd ak) # as)"
    using nb(3) na(3) bids(3) asks(3) fb(2) fa(2)
    by (auto simp: bid_queue_def ask_queue_def trade_of_def Let_def)
  ultimately show ?thesis
    using that [of ?b] by simp
qed

end
