(* ===== verification/Matching_Spec.thy ===== *)
theory Matching_Spec
  imports Matching
begin

text \<open>
  The matching loop refines \<open>spec_match\<close>, and what \<open>spec_match\<close> guarantees about two priority
  queues: it stops uncrossed, keeps price-time order, moves the same quantity on both sides, and
  when the queues were uncrossed before one new order joined, every trade is between that order and a
  resting one at the resting order's price.
\<close>

section \<open>Refinement\<close>

lemma match_loop_refines:
  assumes "decimal_ok D S A" "book_wf Real_Fill S A b"
  shows "\<exists>b'. match_loop D b ts =
        Some (b', ts @ fst (spec_match (lib_fill D) (bid_queue b) (ask_queue b))) \<and>
      book_wf Real_Fill S A b' \<and> ob_instrument b' = ob_instrument b \<and>
      snd (spec_match (lib_fill D) (bid_queue b) (ask_queue b)) = (bid_queue b', ask_queue b')"
  using assms
proof (induction "lib_fill D" "bid_queue b" "ask_queue b" arbitrary: b ts rule: spec_match.induct)
  case (1 b)
  have eq: "bid_queue b = []" using 1 by simp
  have "match_once D b = Some None"
    using 1 eq by (intro match_once_stop) auto
  then show ?case
    using 1 eq by (simp add: match_loop.simps [of D b])
next
  case (2 bd bs)
  have eq: "bid_queue b = bd # bs" "ask_queue b = []" using 2 by simp_all
  have "match_once D b = Some None"
    using 2 eq by (intro match_once_stop) auto
  then show ?case
    using 2 eq by (simp add: match_loop.simps [of D b])
next
  case (3 bd bs ak as)
  have eq: "bid_queue b = bd # bs" "ask_queue b = ak # as" using 3 by simp_all
  show ?case
  proof (cases "effective_price bd < effective_price ak")
    case True
    then have "match_once D b = Some None"
      using 3 eq by (intro match_once_stop) auto
    then show ?thesis
      using 3 eq True by (simp add: match_loop.simps [of D b])
  next
    case False
    let ?t = "trade_of (lib_fill D) bd ak"
    obtain b1 where b1: "match_once D b = Some (Some (b1, ?t))" "book_wf Real_Fill S A b1"
      "ob_instrument b1 = ob_instrument b"
      "bid_queue b1 = (if o_remaining bd \<le> o_remaining ak then bs else rt_buyer ?t # bs)"
      "ask_queue b1 = (if o_remaining ak \<le> o_remaining bd then as else rt_seller ?t # as)"
      using match_once_step [OF 3(4,5) eq] False by (metis not_less)
    have IH: "\<exists>b'. match_loop D b1 (ts @ [?t]) =
        Some (b', (ts @ [?t]) @ fst (spec_match (lib_fill D) (bid_queue b1) (ask_queue b1))) \<and>
      book_wf Real_Fill S A b' \<and> ob_instrument b' = ob_instrument b1 \<and>
      snd (spec_match (lib_fill D) (bid_queue b1) (ask_queue b1)) = (bid_queue b', ask_queue b')"
      using 3(1) [OF False refl b1(4) [symmetric] b1(5) [symmetric] 3(4) b1(2)] by blast
    show ?thesis
      using IH False unfolding eq match_loop.simps [of D b] b1(1)
      by (simp add: Let_def b1(3-5))
  qed
qed

lemma match_trades_refines:
  assumes "decimal_ok D S A" "book_wf Real_Fill S A b"
  obtains b' ts where "match_trades D b = Some (b', ts)" "book_wf Real_Fill S A b'"
    "ob_instrument b' = ob_instrument b"
    "spec_match (lib_fill D) (bid_queue b) (ask_queue b) = (ts, bid_queue b', ask_queue b')"
  using match_loop_refines [OF assms, of "[]"] that unfolding match_trades_def
  by (metis append_Nil prod.collapse)

section \<open>The specification stops uncrossed\<close>

lemma spec_match_step:
  assumes "spec_match fl (b # bs) (a # as) = (ts, bs', as')" "\<not> effective_price b < effective_price a"
  obtains ts' where "ts = trade_of fl b a # ts'"
    "spec_match fl (if o_remaining b \<le> o_remaining a then bs else rt_buyer (trade_of fl b a) # bs)
       (if o_remaining a \<le> o_remaining b then as else rt_seller (trade_of fl b a) # as) = (ts', bs', as')"
proof -
  let ?r = "spec_match fl (if o_remaining b \<le> o_remaining a then bs else rt_buyer (trade_of fl b a) # bs)
       (if o_remaining a \<le> o_remaining b then as else rt_seller (trade_of fl b a) # as)"
  have "ts = trade_of fl b a # fst ?r" "snd ?r = (bs', as')"
    using assms by (simp_all add: Let_def)
  moreover from this have "?r = (fst ?r, bs', as')"
    by (metis prod.collapse)
  ultimately show ?thesis using that by blast
qed

lemma spec_match_uncrossed:
  "\<not> crossed (fst (snd (spec_match fl bs as))) (snd (snd (spec_match fl bs as)))"
  by (induction fl bs as rule: spec_match.induct) (simp_all add: Let_def)

section \<open>What a fill leaves alone\<close>

definition same_terms :: "order \<Rightarrow> order \<Rightarrow> bool" where
  "same_terms a b \<longleftrightarrow>
     o_key a = o_key b \<and> o_side a = o_side b \<and> o_type a = o_type b \<and> o_price a = o_price b \<and>
     o_arrival a = o_arrival b \<and> o_instrument a = o_instrument b \<and> o_quantity a = o_quantity b \<and>
     o_exchange_id a = o_exchange_id b"

lemma same_terms_refl [simp]: "same_terms a a"
  by (simp add: same_terms_def)

lemma same_terms_price: "same_terms a b \<Longrightarrow> effective_price a = effective_price b"
  by (simp add: same_terms_def effective_price_def split: order_type.split side.split)

lemma apply_fill_same_terms: "apply_fill D ord q p = Some ord' \<Longrightarrow> same_terms ord' ord"
  by (clarsimp simp: apply_fill_def Let_def bind_eq_Some_conv) (simp add: same_terms_def)

lemma lib_fill_same_terms [simp]: "same_terms (lib_fill D ord q p) ord"
  by (auto simp: lib_fill_def apply_fill_same_terms split: option.split)

section \<open>Price-time order\<close>

text \<open>\<open>ahead sd a b\<close>: in the queue of side \<open>sd\<close>, \<open>a\<close> has a better price, or the same price and earlier arrival.\<close>

definition ahead :: "side \<Rightarrow> order \<Rightarrow> order \<Rightarrow> bool" where
  "ahead sd a b \<longleftrightarrow>
     (case sd of Buy \<Rightarrow> effective_price b < effective_price a
               | Sell \<Rightarrow> effective_price a < effective_price b) \<or>
     effective_price a = effective_price b \<and> o_arrival a < o_arrival b"

abbreviation priority_order :: "side \<Rightarrow> order list \<Rightarrow> bool" where
  "priority_order sd q \<equiv> sorted_wrt (ahead sd) q"

lemma ahead_same_terms: "same_terms a a' \<Longrightarrow> ahead sd a b = ahead sd a' b"
  "same_terms b b' \<Longrightarrow> ahead sd a b = ahead sd a b'"
  using same_terms_price [of a a'] same_terms_price [of b b']
  by (auto simp: ahead_def same_terms_def split: side.splits)

lemma spec_match_priority:
  assumes "\<And>ord q p. same_terms (fl ord q p) ord" "spec_match fl bs as = (ts, bs', as')"
  shows "(priority_order Buy bs \<longrightarrow> priority_order Buy bs') \<and>
    (priority_order Sell as \<longrightarrow> priority_order Sell as')"
  using assms
proof (induction fl bs as arbitrary: ts bs' as' rule: spec_match.induct)
  case (3 fl b bs a as)
  have t: "same_terms (rt_buyer (trade_of fl b a)) b" "same_terms (rt_seller (trade_of fl b a)) a"
    using 3(2) by (simp_all add: trade_of_def Let_def)
  show ?case
  proof (cases "effective_price b < effective_price a")
    case False
    obtain ts' where "spec_match fl
        (if o_remaining b \<le> o_remaining a then bs else rt_buyer (trade_of fl b a) # bs)
        (if o_remaining a \<le> o_remaining b then as else rt_seller (trade_of fl b a) # as) = (ts', bs', as')"
      using spec_match_step [OF 3(3) False] by metis
    from 3(1) [OF False refl 3(2) this] show ?thesis
      by (simp add: ahead_same_terms(1) [OF t(1)] ahead_same_terms(1) [OF t(2)] split: if_splits)
  qed (use 3(3) in auto)
qed auto

section \<open>Conservation of quantity\<close>

definition open_total :: "order list \<Rightarrow> rat" where
  "open_total q = sum_list (map o_remaining q)"

definition traded_total :: "raw_trade list \<Rightarrow> rat" where
  "traded_total ts = sum_list (map rt_quantity ts)"

lemma open_total_simps [simp]:
  "open_total [] = 0" "open_total (a # q) = o_remaining a + open_total q"
  "open_total (p @ q) = open_total p + open_total q"
  by (simp_all add: open_total_def)

lemma traded_total_simps [simp]:
  "traded_total [] = 0" "traded_total (t # ts) = rt_quantity t + traded_total ts"
  by (simp_all add: traded_total_def)

text \<open>A fill function that is exact on well-formed orders.\<close>

definition exact_fill :: "(order \<Rightarrow> rat \<Rightarrow> rat \<Rightarrow> order) \<Rightarrow> rat set \<Rightarrow> rat set \<Rightarrow> bool" where
  "exact_fill fl S A \<longleftrightarrow>
     (\<forall>ord q p. order_wf S A ord \<longrightarrow> q \<in> S \<longrightarrow> 0 < q \<longrightarrow> q \<le> o_remaining ord \<longrightarrow> p \<in> A \<longrightarrow>
        (\<exists>avg \<in> A. fl ord q p = filled ord q avg))"

lemma lib_fill_exact: "decimal_ok D S A \<Longrightarrow> exact_fill (lib_fill D) S A"
  unfolding exact_fill_def using lib_fill_filled by metis

lemma trade_of_exact:
  assumes "exact_fill fl S A" "order_wf S A b" "order_wf S A a"
  obtains ab aa where "rt_buyer (trade_of fl b a) = filled b (min (o_remaining b) (o_remaining a)) ab"
    "rt_seller (trade_of fl b a) = filled a (min (o_remaining b) (o_remaining a)) aa"
    "ab \<in> A" "aa \<in> A" "min (o_remaining b) (o_remaining a) \<in> S"
    "0 < min (o_remaining b) (o_remaining a)"
proof -
  let ?q = "min (o_remaining b) (o_remaining a)"
  have q: "?q \<in> S" "0 < ?q" "?q \<le> o_remaining b" "?q \<le> o_remaining a" "trade_price b a \<in> A"
    using assms(2,3) by (auto simp: order_wf_def min_def trade_price_def)
  then show ?thesis
    using that assms unfolding exact_fill_def trade_of_def Let_def raw_trade.simps by metis
qed

lemma spec_match_conserve:
  assumes "decimal_ok D S A" "exact_fill fl S A" "\<forall>x \<in> set bs. order_wf S A x" "\<forall>x \<in> set as. order_wf S A x"
    "spec_match fl bs as = (ts, bs', as')"
  shows "open_total bs = open_total bs' + traded_total ts \<and>
    open_total as = open_total as' + traded_total ts"
  using assms
proof (induction fl bs as arbitrary: ts bs' as' rule: spec_match.induct)
  case (3 fl b bs a as)
  show ?case
  proof (cases "effective_price b < effective_price a")
    case False
    have wf: "order_wf S A b" "order_wf S A a" using 3(4,5) by simp_all
    let ?q = "min (o_remaining b) (o_remaining a)"
    obtain ab aa where t: "rt_buyer (trade_of fl b a) = filled b ?q ab"
      "rt_seller (trade_of fl b a) = filled a ?q aa" "ab \<in> A" "aa \<in> A" "?q \<in> S"
      using trade_of_exact [OF 3(3) wf] by blast
    obtain ts' where ts': "ts = trade_of fl b a # ts'" "spec_match fl
        (if o_remaining b \<le> o_remaining a then bs else rt_buyer (trade_of fl b a) # bs)
        (if o_remaining a \<le> o_remaining b then as else rt_seller (trade_of fl b a) # as) = (ts', bs', as')"
      using spec_match_step [OF 3(6) False] by metis
    have wb: "order_wf S A (filled b ?q ab)" if "\<not> o_remaining b \<le> o_remaining a"
      using filled_wf [OF 3(2) wf(1) t(5) _ t(3)] that by (simp add: min_def)
    have wa: "order_wf S A (filled a ?q aa)" if "\<not> o_remaining a \<le> o_remaining b"
      using filled_wf [OF 3(2) wf(2) t(5) _ t(4)] that by (simp add: min_def)
    have IH: "open_total (if o_remaining b \<le> o_remaining a then bs else filled b ?q ab # bs) =
          open_total bs' + traded_total ts' \<and>
        open_total (if o_remaining a \<le> o_remaining b then as else filled a ?q aa # as) =
          open_total as' + traded_total ts'"
    proof -
      have "\<forall>x \<in> set (if o_remaining b \<le> o_remaining a then bs else rt_buyer (trade_of fl b a) # bs). order_wf S A x"
        "\<forall>x \<in> set (if o_remaining a \<le> o_remaining b then as else rt_seller (trade_of fl b a) # as). order_wf S A x"
        using wb wa 3(4,5) t(1,2) by simp_all
      from 3(1) [OF False refl 3(2,3) this ts'(2)] show ?thesis
        unfolding t(1,2) .
    qed
    have "rt_quantity (trade_of fl b a) = ?q" by (simp add: trade_of_def Let_def)
    then show ?thesis
      using IH ts'(1) by (cases "o_remaining b \<le> o_remaining a"; cases "o_remaining a \<le> o_remaining b")
        (auto simp: min_def)
  qed (use 3 in auto)
qed auto

section \<open>One new order\<close>

text \<open>
  \<open>only_new arr bs as\<close>: every crossing pair involves the order that arrived at \<open>arr\<close>, the newest,
  which is on one side only; the others are limit orders.
\<close>

definition only_new :: "nat \<Rightarrow> order list \<Rightarrow> order list \<Rightarrow> bool" where
  "only_new arr bs as \<longleftrightarrow>
     (\<forall>b \<in> set bs. \<forall>a \<in> set as. effective_price a \<le> effective_price b \<longrightarrow>
        (o_arrival b = arr) \<noteq> (o_arrival a = arr)) \<and>
     (\<forall>x \<in> set bs \<union> set as. o_arrival x \<le> arr \<and> (o_arrival x < arr \<longrightarrow> o_type x = Limit))"

definition resting_price_trade :: "nat \<Rightarrow> raw_trade \<Rightarrow> bool" where
  "resting_price_trade arr t \<longleftrightarrow>
     (if o_arrival (rt_buyer t) = arr
      then o_arrival (rt_seller t) < arr \<and> rt_price t = o_price (rt_seller t)
      else o_arrival (rt_seller t) = arr \<and> o_arrival (rt_buyer t) < arr \<and>
           rt_price t = o_price (rt_buyer t)) \<and>
     effective_price (rt_seller t) \<le> rt_price t \<and> rt_price t \<le> effective_price (rt_buyer t)"

lemma only_new_mono:
  assumes new: "only_new arr bs as"
    and b: "\<And>x. x \<in> set bs' \<Longrightarrow> \<exists>y \<in> set bs. same_terms x y"
    and a: "\<And>x. x \<in> set as' \<Longrightarrow> \<exists>y \<in> set as. same_terms x y"
  shows "only_new arr bs' as'"
  unfolding only_new_def
proof (intro conjI ballI impI)
  fix x y assume "x \<in> set bs'" "y \<in> set as'" and c: "effective_price y \<le> effective_price x"
  then obtain x' y' where s: "x' \<in> set bs" "same_terms x x'" "y' \<in> set as" "same_terms y y'"
    using a b by metis
  then have "effective_price y' \<le> effective_price x'"
    using c same_terms_price by metis
  then have "(o_arrival x' = arr) \<noteq> (o_arrival y' = arr)"
    using new s unfolding only_new_def by blast
  then show "(o_arrival x = arr) \<noteq> (o_arrival y = arr)"
    using s by (simp add: same_terms_def)
next
  fix x assume "x \<in> set bs' \<union> set as'"
  then obtain y where s: "y \<in> set bs \<union> set as" "same_terms x y"
    using a b by blast
  then have "o_arrival y \<le> arr \<and> (o_arrival y < arr \<longrightarrow> o_type y = Limit)"
    using new unfolding only_new_def by blast
  then show "o_arrival x \<le> arr" "o_arrival x < arr \<Longrightarrow> o_type x = Limit"
    using s(2) by (simp_all add: same_terms_def)
qed

lemma only_new_replace:
  assumes "only_new arr (b # bs) (a # as)" "same_terms b' b" "same_terms a' a"
  shows "only_new arr (if c then bs else b' # bs) (if d then as else a' # as)"
  by (rule only_new_mono [OF assms(1)]) (use assms(2,3) in \<open>auto split: if_splits intro: same_terms_refl\<close>)

lemma spec_match_resting_price:
  assumes "\<And>ord q p. same_terms (fl ord q p) ord" "only_new arr bs as"
    "spec_match fl bs as = (ts, bs', as')" "t \<in> set ts"
  shows "resting_price_trade arr t"
  using assms
proof (induction fl bs as arbitrary: ts bs' as' rule: spec_match.induct)
  case (3 fl b bs a as)
  let ?t = "trade_of fl b a"
  have st: "same_terms (rt_buyer ?t) b" "same_terms (rt_seller ?t) a"
    using 3(2) by (simp_all add: trade_of_def Let_def)
  have nx: "\<not> effective_price b < effective_price a"
    using 3(4,5) by (auto split: if_splits)
  obtain ts' where ts': "ts = ?t # ts'" "spec_match fl
      (if o_remaining b \<le> o_remaining a then bs else rt_buyer ?t # bs)
      (if o_remaining a \<le> o_remaining b then as else rt_seller ?t # as) = (ts', bs', as')"
    using spec_match_step [OF 3(4) nx] by metis
  note IH = 3(1) [OF nx refl 3(2) only_new_replace [OF 3(3) st] ts'(2)]
  have "resting_price_trade arr ?t"
  proof -
    have f: "(o_arrival b = arr) \<noteq> (o_arrival a = arr)" "o_arrival b \<le> arr" "o_arrival a \<le> arr"
      "o_arrival b < arr \<longrightarrow> o_type b = Limit" "o_arrival a < arr \<longrightarrow> o_type a = Limit"
      using 3(3) nx unfolding only_new_def by auto
    have "rt_price ?t = trade_price b a" by (simp add: trade_of_def Let_def)
    moreover have "effective_price a \<le> effective_price b" using nx by simp
    ultimately show ?thesis
      using f st same_terms_price [OF st(1)] same_terms_price [OF st(2)]
      by (auto simp: resting_price_trade_def same_terms_def trade_price_def effective_price_def
          split: if_splits)
  qed
  then show ?case
    using IH 3(5) ts'(1) by auto
qed auto

end
