(* ===== verification/Match_Trace.thy ===== *)
theory Match_Trace
  imports Matching_Spec
begin

text \<open>
  Reading a batch of trades back: \<open>latest sd ts ord\<close> is the last snapshot of an order in the trades
  \<open>ts\<close>. The queues that matching leaves are exactly the latest snapshots that still have open
  quantity, so the trade reports alone determine the book. The engine's mirror of open orders
  rests on this.
\<close>

definition snap :: "side \<Rightarrow> raw_trade \<Rightarrow> order" where
  "snap sd t = (case sd of Buy \<Rightarrow> rt_buyer t | Sell \<Rightarrow> rt_seller t)"

definition upd_snap :: "side \<Rightarrow> raw_trade \<Rightarrow> order \<Rightarrow> order" where
  "upd_snap sd t ord = (if o_key (snap sd t) = o_key ord then snap sd t else ord)"

definition latest :: "side \<Rightarrow> raw_trade list \<Rightarrow> order \<Rightarrow> order" where
  "latest sd ts ord = fold (upd_snap sd) ts ord"

lemma latest_simps [simp]:
  "latest sd [] ord = ord" "latest sd (t # ts) ord = latest sd ts (upd_snap sd t ord)"
  by (simp_all add: latest_def)

lemma snap_simps [simp]: "snap Buy t = rt_buyer t" "snap Sell t = rt_seller t"
  by (simp_all add: snap_def)

lemma latest_idle: "(\<forall>t \<in> set ts. o_key (snap sd t) \<noteq> o_key ord) \<Longrightarrow> latest sd ts ord = ord"
  by (induction ts) (auto simp: upd_snap_def)

lemma latest_key [simp]: "o_session (latest sd ts ord) = o_session ord" "o_id (latest sd ts ord) = o_id ord"
  by (induction ts arbitrary: ord) (auto simp: upd_snap_def)

lemma spec_match_keys:
  assumes "\<And>ord q p. same_terms (fl ord q p) ord" "spec_match fl bs as = (ts, bs', as')" "t \<in> set ts"
  shows "o_key (rt_buyer t) \<in> o_key ` set bs \<and> o_key (rt_seller t) \<in> o_key ` set as"
  using assms
proof (induction fl bs as arbitrary: ts bs' as' rule: spec_match.induct)
  case (3 fl b bs a as)
  let ?t = "trade_of fl b a"
  have k: "o_key (rt_buyer ?t) = o_key b" "o_key (rt_seller ?t) = o_key a"
    using 3(2) by (simp_all add: trade_of_def Let_def same_terms_def)
  have nx: "\<not> effective_price b < effective_price a"
    using 3(3,4) by (auto split: if_splits)
  obtain ts' where ts': "ts = ?t # ts'" "spec_match fl
      (if o_remaining b \<le> o_remaining a then bs else rt_buyer ?t # bs)
      (if o_remaining a \<le> o_remaining b then as else rt_seller ?t # as) = (ts', bs', as')"
    using spec_match_step [OF 3(3) nx] by metis
  show ?case
  proof (cases "t \<in> set ts'")
    case True
    from 3(1) [OF nx refl 3(2) ts'(2) this] show ?thesis
      using k by (auto split: if_splits)
  next
    case False
    with 3(4) ts'(1) have "t = ?t" by simp
    with k show ?thesis by simp
  qed
qed auto

lemma distinct_keys_Cons:
  "distinct (map o_key (b # bs)) \<Longrightarrow> x \<in> set bs \<Longrightarrow> o_key b \<noteq> o_key x"
proof -
  assume "distinct (map o_key (b # bs))" "x \<in> set bs"
  then have "o_key b \<notin> o_key ` set bs" "o_key x \<in> o_key ` set bs" by simp_all
  then show ?thesis by metis
qed

lemma key_not_head:
  "distinct (map o_key (b # bs)) \<Longrightarrow> k \<in> o_key ` set bs \<Longrightarrow> k \<noteq> o_key b"
proof -
  assume "distinct (map o_key (b # bs))" "k \<in> o_key ` set bs"
  then have "o_key b \<notin> o_key ` set bs" "k \<in> o_key ` set bs" by simp_all
  then show ?thesis by metis
qed

lemma filter_open_id: "\<forall>x \<in> set q. order_wf S A x \<Longrightarrow> filter (\<lambda>x. 0 < o_remaining x) q = q"
  by (simp add: order_wf_def)

text \<open>One side of one step: the head is replaced by its snapshot, the others are untouched.\<close>

lemma latest_step:
  assumes "distinct (map o_key (b # bs))" "o_key (snap sd t) = o_key b"
    and "full \<Longrightarrow> o_remaining (snap sd t) = 0"
    and "full \<Longrightarrow> \<forall>u \<in> set ts. o_key (snap sd u) \<noteq> o_key b"
    and "r = filter (\<lambda>x. 0 < o_remaining x) (map (latest sd ts) (if full then bs else snap sd t # bs))"
  shows "r = filter (\<lambda>x. 0 < o_remaining x) (map (latest sd (t # ts)) (b # bs))"
proof -
  have rest: "map (latest sd (t # ts)) bs = map (latest sd ts) bs"
    using distinct_keys_Cons [OF assms(1)] assms(2) by (intro map_cong) (auto simp: upd_snap_def)
  have head: "latest sd (t # ts) b = latest sd ts (snap sd t)"
    using assms(2) by (simp add: upd_snap_def)
  have gone: "latest sd ts (snap sd t) = snap sd t" if full
    using assms(4) [OF that] assms(2) by (intro latest_idle) simp
  show ?thesis
    unfolding assms(5) list.map rest head using assms(3) gone by simp
qed

lemma spec_match_latest:
  assumes "decimal_ok D S A" "exact_fill fl S A" "\<And>ord q p. same_terms (fl ord q p) ord"
    "\<forall>x \<in> set bs. order_wf S A x" "\<forall>x \<in> set as. order_wf S A x"
    "distinct (map o_key bs)" "distinct (map o_key as)"
    "spec_match fl bs as = (ts, bs', as')"
  shows "bs' = filter (\<lambda>x. 0 < o_remaining x) (map (latest Buy ts) bs) \<and>
    as' = filter (\<lambda>x. 0 < o_remaining x) (map (latest Sell ts) as)"
  using assms
proof (induction fl bs as arbitrary: ts bs' as' rule: spec_match.induct)
  case (1 fl as)
  then show ?case using filter_open_id [of as S A] by simp
next
  case (2 fl b bs)
  then show ?case using filter_open_id [OF 2(4)] by auto
next
  case (3 fl b bs a as)
  show ?case
  proof (cases "effective_price b < effective_price a")
    case True
    then show ?thesis
      using 3(9) filter_open_id [OF 3(5)] filter_open_id [OF 3(6)] by auto
  next
    case False
    let ?t = "trade_of fl b a"
    let ?bs = "if o_remaining b \<le> o_remaining a then bs else rt_buyer ?t # bs"
    let ?as = "if o_remaining a \<le> o_remaining b then as else rt_seller ?t # as"
    have wf: "order_wf S A b" "order_wf S A a" using 3(5,6) by simp_all
    let ?q = "min (o_remaining b) (o_remaining a)"
    obtain ab aa where t: "rt_buyer ?t = filled b ?q ab" "rt_seller ?t = filled a ?q aa"
      "ab \<in> A" "aa \<in> A" "?q \<in> S"
      using trade_of_exact [OF 3(3) wf] by blast
    have k: "o_key (rt_buyer ?t) = o_key b" "o_key (rt_seller ?t) = o_key a"
      unfolding t by simp_all
    obtain ts' where ts': "ts = ?t # ts'" "spec_match fl ?bs ?as = (ts', bs', as')"
      using spec_match_step [OF 3(9) False] by metis
    have lt: "?q < o_remaining b" if "\<not> o_remaining b \<le> o_remaining a"
      using that by simp
    have lt': "?q < o_remaining a" if "\<not> o_remaining a \<le> o_remaining b"
      using that by simp
    have wfb: "\<forall>x \<in> set ?bs. order_wf S A x"
      using filled_wf [OF 3(2) wf(1) t(5) lt t(3)] 3(5) t(1) by simp
    have wfa: "\<forall>x \<in> set ?as. order_wf S A x"
      using filled_wf [OF 3(2) wf(2) t(5) lt' t(4)] 3(6) t(2) by simp
    have d: "distinct (map o_key ?bs)" "distinct (map o_key ?as)"
      using 3(7,8) k by simp_all
    have IH: "bs' = filter (\<lambda>x. 0 < o_remaining x) (map (latest Buy ts') ?bs)"
      "as' = filter (\<lambda>x. 0 < o_remaining x) (map (latest Sell ts') ?as)"
      using 3(1) [OF False refl 3(2,3,4) wfb wfa d ts'(2)] by blast+
    have keys: "o_key (rt_buyer u) \<in> o_key ` set ?bs \<and> o_key (rt_seller u) \<in> o_key ` set ?as"
      if "u \<in> set ts'" for u
      using spec_match_keys [OF 3(4) ts'(2) that] .
    have gb: "\<forall>u \<in> set ts'. o_key (snap Buy u) \<noteq> o_key b" if "o_remaining b \<le> o_remaining a"
    proof
      fix u assume "u \<in> set ts'"
      then have "o_key (rt_buyer u) \<in> o_key ` set bs" using keys that by (simp only: if_True)
      then show "o_key (snap Buy u) \<noteq> o_key b"
        unfolding snap_simps by (rule key_not_head [OF 3(7)])
    qed
    have ga: "\<forall>u \<in> set ts'. o_key (snap Sell u) \<noteq> o_key a" if "o_remaining a \<le> o_remaining b"
    proof
      fix u assume "u \<in> set ts'"
      then have "o_key (rt_seller u) \<in> o_key ` set as" using keys that by (simp only: if_True)
      then show "o_key (snap Sell u) \<noteq> o_key a"
        unfolding snap_simps by (rule key_not_head [OF 3(8)])
    qed
    have "bs' = filter (\<lambda>x. 0 < o_remaining x) (map (latest Buy (?t # ts')) (b # bs))"
      by (rule latest_step [OF 3(7), where full = "o_remaining b \<le> o_remaining a"])
        (use k gb IH(1) t(1) in \<open>simp_all add: min_def\<close>)
    moreover have "as' = filter (\<lambda>x. 0 < o_remaining x) (map (latest Sell (?t # ts')) (a # as))"
      by (rule latest_step [OF 3(8), where full = "o_remaining a \<le> o_remaining b"])
        (use k ga IH(2) t(2) in \<open>simp_all add: min_def\<close>)
    ultimately show ?thesis unfolding ts'(1) by blast
  qed
qed

end
