(* ===== verification/Book_Add.thy ===== *)
theory Book_Add
  imports Match_Trace
begin

text \<open>
  \<open>OrderBook::add\<close> as a whole: where the new order is inserted, that the call returns, what it
  leaves in the book and which final state it reports for the new order.
\<close>

definition better :: "side \<Rightarrow> rat \<Rightarrow> rat \<Rightarrow> bool" where
  "better sd p q \<longleftrightarrow> (case sd of Buy \<Rightarrow> q < p | Sell \<Rightarrow> p < q)"

fun other :: "side \<Rightarrow> side" where
  "other Buy = Sell"
| "other Sell = Buy"

lemma queue_wf: "book_wf pol S A b \<Longrightarrow> x \<in> set (queue_of sd b) \<Longrightarrow> order_wf S A x"
  using side_queue_wf(1) [OF book_wf_side] by (metis book_orders_def set_queue_of)

lemma queue_rests:
  "book_wf pol S A b \<Longrightarrow> x \<in> set (queue_of sd b) \<Longrightarrow> rests pol (ob_instrument b) sd (level_key pol x) x"
  using side_queue_wf(2) [OF book_wf_side, of pol S A b x sd]
  by (auto simp: set_queue_of book_orders_def rests_def)

section \<open>Insertion\<close>

lemma side_inv_queue_keys:
  assumes "side_inv (rests pol i sd) S A ls" "ls = xs @ (p, l) # ys"
  shows "x \<in> set (side_queue xs) \<Longrightarrow> level_key pol x < p"
    "x \<in> set (side_queue ys) \<Longrightarrow> p < level_key pol x"
    "x \<in> set (level_queue l) \<Longrightarrow> level_key pol x = p"
proof -
  have srt: "bt_sorted (xs @ (p, l) # ys)"
    and lev: "\<And>e. e \<in> set ls \<Longrightarrow> level_inv (rests pol i sd) S A (fst e) (snd e)"
    using assms unfolding side_inv_def by blast+
  have eff: "level_key pol x = fst e" if "e \<in> set ls" "x \<in> set (level_queue (snd e))" for e x
    using lev [OF that(1)] that(2) by (auto simp: level_inv_def level_queue_def rests_def)
  show "level_key pol x < p" if "x \<in> set (side_queue xs)"
  proof -
    obtain e where e: "e \<in> set xs" "x \<in> set (level_queue (snd e))"
      using \<open>x \<in> set (side_queue xs)\<close> by (auto simp: side_queue_def)
    then show ?thesis using eff [of e x] assms(2) srt unfolding bt_sorted_middle by auto
  qed
  show "p < level_key pol x" if "x \<in> set (side_queue ys)"
  proof -
    obtain e where e: "e \<in> set ys" "x \<in> set (level_queue (snd e))"
      using \<open>x \<in> set (side_queue ys)\<close> by (auto simp: side_queue_def)
    then show ?thesis using eff [of e x] assms(2) srt unfolding bt_sorted_middle by auto
  qed
  show "level_key pol x = p" if "x \<in> set (level_queue l)"
    using eff [of "(p, l)" x] that assms(2) by simp
qed

lemma level_key_policy [simp]: "level_key Real_Fill x = effective_price x" "level_key Tiered_Fill x = o_price x"
  by (simp_all add: level_key_def)

lemmas side_inv_queue_prices = side_inv_queue_keys [where pol = Real_Fill, simplified]

definition fits_book :: "rat set \<Rightarrow> rat set \<Rightarrow> order_book \<Rightarrow> order \<Rightarrow> bool" where
  "fits_book S A b ord \<longleftrightarrow>
     order_wf S A ord \<and> o_instrument ord = ob_instrument b \<and>
     side_room S (levels_of (o_side ord) b) (effective_price ord) ord \<and>
     o_key ord \<notin> o_key ` book_orders b (o_side ord)"

lemma ob_insert_ok:
  assumes ok: "decimal_ok D S A" and wf: "book_wf Real_Fill S A b" and fit: "fits_book S A b ord"
  obtains b' pre post where "ob_insert D b ord = Some b'" "book_wf Real_Fill S A b'"
    "ob_instrument b' = ob_instrument b"
    "queue_of (o_side ord) b = pre @ post" "queue_of (o_side ord) b' = pre @ ord # post"
    "queue_of (other (o_side ord)) b' = queue_of (other (o_side ord)) b"
    "\<forall>x \<in> set pre. \<not> better (o_side ord) (effective_price ord) (effective_price x)"
    "\<forall>x \<in> set post. better (o_side ord) (effective_price ord) (effective_price x)"
proof -
  let ?p = "effective_price ord" and ?sd = "o_side ord"
  let ?fits = "rests Real_Fill (ob_instrument b) ?sd"
  have inv: "side_inv ?fits S A (levels_of ?sd b)" using wf by (rule book_wf_side)
  have ow: "order_wf S A ord" and room: "side_room S (levels_of ?sd b) ?p ord"
    and fits: "?fits ?p ord"
    using fit by (auto simp: fits_book_def rests_def level_key_def)
  have new: "pl_index l (o_key ord) = None" if "bt_get (levels_of ?sd b) ?p = Some l" for l
  proof -
    have "o_key (snd e) \<noteq> o_key ord" if "e \<in> set (pl_orders l)" for e
    proof -
      have "snd e \<in> book_orders b ?sd"
        using level_queue_side_queue [OF \<open>bt_get (levels_of ?sd b) ?p = Some l\<close>, of "fst e" "snd e"] that
        by (simp add: book_orders_def)
      then have "o_key (snd e) \<in> o_key ` book_orders b ?sd" by (rule imageI)
      moreover have "o_key ord \<notin> o_key ` book_orders b ?sd"
        using fit unfolding fits_book_def by blast
      ultimately show ?thesis by metis
    qed
    then show ?thesis
      using level_index_None_iff [OF side_inv_get(1) [OF inv that]] by blast
  qed
  obtain ls' xs ys q l' where p: "levels_push D (levels_of ?sd b) ?p ord = Some ls'"
    "side_inv ?fits S A ls'" "side_queue (levels_of ?sd b) = side_queue xs @ q @ side_queue ys"
    "side_queue (rev (levels_of ?sd b)) = side_queue (rev ys) @ q @ side_queue (rev xs)"
    "ls' = xs @ (?p, l') # ys" "level_queue l' = q @ [ord]"
    by (rule levels_push_ok [OF ok inv ow fits room]) (rule new, assumption, blast)
  have lo: "effective_price x < ?p" if "x \<in> set (side_queue xs)" for x
    using side_inv_queue_prices(1) [OF p(2,5)] that .
  have hi: "?p < effective_price x" if "x \<in> set (side_queue ys)" for x
    using side_inv_queue_prices(2) [OF p(2,5)] that .
  have eq: "effective_price x = ?p" if "x \<in> set q" for x
    using side_inv_queue_prices(3) [OF p(2,5), of x] p(6) that by simp
  let ?b = "set_levels ?sd ls' b"
  have ins: "ob_insert D b ord = Some ?b" using p(1) by (simp add: ob_insert_def Let_def)
  have wf': "book_wf Real_Fill S A ?b" using wf p(2) by (rule book_wf_set_levels)
  show ?thesis
  proof (cases ?sd)
    case Buy
    have "\<forall>x \<in> set (side_queue (rev ys) @ q). \<not> better Buy ?p (effective_price x)"
      using hi eq by (auto simp: better_def not_less less_imp_le)
    moreover have "\<forall>x \<in> set (side_queue (rev xs)). better Buy ?p (effective_price x)"
      using lo by (simp add: better_def)
    ultimately show ?thesis
      using that [of ?b "side_queue (rev ys) @ q" "side_queue (rev xs)"] ins wf' p Buy
      by (simp add: bid_queue_def ask_queue_def)
  next
    case Sell
    have "\<forall>x \<in> set (side_queue xs @ q). \<not> better Sell ?p (effective_price x)"
      using lo eq by (auto simp: better_def not_less less_imp_le)
    moreover have "\<forall>x \<in> set (side_queue ys). better Sell ?p (effective_price x)"
      using hi by (simp add: better_def)
    ultimately show ?thesis
      using that [of ?b "side_queue xs @ q" "side_queue ys"] ins wf' p Sell
      by (simp add: bid_queue_def ask_queue_def)
  qed
qed

section \<open>Cancelling the remainder of a market order\<close>

lemma ob_remove_write:
  assumes wf: "book_wf pol S A b" and loc: "ob_locate b s i sd p = Some x"
  shows "ob_remove D (ob_write b sd p (x\<lparr>o_state := Cancelled\<rparr>)) s i sd p = ob_remove D b s i sd p"
proof -
  obtain l where l: "bt_get (levels_of sd b) p = Some l" "pl_locate l s i = Some x"
    using loc by (auto simp: ob_locate_def split: option.splits)
  have inv: "level_inv (rests pol (ob_instrument b) sd) S A p l"
    using side_inv_get(1) [OF book_wf_side [OF wf] l(1)] .
  obtain us k vs where x: "pl_orders l = us @ (k, x) # vs" "o_session x = s" "o_id x = i"
    "pl_index l (s, i) = Some k"
    using pl_locate_Some [OF inv l(2)] by metis
  have "bt_get (pl_orders l) k = Some x"
    using l(2) x(4) by (simp add: pl_locate_def)
  moreover have "is_active (o_state x)"
    using inv x(1) by (simp add: level_inv_def order_wf_def)
  moreover have "set_levels sd ls (set_levels sd ls' b) = set_levels sd ls b" for ls ls'
    by (cases sd) simp_all
  ultimately show ?thesis
    using l(1) x(2-4) by (cases "dec_sub D (pl_total l) (o_remaining x)")
      (simp_all add: ob_write_def pl_write_def ob_remove_def pl_remove_def cancelled_def)
qed

section \<open>Snapshots of the new order\<close>

lemma spec_match_snap_terms:
  assumes "\<And>ord q p. same_terms (fl ord q p) ord" "spec_match fl bs as = (ts, bs', as')" "t \<in> set ts"
  shows "(\<exists>x \<in> set bs. same_terms (rt_buyer t) x) \<and> (\<exists>x \<in> set as. same_terms (rt_seller t) x)"
  using assms
proof (induction fl bs as arbitrary: ts bs' as' rule: spec_match.induct)
  case (3 fl b bs a as)
  let ?t = "trade_of fl b a"
  have k: "same_terms (rt_buyer ?t) b" "same_terms (rt_seller ?t) a"
    using 3(2) by (simp_all add: trade_of_def Let_def)
  have nx: "\<not> effective_price b < effective_price a"
    using 3(3,4) by (auto split: if_splits)
  obtain ts' where ts': "ts = ?t # ts'" "spec_match fl
      (if o_remaining b \<le> o_remaining a then bs else rt_buyer ?t # bs)
      (if o_remaining a \<le> o_remaining b then as else rt_seller ?t # as) = (ts', bs', as')"
    using spec_match_step [OF 3(3) nx] by metis
  show ?case
  proof (cases "t \<in> set ts'")
    case True
    from 3(1) [OF nx refl 3(2) ts'(2) this] show ?thesis
      using k by (auto simp: same_terms_def split: if_splits)
  next
    case False
    with 3(4) ts'(1) k show ?thesis by auto
  qed
qed auto

lemma latest_same_terms:
  assumes "\<And>t. t \<in> set ts \<Longrightarrow> \<exists>y \<in> Q. same_terms (snap sd t) y"
    "\<And>y. y \<in> Q \<Longrightarrow> o_key y = o_key x \<Longrightarrow> y = x"
  shows "same_terms (latest sd ts x) x"
proof -
  have "same_terms (latest sd ts z) x" if "same_terms z x" for z
    using assms that
  proof (induction ts arbitrary: z)
    case (Cons t ts)
    have "same_terms (upd_snap sd t z) x"
    proof (cases "o_key (snap sd t) = o_key z")
      case True
      obtain y where "y \<in> Q" "same_terms (snap sd t) y" using Cons.prems(1) by auto
      moreover from this have "y = x"
        using True Cons.prems(2,3) unfolding same_terms_def by metis
      ultimately show ?thesis using True by (simp add: upd_snap_def)
    qed (use Cons.prems(3) in \<open>auto simp: upd_snap_def\<close>)
    then show ?case using Cons by simp
  qed simp
  then show ?thesis by simp
qed

lemma last_snapshot_latest:
  assumes "\<forall>t \<in> set ts. o_key (snap (other sd) t) \<noteq> o_key x"
  shows "last_snapshot (o_session x) (o_id x) ts =
    (if \<exists>t \<in> set ts. o_key (snap sd t) = o_key x then Some (latest sd ts x) else None)"
proof -
  let ?f = "\<lambda>t final.
       let final = (if o_session (rt_buyer t) = o_session x \<and> o_id (rt_buyer t) = o_id x
                    then Some (rt_buyer t) else final)
       in if o_session (rt_seller t) = o_session x \<and> o_id (rt_seller t) = o_id x
          then Some (rt_seller t) else final"
  have "fold ?f ts f = (if \<exists>t \<in> set ts. o_key (snap sd t) = o_key x then Some (latest sd ts z) else f)"
    if "o_key z = o_key x" for z f
    using assms that
  proof (induction ts arbitrary: z f)
    case (Cons t ts)
    have f: "?f t f = (if o_key (snap sd t) = o_key x then Some (snap sd t) else f)"
      using Cons.prems(1) by (cases sd) (auto simp: Let_def)
    show ?case
    proof (cases "o_key (snap sd t) = o_key x")
      case True
      have idle: "latest sd ts w = w" if "\<not> (\<exists>t \<in> set ts. o_key (snap sd t) = o_key x)" "o_key w = o_key x" for w
        using that by (intro latest_idle) auto
      have "fold ?f (t # ts) f = fold ?f ts (Some (snap sd t))"
        unfolding fold_simps f by (simp only: True simp_thms if_True)
      also have "\<dots> = Some (latest sd ts (snap sd t))"
        using Cons.IH [of "snap sd t"] Cons.prems(1) True idle [OF _ True] by simp
      finally show ?thesis using True Cons.prems(2) by (auto simp: upd_snap_def)
    next
      case False
      have "fold ?f (t # ts) f = fold ?f ts f"
        unfolding fold_simps f using False by (simp only: if_False)
      also have "\<dots> = (if \<exists>t \<in> set ts. o_key (snap sd t) = o_key x then Some (latest sd ts z) else f)"
        by (rule Cons.IH) (use Cons.prems in simp_all)
      finally show ?thesis
        using False Cons.prems(2) by (auto simp: upd_snap_def)
    qed
  qed simp
  then show ?thesis unfolding last_snapshot_def by simp
qed


lemma latest_cases:
  "latest sd ts x = x \<or> (\<exists>t \<in> set ts. latest sd ts x = snap sd t \<and> o_key (snap sd t) = o_key x)"
proof (induction ts arbitrary: x)
  case (Cons t ts)
  from Cons.IH [of "upd_snap sd t x"] show ?case
    by (auto simp: upd_snap_def split: if_splits)
qed simp

text \<open>A snapshot in a trade: nothing overfilled, \<open>Filled\<close> exactly when nothing is left.\<close>

definition fill_snapshot :: "order \<Rightarrow> bool" where
  "fill_snapshot x \<longleftrightarrow>
     0 \<le> o_remaining x \<and> o_cum x + o_remaining x = o_quantity x \<and>
     o_state x = (if o_remaining x = 0 then Filled else PartialFill)"

lemma spec_match_snapshots:
  assumes "decimal_ok D S A" "exact_fill fl S A" "\<forall>x \<in> set bs. order_wf S A x" "\<forall>x \<in> set as. order_wf S A x"
    "spec_match fl bs as = (ts, bs', as')" "t \<in> set ts"
  shows "fill_snapshot (rt_buyer t) \<and> fill_snapshot (rt_seller t) \<and> 0 < rt_quantity t"
  using assms
proof (induction fl bs as arbitrary: ts bs' as' rule: spec_match.induct)
  case (3 fl b bs a as)
  let ?t = "trade_of fl b a"
  have nx: "\<not> effective_price b < effective_price a"
    using 3(6,7) by (auto split: if_splits)
  obtain ts' where ts': "ts = ?t # ts'" "spec_match fl
      (if o_remaining b \<le> o_remaining a then bs else rt_buyer ?t # bs)
      (if o_remaining a \<le> o_remaining b then as else rt_seller ?t # as) = (ts', bs', as')"
    using spec_match_step [OF 3(6) nx] by metis
  have wf: "order_wf S A b" "order_wf S A a" using 3(4,5) by simp_all
  let ?q = "min (o_remaining b) (o_remaining a)"
  obtain ab aa where t: "rt_buyer ?t = filled b ?q ab" "rt_seller ?t = filled a ?q aa"
    "ab \<in> A" "aa \<in> A" "?q \<in> S" "0 < ?q"
    using trade_of_exact [OF 3(3) wf] by blast
  have lt: "?q < o_remaining b" if "\<not> o_remaining b \<le> o_remaining a" using that by simp
  have lt': "?q < o_remaining a" if "\<not> o_remaining a \<le> o_remaining b" using that by simp
  have w: "\<forall>x \<in> set (if o_remaining b \<le> o_remaining a then bs else rt_buyer ?t # bs). order_wf S A x"
    "\<forall>x \<in> set (if o_remaining a \<le> o_remaining b then as else rt_seller ?t # as). order_wf S A x"
    using filled_wf [OF 3(2) wf(1) t(5) lt t(3)] filled_wf [OF 3(2) wf(2) t(5) lt' t(4)] 3(4,5) t(1,2)
    by simp_all
  have "fill_snapshot (rt_buyer ?t) \<and> fill_snapshot (rt_seller ?t)"
    unfolding t(1,2) using wf by (simp add: fill_snapshot_def order_wf_def)
  moreover have "rt_quantity ?t = ?q" by (simp add: trade_of_def Let_def)
  ultimately show ?case
    using 3(1) [OF nx refl 3(2,3) w ts'(2)] 3(7) ts'(1) t(6) by auto
qed auto

section \<open>The whole operation\<close>

abbreviation open_orders :: "order list \<Rightarrow> order list" where
  "open_orders q \<equiv> filter (\<lambda>x. 0 < o_remaining x) q"

definition keys_distinct :: "order_book \<Rightarrow> bool" where
  "keys_distinct b \<longleftrightarrow> distinct (map o_key (bid_queue b)) \<and> distinct (map o_key (ask_queue b))"

lemma keys_distinct_queue: "keys_distinct b \<Longrightarrow> distinct (map o_key (queue_of sd b))"
  by (cases sd) (simp_all add: keys_distinct_def)

lemma distinct_keys_eq:
  "distinct (map o_key q) \<Longrightarrow> x \<in> set q \<Longrightarrow> y \<in> set q \<Longrightarrow> o_key x = o_key y \<Longrightarrow> x = y"
  by (metis (no_types, lifting) distinct_map inj_on_def)

lemma distinct_latest_keys:
  "distinct (map o_key q) \<Longrightarrow> distinct (map o_key (open_orders (map (latest sd ts) q)))"
  by (induction q) auto

lemma match_result:
  assumes ok: "decimal_ok D S A" and wf: "book_wf Real_Fill S A b" and dk: "keys_distinct b"
  obtains b' ts where "match_trades D b = Some (b', ts)" "book_wf Real_Fill S A b'"
    "ob_instrument b' = ob_instrument b"
    "spec_match (lib_fill D) (bid_queue b) (ask_queue b) = (ts, bid_queue b', ask_queue b')"
    "\<And>sd. queue_of sd b' = open_orders (map (latest sd ts) (queue_of sd b))"
    "\<And>sd t. t \<in> set ts \<Longrightarrow> \<exists>y \<in> set (queue_of sd b). same_terms (snap sd t) y"
    "\<And>sd t. t \<in> set ts \<Longrightarrow> fill_snapshot (snap sd t)"
proof -
  obtain b' ts where m: "match_trades D b = Some (b', ts)" "book_wf Real_Fill S A b'"
    "ob_instrument b' = ob_instrument b"
    "spec_match (lib_fill D) (bid_queue b) (ask_queue b) = (ts, bid_queue b', ask_queue b')"
    using match_trades_refines [OF ok wf] by metis
  have w: "\<forall>x \<in> set (bid_queue b). order_wf S A x" "\<forall>x \<in> set (ask_queue b). order_wf S A x"
    using queue_wf [OF wf, of _ Buy] queue_wf [OF wf, of _ Sell] by simp_all
  have d: "distinct (map o_key (bid_queue b))" "distinct (map o_key (ask_queue b))"
    using dk unfolding keys_distinct_def by blast+
  note l = spec_match_latest [OF ok lib_fill_exact [OF ok] lib_fill_same_terms w d m(4)]
  note st = spec_match_snap_terms [OF lib_fill_same_terms m(4)]
  note sn = spec_match_snapshots [OF ok lib_fill_exact [OF ok] w m(4)]
  have "queue_of sd b' = open_orders (map (latest sd ts) (queue_of sd b))" for sd
    using l by (cases sd) simp_all
  moreover have "\<exists>y \<in> set (queue_of sd b). same_terms (snap sd t) y" if "t \<in> set ts" for sd t
    using st [OF that] by (cases sd) simp_all
  moreover have "fill_snapshot (snap sd t)" if "t \<in> set ts" for sd t
    using sn [OF that] by (cases sd) simp_all
  ultimately show ?thesis using that m by blast
qed


lemma effective_price_state [simp]: "effective_price (x\<lparr>o_state := st\<rparr>) = effective_price x"
  by (simp add: effective_price_def split: order_type.split side.split)

lemma insert_keys_distinct:
  assumes "keys_distinct b" "queue_of sd b = pre @ post" "queue_of sd b' = pre @ x # post"
    "queue_of (other sd) b' = queue_of (other sd) b" "o_key x \<notin> o_key ` book_orders b sd"
  shows "keys_distinct b'"
proof -
  have "distinct (map o_key (pre @ post))" using keys_distinct_queue [OF assms(1), of sd] assms(2) by simp
  moreover have "o_key x \<notin> o_key ` set (pre @ post)"
    using assms(5) set_queue_of [of sd b] assms(2) by metis
  ultimately have "distinct (map o_key (queue_of sd b'))"
    unfolding assms(3) by (simp add: image_Un)
  moreover have "distinct (map o_key (queue_of (other sd) b'))"
    using keys_distinct_queue [OF assms(1)] assms(4) by simp
  ultimately show ?thesis by (cases sd) (simp_all add: keys_distinct_def)
qed

text \<open>
  The outcome of \<open>ob_add\<close>, from the insertion (\<open>b1\<close>), the matched book (\<open>b2\<close>), the trades and the
  last snapshot \<open>nw'\<close> of the new order.
\<close>

definition add_outcome ::
  "order_book \<Rightarrow> order \<Rightarrow> raw_trade list \<Rightarrow> order option \<Rightarrow> order_book \<Rightarrow> bool" where
  "add_outcome b1 ord ts fin b' \<longleftrightarrow>
     (let sd = o_side ord; nw' = latest sd ts (ord\<lparr>o_state := Booked\<rparr>)
      in same_terms nw' ord \<and>
         queue_of (other sd) b' = open_orders (map (latest (other sd) ts) (queue_of (other sd) b1)) \<and>
         (if 0 < o_remaining nw' \<and> o_type ord = Market
          then fin = Some (nw'\<lparr>o_state := Cancelled\<rparr>) \<and>
               (\<exists>xs ys. open_orders (map (latest sd ts) (queue_of sd b1)) = xs @ nw' # ys \<and>
                        queue_of sd b' = xs @ ys)
          else queue_of sd b' = open_orders (map (latest sd ts) (queue_of sd b1)) \<and>
               (if 0 < o_remaining nw' then fin = Some nw' \<and> is_active (o_state nw')
                else fill_snapshot nw' \<and> fin = last_snapshot (o_session ord) (o_id ord) ts)))"

lemma ob_add_unfold:
  assumes "ob_insert D b (ord\<lparr>o_state := Booked\<rparr>) = Some b1" "match_trades D b1 = Some (b2, ts)"
  shows "ob_add D b ord =
    (case ob_locate b2 (o_session ord) (o_id ord) (o_side ord) (effective_price ord) of
       None \<Rightarrow> Some ((ts, last_snapshot (o_session ord) (o_id ord) ts), b2)
     | Some resting \<Rightarrow>
         if o_type ord = Market \<and> 0 < o_remaining resting
         then do {
           r \<leftarrow> ob_remove D (ob_write b2 (o_side ord) (effective_price ord) (resting\<lparr>o_state := Cancelled\<rparr>))
                 (o_session ord) (o_id ord) (o_side ord) (effective_price ord);
           (case r of Inl _ \<Rightarrow> None | Inr (removed, b) \<Rightarrow> Some ((ts, Some removed), b))
         }
         else if o_state resting = Cancelled
         then do {
           r \<leftarrow> ob_remove D b2 (o_session ord) (o_id ord) (o_side ord) (effective_price ord);
           (case r of Inl _ \<Rightarrow> None | Inr (removed, b) \<Rightarrow> Some ((ts, Some removed), b))
         }
         else Some ((ts, Some resting), b2))"
  using assms by (simp add: ob_add_def Let_def split: option.split)

lemma add_rest:
  assumes ok: "decimal_ok D S A" and b2: "book_wf Real_Fill S A b2"
    and q: "queue_of sd b2 = open_orders (map (latest sd ts) (queue_of sd b1))"
    and d: "distinct (map o_key (queue_of sd b1))" and nw: "nw \<in> set (queue_of sd b1)"
    and st: "same_terms (latest sd ts nw) nw"
  shows "ob_locate b2 (o_session nw) (o_id nw) sd (effective_price nw) =
    (if 0 < o_remaining (latest sd ts nw) then Some (latest sd ts nw) else None)"
proof (cases "0 < o_remaining (latest sd ts nw)")
  case True
  then have "latest sd ts nw \<in> book_orders b2 sd"
    using q nw set_queue_of [of sd b2] by auto
  then show ?thesis
    using True ob_locate_iff [OF b2] st same_terms_price [OF st]
    by (simp add: level_key_def)
next
  case False
  have "ob_locate b2 (o_session nw) (o_id nw) sd (effective_price nw) \<noteq> Some y" for y
  proof
    assume "ob_locate b2 (o_session nw) (o_id nw) sd (effective_price nw) = Some y"
    then have y: "y \<in> set (queue_of sd b2)" "o_key y = o_key nw"
      using ob_locate_iff [OF b2] set_queue_of [of sd b2] by auto
    then obtain x where x: "x \<in> set (queue_of sd b1)" "y = latest sd ts x" "0 < o_remaining y"
      using q by auto
    then have "o_key x = o_key nw" using y(2) by simp
    then have "x = nw" using distinct_keys_eq [OF d x(1) nw] by blast
    then show False using x False by simp
  qed
  then show ?thesis using False by (metis option.exhaust)
qed

lemma ob_add_ok:
  assumes ok: "decimal_ok D S A" and wf: "book_wf Real_Fill S A b" and dk: "keys_distinct b"
    and fit: "fits_book S A b (ord\<lparr>o_state := Booked\<rparr>)"
  obtains b1 b2 ts fin b' pre post where "ob_add D b ord = Some ((ts, fin), b')"
    "book_wf Real_Fill S A b'" "ob_instrument b' = ob_instrument b" "add_outcome b1 ord ts fin b'"
    "queue_of (o_side ord) b = pre @ post"
    "queue_of (o_side ord) b1 = pre @ ord\<lparr>o_state := Booked\<rparr> # post"
    "queue_of (other (o_side ord)) b1 = queue_of (other (o_side ord)) b"
    "\<forall>x \<in> set pre. \<not> better (o_side ord) (effective_price ord) (effective_price x)"
    "\<forall>x \<in> set post. better (o_side ord) (effective_price ord) (effective_price x)"
    "book_wf Real_Fill S A b1" "keys_distinct b1"
    "spec_match (lib_fill D) (bid_queue b1) (ask_queue b1) = (ts, bid_queue b2, ask_queue b2)"
    "o_type ord = Limit \<Longrightarrow> b' = b2"
proof -
  let ?nw = "ord\<lparr>o_state := Booked\<rparr>" and ?sd = "o_side ord" and ?p = "effective_price ord"
  obtain b1 pre post where b1: "ob_insert D b ?nw = Some b1" "book_wf Real_Fill S A b1"
    "ob_instrument b1 = ob_instrument b" "queue_of ?sd b = pre @ post"
    "queue_of ?sd b1 = pre @ ?nw # post" "queue_of (other ?sd) b1 = queue_of (other ?sd) b"
    "\<forall>x \<in> set pre. \<not> better ?sd ?p (effective_price x)" "\<forall>x \<in> set post. better ?sd ?p (effective_price x)"
    using ob_insert_ok [OF ok wf fit] by auto
  have dk1: "keys_distinct b1"
    using insert_keys_distinct [OF dk b1(4-6)] fit by (simp add: fits_book_def)
  obtain b2 ts where b2: "match_trades D b1 = Some (b2, ts)" "book_wf Real_Fill S A b2"
    "ob_instrument b2 = ob_instrument b1"
    "spec_match (lib_fill D) (bid_queue b1) (ask_queue b1) = (ts, bid_queue b2, ask_queue b2)"
    and q: "\<And>sd. queue_of sd b2 = open_orders (map (latest sd ts) (queue_of sd b1))"
    and terms: "\<And>sd t. t \<in> set ts \<Longrightarrow> \<exists>y \<in> set (queue_of sd b1). same_terms (snap sd t) y"
    and snaps: "\<And>sd t. t \<in> set ts \<Longrightarrow> fill_snapshot (snap sd t)"
    using match_result [OF ok b1(2) dk1] by metis
  let ?nw' = "latest ?sd ts ?nw"
  have nw: "?nw \<in> set (queue_of ?sd b1)" using b1(5) by simp
  note d = keys_distinct_queue [OF dk1, of ?sd]
  have st: "same_terms ?nw' ?nw"
    by (rule latest_same_terms [OF terms distinct_keys_eq [OF d _ nw]]) assumption+
  then have st': "same_terms ?nw' ord" by (simp add: same_terms_def)
  have loc: "ob_locate b2 (o_session ord) (o_id ord) ?sd ?p =
      (if 0 < o_remaining ?nw' then Some ?nw' else None)"
    using add_rest [OF ok b2(2) q d nw st] by simp
  note unf = ob_add_unfold [OF b1(1) b2(1), unfolded loc]
  have act: "is_active (o_state ?nw')" if "0 < o_remaining ?nw'"
    using queue_wf [OF b2(2), of ?nw' ?sd] q nw that by (auto simp: order_wf_def)
  have inst: "ob_instrument b2 = ob_instrument b" using b1(3) b2(3) by simp
  consider (market) "0 < o_remaining ?nw'" "o_type ord = Market"
    | (limit) "0 < o_remaining ?nw'" "o_type ord = Limit" | (gone) "\<not> 0 < o_remaining ?nw'"
    by (cases "o_type ord") auto
  then show ?thesis
  proof cases
    case market
    have l: "ob_locate b2 (o_session ord) (o_id ord) ?sd ?p = Some ?nw'" using loc market by simp
    obtain b' xs ys where r: "ob_remove D b2 (o_session ord) (o_id ord) ?sd ?p =
        Some (Inr (?nw'\<lparr>o_state := Cancelled\<rparr>, b'))" "book_wf Real_Fill S A b'"
      "ob_instrument b' = ob_instrument b2" "queue_of ?sd b2 = xs @ ?nw' # ys"
      "queue_of ?sd b' = xs @ ys" "\<And>sd'. sd' \<noteq> ?sd \<Longrightarrow> levels_of sd' b' = levels_of sd' b2"
      using ob_remove_found [OF ok b2(2) l] by blast
    have "ob_add D b ord = Some ((ts, Some (?nw'\<lparr>o_state := Cancelled\<rparr>)), b')"
      using unf market r(1) ob_remove_write [OF b2(2) l, of D] by simp
    moreover have "\<exists>xs ys. open_orders (map (latest ?sd ts) (queue_of ?sd b1)) = xs @ ?nw' # ys \<and>
        queue_of ?sd b' = xs @ ys"
      using r(4,5) q by metis
    moreover have "other ?sd \<noteq> ?sd" by (cases ?sd) simp_all
    then have "queue_of (other ?sd) b' = queue_of (other ?sd) b2"
      by (intro queue_of_levels r(6))
    ultimately show ?thesis
      using that [of ts "Some (?nw'\<lparr>o_state := Cancelled\<rparr>)" b' b1] r(2,3) inst b1 b2 dk1 market q st'
      by (simp add: add_outcome_def Let_def)
  next
    case limit
    have "o_state ?nw' \<noteq> Cancelled" using act [OF limit(1)] by (cases "o_state ?nw'") auto
    then have "ob_add D b ord = Some ((ts, Some ?nw'), b2)" using unf limit by simp
    then show ?thesis
      using that [of ts "Some ?nw'" b2 b1 pre post b2] b1 b2 inst dk1 limit q st' act
      by (simp add: add_outcome_def Let_def)
  next
    case gone
    have "?nw' \<noteq> ?nw" using gone fit by (auto simp: fits_book_def order_wf_def)
    then have "fill_snapshot ?nw'" using latest_cases [of ?sd ts ?nw] snaps by auto
    moreover have "ob_add D b ord = Some ((ts, last_snapshot (o_session ord) (o_id ord) ts), b2)"
      using unf gone by simp
    ultimately show ?thesis
      using that [of ts _ b2 b1 pre post b2] b1 b2 inst dk1 gone q st'
      by (simp add: add_outcome_def Let_def)
  qed
qed

lemma ob_add_okD:
  assumes "decimal_ok D S A" "book_wf Real_Fill S A b" "keys_distinct b"
    "fits_book S A b (ord\<lparr>o_state := Booked\<rparr>)" and add: "ob_add D b ord = Some ((ts, fin), b')"
  obtains b1 b2 pre post where
    "book_wf Real_Fill S A b'" "ob_instrument b' = ob_instrument b" "add_outcome b1 ord ts fin b'"
    "queue_of (o_side ord) b = pre @ post"
    "queue_of (o_side ord) b1 = pre @ ord\<lparr>o_state := Booked\<rparr> # post"
    "queue_of (other (o_side ord)) b1 = queue_of (other (o_side ord)) b"
    "\<forall>x \<in> set pre. \<not> better (o_side ord) (effective_price ord) (effective_price x)"
    "\<forall>x \<in> set post. better (o_side ord) (effective_price ord) (effective_price x)"
    "book_wf Real_Fill S A b1" "keys_distinct b1"
    "spec_match (lib_fill D) (bid_queue b1) (ask_queue b1) = (ts, bid_queue b2, ask_queue b2)"
    "o_type ord = Limit \<Longrightarrow> b' = b2"
proof (rule ob_add_ok [OF assms(1-4)])
  fix b1 b2 ts0 fin0 b0 pre post
  assume a: "ob_add D b ord = Some ((ts0, fin0), b0)"
    and r: "book_wf Real_Fill S A b0" "ob_instrument b0 = ob_instrument b" "add_outcome b1 ord ts0 fin0 b0"
      "queue_of (o_side ord) b = pre @ post"
      "queue_of (o_side ord) b1 = pre @ ord\<lparr>o_state := Booked\<rparr> # post"
      "queue_of (other (o_side ord)) b1 = queue_of (other (o_side ord)) b"
      "\<forall>x \<in> set pre. \<not> better (o_side ord) (effective_price ord) (effective_price x)"
      "\<forall>x \<in> set post. better (o_side ord) (effective_price ord) (effective_price x)"
      "book_wf Real_Fill S A b1" "keys_distinct b1"
      "spec_match (lib_fill D) (bid_queue b1) (ask_queue b1) = (ts0, bid_queue b2, ask_queue b2)"
      "o_type ord = Limit \<Longrightarrow> b0 = b2"
  from a add have e: "ts0 = ts" "fin0 = fin" "b0 = b'" by simp_all
  show thesis by (rule that [OF r [unfolded e]])
qed

definition final_order :: "order \<Rightarrow> raw_trade list \<Rightarrow> order" where
  "final_order ord ts =
     (let nw' = latest (o_side ord) ts (ord\<lparr>o_state := Booked\<rparr>)
      in if 0 < o_remaining nw' \<and> o_type ord = Market then nw'\<lparr>o_state := Cancelled\<rparr> else nw')"

lemma ob_add_final:
  assumes ok: "decimal_ok D S A" and wf: "book_wf Real_Fill S A b" and dk: "keys_distinct b"
    and fit: "fits_book S A b (ord\<lparr>o_state := Booked\<rparr>)"
    and uniq: "o_key ord \<notin> o_key ` book_orders b (other (o_side ord))"
    and add: "ob_add D b ord = Some ((ts, fin), b')"
  shows "fin = Some (final_order ord ts)"
proof -
  let ?sd = "o_side ord" and ?nw = "ord\<lparr>o_state := Booked\<rparr>"
  obtain b1 b2 where o: "add_outcome b1 ord ts fin b'"
    "queue_of (other ?sd) b1 = queue_of (other ?sd) b"
    "spec_match (lib_fill D) (bid_queue b1) (ask_queue b1) = (ts, bid_queue b2, ask_queue b2)"
    using ob_add_ok [OF ok wf dk fit] add by (metis option.inject prod.inject)
  have far: "\<forall>t \<in> set ts. o_key (snap (other ?sd) t) \<noteq> o_key ?nw"
  proof
    fix t assume "t \<in> set ts"
    from spec_match_keys [OF lib_fill_same_terms o(3) this]
    have "o_key (snap (other ?sd) t) \<in> o_key ` set (queue_of (other ?sd) b1)"
      by (cases ?sd) simp_all
    then have "o_key (snap (other ?sd) t) \<in> o_key ` book_orders b (other ?sd)"
      unfolding o(2) set_queue_of .
    with uniq show "o_key (snap (other ?sd) t) \<noteq> o_key ?nw" by auto
  qed
  show ?thesis
  proof (cases "0 < o_remaining (latest ?sd ts ?nw)")
    case True
    then show ?thesis using o(1) by (auto simp: add_outcome_def final_order_def Let_def split: if_splits)
  next
    case False
    then have "latest ?sd ts ?nw \<noteq> ?nw" using fit by (auto simp: fits_book_def order_wf_def)
    then have "\<exists>t \<in> set ts. o_key (snap ?sd t) = o_key ?nw"
      using latest_cases [of ?sd ts ?nw] by blast
    then have "last_snapshot (o_session ord) (o_id ord) ts = Some (latest ?sd ts ?nw)"
      using last_snapshot_latest [OF far] by simp
    then show ?thesis using o(1) False by (simp add: add_outcome_def final_order_def Let_def)
  qed
qed

end
