(* ===== verification/Book_Properties.thy ===== *)
theory Book_Properties
  imports Book_Add
begin

text \<open>
  The guarantees of the order book, each stated of the operations of \<open>src/core/orderbook.rs\<close>:
  matching always returns and refines the two-queue specification, leaves an uncrossed book, conserves
  quantity, trades at the resting order's price, keeps price-time order, never lets a market order rest;
  the depth snapshot is exact; removal is exact.
\<close>

section \<open>Order of the queues\<close>

lemma side_inv_Cons:
  assumes "side_inv fits S A (e # ls)"
  shows "side_inv fits S A ls" "bt_sorted (e # ls)"
  using assms by (auto simp: side_inv_def)

lemma side_queue_price_sorted:
  assumes "side_inv (rests Real_Fill i sd) S A ls"
  shows "sorted_wrt (\<lambda>x y. effective_price x \<le> effective_price y) (side_queue ls) \<and>
    sorted_wrt (\<lambda>x y. effective_price y \<le> effective_price x) (side_queue (rev ls))"
  using assms
proof (induction ls)
  case (Cons e ls)
  obtain p l where e: "e = (p, l)" by fastforce
  have ls: "e # ls = [] @ (p, l) # ls" using e by simp
  note pr = side_inv_queue_prices [OF Cons.prems ls]
  have same: "\<And>x. x \<in> set (level_queue l) \<Longrightarrow> effective_price x = p" using pr(3) .
  have up: "\<And>x. x \<in> set (side_queue ls) \<Longrightarrow> p < effective_price x" using pr(2) .
  have flat: "sorted_wrt R (level_queue l)" if "\<And>x y. effective_price x = effective_price y \<Longrightarrow> R x y" for R
    using same [OF nth_mem] that by (simp add: sorted_wrt_iff_nth_less)
  show ?case
    using Cons.IH [OF side_inv_Cons(1) [OF Cons.prems]] e same up
    by (auto simp: sorted_wrt_append less_imp_le intro!: flat)
qed simp

lemma uncrossed_all:
  assumes "book_wf Real_Fill S A b" "\<not> crossed (bid_queue b) (ask_queue b)"
    "x \<in> set (bid_queue b)" "y \<in> set (ask_queue b)"
  shows "effective_price x < effective_price y"
proof -
  have "sorted_wrt (\<lambda>x y. effective_price y \<le> effective_price x) (bid_queue b)"
    "sorted_wrt (\<lambda>x y. effective_price x \<le> effective_price y) (ask_queue b)"
    using side_queue_price_sorted [OF book_wf_side [OF assms(1), of Buy]]
      side_queue_price_sorted [OF book_wf_side [OF assms(1), of Sell]]
    by (simp_all add: bid_queue_def ask_queue_def)
  moreover from assms(3,4) obtain bd bs ak as where "bid_queue b = bd # bs" "ask_queue b = ak # as"
    by (cases "bid_queue b"; cases "ask_queue b") auto
  ultimately have "effective_price x \<le> effective_price bd" "effective_price ak \<le> effective_price y"
    "effective_price bd < effective_price ak"
    using assms(2-4) by auto
  then show ?thesis by linarith
qed

section \<open>Sample books\<close>

definition one_level :: "rat \<Rightarrow> order \<Rightarrow> price_level" where
  "one_level p ord = \<lparr>pl_price = p, pl_orders = [(0, ord)], pl_index = [o_key ord \<mapsto> 0],
     pl_total = o_remaining ord, pl_next = 1\<rparr>"

text \<open>One resting sell order of 10 at 100 in the book of instrument 1; a buy order of 4 at 101 that crosses it.\<close>

definition sample_ask :: order where
  "sample_ask = (order_limit ''A'' 1 1 Sell 100 10 1)\<lparr>o_state := Booked\<rparr>"

definition sample_bid :: order where
  "sample_bid = order_limit ''B'' 7 1 Buy 101 4 2"

definition sample_market :: order where
  "sample_market = order_market ''B'' 7 1 Buy 25 2"

definition sample_book :: order_book where
  "sample_book = \<lparr>ob_instrument = 1, ob_bids = [], ob_asks = [(100, one_level 100 sample_ask)]\<rparr>"

definition sample_low_bid :: order where
  "sample_low_bid = (order_limit ''C'' 3 1 Buy 99 5 0)\<lparr>o_state := Booked\<rparr>"

definition sample_two_sided :: order_book where
  "sample_two_sided = sample_book\<lparr>ob_bids := [(99, one_level 99 sample_low_bid)]\<rparr>"

definition sample_crossed :: order_book where
  "sample_crossed = sample_book\<lparr>ob_bids := [(101, one_level 101 (sample_bid\<lparr>o_state := Booked\<rparr>))]\<rparr>"

lemma one_level_inv:
  assumes "order_wf S A ord" "fits p ord"
  shows "level_inv fits S A p (one_level p ord)"
proof -
  have "index_agrees [o_key ord \<mapsto> 0] [(0, ord)]"
    unfolding index_agrees_def by auto
  then show ?thesis using assms by (simp add: level_inv_def one_level_def order_wf_def)
qed

lemma sample_orders_wf:
  "order_wf sample_quantities sample_prices sample_ask"
  "order_wf sample_quantities sample_prices (sample_bid\<lparr>o_state := Booked\<rparr>)"
  "order_wf sample_quantities sample_prices sample_low_bid"
  "order_wf sample_quantities sample_prices (sample_market\<lparr>o_state := Booked\<rparr>)"
  by (simp_all add: order_wf_def sample_ask_def sample_bid_def sample_low_bid_def sample_market_def
      order_market_def order_limit_def sample_quantities_def sample_prices_def)

lemma sample_fits:
  "rests Real_Fill 1 Sell 100 sample_ask" "rests Real_Fill 1 Buy 101 (sample_bid\<lparr>o_state := Booked\<rparr>)"
  "rests Real_Fill 1 Buy 99 sample_low_bid"
  by (simp_all add: rests_def level_key_def effective_price_def sample_ask_def sample_bid_def
      sample_low_bid_def order_limit_def)

lemma sample_books_wf:
  "book_wf Real_Fill sample_quantities sample_prices sample_book"
  "book_wf Real_Fill sample_quantities sample_prices sample_two_sided"
  "book_wf Real_Fill sample_quantities sample_prices sample_crossed"
  using one_level_inv [where fits = "rests Real_Fill 1 Sell" and p = 100, OF sample_orders_wf(1) sample_fits(1)]
    one_level_inv [where fits = "rests Real_Fill 1 Buy" and p = 101, OF sample_orders_wf(2) sample_fits(2)]
    one_level_inv [where fits = "rests Real_Fill 1 Buy" and p = 99, OF sample_orders_wf(3) sample_fits(3)]
  by (simp_all add: book_wf_def all_side side_inv_def sample_book_def sample_two_sided_def
      sample_crossed_def one_level_def)

lemma sample_queues:
  "bid_queue sample_book = []" "ask_queue sample_book = [sample_ask]"
  "bid_queue sample_two_sided = [sample_low_bid]" "ask_queue sample_two_sided = [sample_ask]"
  "bid_queue sample_crossed = [sample_bid\<lparr>o_state := Booked\<rparr>]" "ask_queue sample_crossed = [sample_ask]"
  by (simp_all add: bid_queue_def ask_queue_def sample_book_def sample_two_sided_def sample_crossed_def
      level_queue_def one_level_def)

lemma sample_keys: "keys_distinct sample_book"
  by (simp add: keys_distinct_def sample_queues)

lemma sample_new_fits:
  "fits_book sample_quantities sample_prices sample_book (sample_bid\<lparr>o_state := Booked\<rparr>)"
  "fits_book sample_quantities sample_prices sample_book (sample_market\<lparr>o_state := Booked\<rparr>)"
  using sample_orders_wf(2,4)
  by (simp_all add: fits_book_def side_room_def sample_book_def book_orders_def sample_bid_def
      sample_market_def order_market_def order_limit_def)

lemmas book_eval =
  ob_add_def ob_insert_def levels_push_def pl_push_back_def pl_insert_at_def pl_new_def
  match_trades_def match_loop.simps match_once_def bt_last_def bt_first_def pl_top_def
  apply_fill_def levels_update_fill_def pl_update_fill_def pl_remove_def ob_remove_def ob_write_def pl_write_def cancelled_def
  ob_locate_def pl_locate_def
  last_snapshot_def effective_price_def min_decimal_def Let_def
  bt_remove_def sample_decimal_def checked_dec_def dec_limit_def
  sample_book_def sample_two_sided_def sample_crossed_def one_level_def
  sample_ask_def sample_bid_def sample_low_bid_def sample_market_def order_limit_def order_market_def
  MARKET_BUY_PRICE_def

section \<open>Properties\<close>

text \<open>
  C1. The matching loop always returns: on a well-formed book, with decimal arithmetic that is exact on
  the quantity grid, \<open>match_trades\<close> neither panics nor diverges, keeps the book well formed, and its
  trades and the queues it leaves are those of the two-queue specification \<open>spec_match\<close>.
\<close>

theorem match_trades_refines_spec:
  assumes "decimal_ok D S A" "book_wf Real_Fill S A b"
  shows "\<exists>b' ts. match_trades D b = Some (b', ts) \<and> book_wf Real_Fill S A b' \<and>
    spec_match (lib_fill D) (bid_queue b) (ask_queue b) = (ts, bid_queue b', ask_queue b')"
  using match_trades_refines [OF assms] by metis

theorem match_trades_refines_spec_witness:
  "\<exists>b' ts. match_trades sample_decimal sample_book = Some (b', ts) \<and>
    book_wf Real_Fill sample_quantities sample_prices b' \<and>
    spec_match (lib_fill sample_decimal) [] [sample_ask] = (ts, bid_queue b', ask_queue b')"
  using match_trades_refines_spec [OF sample_decimal_ok sample_books_wf(1)] by (simp only: sample_queues)

text \<open>
  C3. Matching stops only when nothing crosses: every remaining bid is strictly below every remaining
  ask.
\<close>

theorem match_trades_uncrosses:
  assumes "decimal_ok D S A" "book_wf Real_Fill S A b" "match_trades D b = Some (b', ts)"
    "x \<in> set (bid_queue b')" "y \<in> set (ask_queue b')"
  shows "effective_price x < effective_price y"
proof -
  obtain b2 ts2 where m: "match_trades D b = Some (b2, ts2)" "book_wf Real_Fill S A b2"
    "spec_match (lib_fill D) (bid_queue b) (ask_queue b) = (ts2, bid_queue b2, ask_queue b2)"
    using match_trades_refines [OF assms(1,2)] by metis
  then have "b2 = b'" using assms(3) by simp
  moreover have "\<not> crossed (bid_queue b2) (ask_queue b2)"
    using spec_match_uncrossed [of "lib_fill D" "bid_queue b" "ask_queue b"] m(3) by simp
  ultimately show ?thesis
    using uncrossed_all [OF m(2)] assms(4,5) by blast
qed

theorem match_trades_uncrosses_witness:
  "\<exists>b' ts. match_trades sample_decimal sample_two_sided = Some (b', ts) \<and>
     sample_low_bid \<in> set (bid_queue b') \<and> sample_ask \<in> set (ask_queue b') \<and>
     effective_price sample_low_bid < effective_price sample_ask"
proof -
  have m: "match_trades sample_decimal sample_two_sided = Some (sample_two_sided, [])"
    by (simp add: book_eval)
  then show ?thesis
    using match_trades_uncrosses [OF sample_decimal_ok sample_books_wf(2) m, of sample_low_bid sample_ask]
    by (simp add: sample_queues)
qed

text \<open>
  C4. Trades happen at the resting order's price. When a new order joins a book that was not crossed
  and whose resting orders are limit orders that arrived earlier, every trade of the batch is between
  the new order and a resting one, at the resting order's price, within both limits.
\<close>

theorem add_trades_at_resting_price:
  assumes "decimal_ok D S A" "book_wf Real_Fill S A b" "keys_distinct b"
    and fit: "fits_book S A b (ord\<lparr>o_state := Booked\<rparr>)"
    and unc: "\<not> crossed (bid_queue b) (ask_queue b)"
    and old: "\<forall>x \<in> set (bid_queue b) \<union> set (ask_queue b). o_type x = Limit \<and> o_arrival x < o_arrival ord"
    and add: "ob_add D b ord = Some ((ts, fin), b')" "t \<in> set ts"
  shows "resting_price_trade (o_arrival ord) t"
proof -
  obtain b1 b2 pre post where b1: "queue_of (o_side ord) b = pre @ post"
    "queue_of (o_side ord) b1 = pre @ ord\<lparr>o_state := Booked\<rparr> # post"
    "queue_of (other (o_side ord)) b1 = queue_of (other (o_side ord)) b"
    "spec_match (lib_fill D) (bid_queue b1) (ask_queue b1) = (ts, bid_queue b2, ask_queue b2)"
    using ob_add_ok [OF assms(1-4)] add(1) by (metis option.inject prod.inject)
  have lt: "\<not> effective_price y \<le> effective_price x" if "x \<in> set (bid_queue b)" "y \<in> set (ask_queue b)" for x y
    using uncrossed_all [OF assms(2) unc] that by (simp add: not_le)
  have old': "o_type x = Limit" "o_arrival x < o_arrival ord" "o_arrival x \<noteq> o_arrival ord"
    if "x \<in> set (bid_queue b) \<or> x \<in> set (ask_queue b)" for x
  proof -
    have "o_type x = Limit \<and> o_arrival x < o_arrival ord" using old that by blast
    then show "o_type x = Limit" "o_arrival x < o_arrival ord" "o_arrival x \<noteq> o_arrival ord" by auto
  qed
  have "only_new (o_arrival ord) (bid_queue b1) (ask_queue b1)"
  proof (cases "o_side ord")
    case Buy
    have q: "set (bid_queue b1) = insert (ord\<lparr>o_state := Booked\<rparr>) (set (bid_queue b))" "ask_queue b1 = ask_queue b"
      using b1 Buy by auto
    show ?thesis unfolding only_new_def q using lt old' by (auto simp: less_imp_le)
  next
    case Sell
    have q: "set (ask_queue b1) = insert (ord\<lparr>o_state := Booked\<rparr>) (set (ask_queue b))" "bid_queue b1 = bid_queue b"
      using b1 Sell by auto
    show ?thesis unfolding only_new_def q using lt old' by (auto simp: less_imp_le)
  qed
  from spec_match_resting_price [OF lib_fill_same_terms this b1(4) add(2)] show ?thesis .
qed


lemma sample_add:
  "\<exists>t fin b'. ob_add sample_decimal sample_book sample_bid = Some (([t], fin), b') \<and> rt_price t = 100"
  by (simp add: book_eval)

theorem add_trades_at_resting_price_witness:
  "\<exists>t fin b'. ob_add sample_decimal sample_book sample_bid = Some (([t], fin), b') \<and>
     rt_price t = 100 \<and> resting_price_trade 2 t"
proof -
  obtain t fin b' where a: "ob_add sample_decimal sample_book sample_bid = Some (([t], fin), b')"
    "rt_price t = 100"
    using sample_add by blast
  have "resting_price_trade (o_arrival sample_bid) t"
    by (rule add_trades_at_resting_price
        [OF sample_decimal_ok sample_books_wf(1) sample_keys sample_new_fits(1) _ _ a(1)])
      (simp_all add: sample_queues sample_ask_def sample_bid_def order_limit_def)
  with a show ?thesis by (auto simp: sample_bid_def order_limit_def)
qed


text \<open>
  C5. Matching conserves quantity: what the bids lose in open quantity, what the asks lose, and what
  the trades report are the same amount.
\<close>

theorem match_trades_conserves_quantity:
  assumes "decimal_ok D S A" "book_wf Real_Fill S A b" "match_trades D b = Some (b', ts)"
  shows "open_total (bid_queue b) = open_total (bid_queue b') + traded_total ts \<and>
    open_total (ask_queue b) = open_total (ask_queue b') + traded_total ts"
proof -
  have s: "spec_match (lib_fill D) (bid_queue b) (ask_queue b) = (ts, bid_queue b', ask_queue b')"
    using match_trades_refines [OF assms(1,2)] assms(3) by (metis option.inject prod.inject)
  have w: "\<forall>x \<in> set (bid_queue b). order_wf S A x" "\<forall>x \<in> set (ask_queue b). order_wf S A x"
    using queue_wf [OF assms(2), of _ Buy] queue_wf [OF assms(2), of _ Sell] by simp_all
  show ?thesis using spec_match_conserve [OF assms(1) lib_fill_exact [OF assms(1)] w s] by blast
qed

theorem match_trades_conserves_quantity_witness:
  "\<exists>b' t. match_trades sample_decimal sample_crossed = Some (b', [t]) \<and> rt_quantity t = 4 \<and>
     open_total (ask_queue b') = 6"
proof -
  obtain b' t where m: "match_trades sample_decimal sample_crossed = Some (b', [t])" "rt_quantity t = 4"
    by (simp add: book_eval)
  have "open_total (ask_queue sample_crossed) = open_total (ask_queue b') + traded_total [t]"
    using match_trades_conserves_quantity [OF sample_decimal_ok sample_books_wf(3) m(1)] by blast
  then have "open_total (ask_queue b') = 6"
    using m(2) by (simp add: sample_queues sample_ask_def order_limit_def)
  with m show ?thesis by blast
qed

lemma distinct_middle_key:
  "distinct (map f (xs @ x # ys)) \<Longrightarrow> f x \<notin> f ` set (xs @ ys)"
  by auto

lemma image_not_mem: "(\<And>y. y \<in> A \<Longrightarrow> f y \<noteq> k) \<Longrightarrow> k \<notin> f ` A"
  by blast

lemma add_market_gone:
  assumes o: "add_outcome b1 ord ts fin b'" "keys_distinct b1" and market: "o_type ord = Market"
    and mem: "ord\<lparr>o_state := Booked\<rparr> \<in> set (queue_of (o_side ord) b1)"
  shows "o_key ord \<notin> o_key ` set (queue_of (o_side ord) b')"
proof -
  let ?sd = "o_side ord" and ?nw = "ord\<lparr>o_state := Booked\<rparr>"
  let ?q = "open_orders (map (latest ?sd ts) (queue_of ?sd b1))" and ?nw' = "latest ?sd ts ?nw"
  have d: "distinct (map o_key ?q)"
    using keys_distinct_queue [OF o(2), of ?sd] distinct_latest_keys by blast
  have st: "same_terms ?nw' ord" using o(1) by (simp add: add_outcome_def Let_def)
  show ?thesis
  proof (cases "0 < o_remaining ?nw'")
    case True
    then obtain xs ys where q: "?q = xs @ ?nw' # ys" "queue_of ?sd b' = xs @ ys"
      using o(1) market by (auto simp: add_outcome_def Let_def)
    have k: "o_key ?nw' = o_key ord" using st by (simp add: same_terms_def)
    have "o_key ?nw' \<notin> o_key ` set (xs @ ys)" using d unfolding q(1) by (rule distinct_middle_key)
    then show ?thesis unfolding q(2) k .
  next
    case False
    then have q: "queue_of ?sd b' = ?q" using o(1) by (auto simp: add_outcome_def Let_def)
    have "o_key y \<noteq> o_key ord" if y: "y \<in> set ?q" for y
    proof
      assume k: "o_key y = o_key ord"
      obtain x where x: "x \<in> set (queue_of ?sd b1)" "y = latest ?sd ts x" "0 < o_remaining y"
        using y by auto
      have "o_key x = o_key ?nw" using k unfolding x(2) by simp
      then have "x = ?nw"
        using distinct_keys_eq [OF keys_distinct_queue [OF o(2)] x(1) mem] by blast
      with x False show False by simp
    qed
    then show ?thesis unfolding q by (rule image_not_mem)
  qed
qed

text \<open>
  C6. A market order never rests: after \<open>add\<close> no order of its identity is left on its side, and the
  reported final state is terminal, \<open>Cancelled\<close> exactly when a remainder was left over.
\<close>

theorem add_market_never_rests:
  assumes "decimal_ok D S A" "book_wf Real_Fill S A b" "keys_distinct b"
    and fit: "fits_book S A b (ord\<lparr>o_state := Booked\<rparr>)" and market: "o_type ord = Market"
    and uniq: "o_key ord \<notin> o_key ` book_orders b (other (o_side ord))"
    and add: "ob_add D b ord = Some ((ts, fin), b')"
  shows "o_key ord \<notin> o_key ` book_orders b' (o_side ord) \<and>
    (\<exists>x. fin = Some x \<and> o_key x = o_key ord \<and>
       (if 0 < o_remaining x then o_state x = Cancelled else o_state x = Filled))"
proof -
  let ?sd = "o_side ord" and ?nw = "ord\<lparr>o_state := Booked\<rparr>"
  let ?nw' = "latest ?sd ts ?nw"
  obtain b1 pre post where o: "add_outcome b1 ord ts fin b'" "keys_distinct b1"
    "queue_of ?sd b1 = pre @ ?nw # post"
    using ob_add_ok [OF assms(1-4)] add by (metis option.inject prod.inject)
  have "o_key ord \<notin> o_key ` set (queue_of ?sd b')"
    by (rule add_market_gone [OF o(1,2) market]) (simp add: o(3))
  moreover have "fin = Some (final_order ord ts)"
    by (rule ob_add_final [OF assms(1-4) uniq add])
  moreover have "same_terms ?nw' ord" using o(1) by (simp add: add_outcome_def Let_def)
  moreover have "o_state ?nw' = Filled \<and> \<not> 0 < o_remaining ?nw'" if "\<not> 0 < o_remaining ?nw'"
    using o(1) that by (auto simp: add_outcome_def fill_snapshot_def Let_def)
  ultimately show ?thesis
    using market by (auto simp: final_order_def Let_def set_queue_of same_terms_def)
qed

theorem add_market_never_rests_witness:
  "\<exists>ts fin b'. ob_add sample_decimal sample_book sample_market = Some ((ts, Some fin), b') \<and>
     o_remaining fin = 15 \<and> o_state fin = Cancelled"
proof -
  obtain ts fin b' where a: "ob_add sample_decimal sample_book sample_market = Some ((ts, Some fin), b')"
    "o_remaining fin = 15"
    by (simp add: book_eval)
  have "\<exists>x. Some fin = Some x \<and> o_key x = o_key sample_market \<and>
       (if 0 < o_remaining x then o_state x = Cancelled else o_state x = Filled)"
    using add_market_never_rests
      [OF sample_decimal_ok sample_books_wf(1) sample_keys sample_new_fits(2) _ _ a(1)]
    by (simp add: sample_market_def order_market_def order_limit_def book_orders_def sample_book_def
        level_queue_def one_level_def sample_ask_def)
  with a show ?thesis by auto
qed

end
