(* ===== verification/Tiered_Book.thy ===== *)
theory Tiered_Book
  imports Book_Add
begin

text \<open>
  The book of an exchange in tiered fill mode: \<open>insert_only\<close> rests an order under its plain price
  without matching, \<open>execute\<close> applies one prescribed fill to a resting order. The lemmas give every
  branch of both operations by its effect on the queue of the order's side.
\<close>

definition booked_state :: "order \<Rightarrow> order" where
  "booked_state ord = ord\<lparr>o_state := (if o_cum ord = 0 then Booked else PartialFill)\<rparr>"

lemma booked_state_simps [simp]:
  "o_key (booked_state ord) = o_key ord" "o_side (booked_state ord) = o_side ord"
  "o_price (booked_state ord) = o_price ord" "o_remaining (booked_state ord) = o_remaining ord"
  "o_instrument (booked_state ord) = o_instrument ord" "o_cum (booked_state ord) = o_cum ord"
  by (simp_all add: booked_state_def)

definition fits_tiered :: "rat set \<Rightarrow> rat set \<Rightarrow> order_book \<Rightarrow> order \<Rightarrow> bool" where
  "fits_tiered S A b ord \<longleftrightarrow>
     order_wf S A (booked_state ord) \<and> o_instrument ord = ob_instrument b \<and>
     side_room S (levels_of (o_side ord) b) (o_price ord) ord"

lemma insert_only_duplicate:
  assumes "book_wf Tiered_Fill S A b" "0 < o_remaining ord"
    "ob_locate b (o_session ord) (o_id ord) (o_side ord) (o_price ord) \<noteq> None"
  shows "ob_insert_only D b ord = Some (Inl TieredDuplicateOrder)"
proof -
  obtain l where l: "bt_get (levels_of (o_side ord) b) (o_price ord) = Some l"
    using assms(3) by (auto simp: ob_locate_def split: option.splits)
  then have "pl_index l (o_key ord) \<noteq> None"
    using ob_locate_None_index [OF assms(1) l, of "o_session ord" "o_id ord"] assms(3) by simp
  then show ?thesis using l assms(2) by (simp add: ob_insert_only_def Let_def)
qed

lemma insert_only_ok:
  assumes ok: "decimal_ok D S A" and wf: "book_wf Tiered_Fill S A b" and fit: "fits_tiered S A b ord"
    and new: "ob_locate b (o_session ord) (o_id ord) (o_side ord) (o_price ord) = None"
  obtains b' pre post where "ob_insert_only D b ord = Some (Inr (booked_state ord, b'))"
    "book_wf Tiered_Fill S A b'" "ob_instrument b' = ob_instrument b"
    "queue_of (o_side ord) b = pre @ post" "queue_of (o_side ord) b' = pre @ booked_state ord # post"
    "\<forall>x \<in> set pre. \<not> better (o_side ord) (o_price ord) (o_price x)"
    "\<forall>x \<in> set post. better (o_side ord) (o_price ord) (o_price x)"
    "\<And>sd. sd \<noteq> o_side ord \<Longrightarrow> levels_of sd b' = levels_of sd b"
proof -
  let ?nw = "booked_state ord" and ?sd = "o_side ord" and ?p = "o_price ord"
  let ?ls = "levels_of ?sd b"
  note inv = book_wf_side [OF wf, of ?sd]
  have nw: "order_wf S A ?nw" "side_room S ?ls ?p ?nw" "rests Tiered_Fill (ob_instrument b) ?sd ?p ?nw"
    using fit by (simp_all add: fits_tiered_def side_room_def rests_def level_key_def split: option.splits)
  have idx: "pl_index l (o_key ?nw) = None" if "bt_get ?ls ?p = Some l" for l
    using ob_locate_None_index [OF wf that, of "o_session ord" "o_id ord"] new by simp
  obtain ls' xs ys q l' where p: "levels_push D ?ls ?p ?nw = Some ls'"
    "side_inv (rests Tiered_Fill (ob_instrument b) ?sd) S A ls'"
    "side_queue ?ls = side_queue xs @ q @ side_queue ys"
    "side_queue (rev ?ls) = side_queue (rev ys) @ q @ side_queue (rev xs)" "ls' = xs @ (?p, l') # ys"
    "level_queue l' = q @ [?nw]"
    by (rule levels_push_ok [where fits = "rests Tiered_Fill (ob_instrument b) ?sd", OF ok inv nw(1,3,2)])
      (rule idx, assumption, blast)
  note keys = side_inv_queue_keys [OF p(2,5), simplified]
  have price: "\<forall>x \<in> set (side_queue xs) \<union> set (side_queue (rev xs)). o_price x < ?p"
    "\<forall>x \<in> set (side_queue ys) \<union> set (side_queue (rev ys)). ?p < o_price x" "\<forall>x \<in> set q. o_price x = ?p"
    using keys(1,2) keys(3) p(6) by (auto simp: side_queue_def)
  have "\<not> o_remaining ord \<le> 0" using nw(1) by (simp add: order_wf_def)
  then have "ob_insert_only D b ord = Some (Inr (?nw, set_levels ?sd ls' b))"
    using p(1) idx by (simp add: ob_insert_only_def Let_def pl_new_def booked_state_def split: option.splits)
  moreover obtain pre post where "queue_of ?sd b = pre @ post"
      "queue_of ?sd (set_levels ?sd ls' b) = pre @ ?nw # post"
      "\<forall>x \<in> set pre. \<not> better ?sd ?p (o_price x)" "\<forall>x \<in> set post. better ?sd ?p (o_price x)"
  proof (cases ?sd)
    case Buy
    then show ?thesis using p(4-6) price
      by (intro that [of "side_queue (rev ys) @ q" "side_queue (rev xs)"])
        (auto simp: bid_queue_def better_def not_less intro: less_imp_le)
  next
    case Sell
    then show ?thesis using p(3,5,6) price
      by (intro that [of "side_queue xs @ q" "side_queue ys"])
        (auto simp: ask_queue_def better_def not_less intro: less_imp_le)
  qed
  ultimately show ?thesis
    by (intro that [OF _ book_wf_set_levels [OF wf p(2)]]) simp_all
qed

lemma located_cum_nonneg:
  assumes "decimal_ok D S A" "book_wf Tiered_Fill S A b" "ob_locate b s i sd p = Some ord"
  shows "0 \<le> o_cum ord"
proof -
  have "order_wf S A ord"
    using queue_wf [OF assms(2)] assms(3) ob_locate_iff [OF assms(2)] by (metis set_queue_of)
  then show ?thesis using decimal_ok_nonneg [OF assms(1)] by (simp add: order_wf_def)
qed

lemma execute_ok:
  assumes ok: "decimal_ok D S A" and wf: "book_wf Tiered_Fill S A b"
    and loc: "ob_locate b s i sd p = Some ord"
    and q: "q \<in> S" "0 < q" "q \<le> o_remaining ord" and fp: "fp \<in> A" "0 < fp"
  obtains b' avg xs ys where "ob_execute D b s i sd p q fp = Some (Inr (filled ord q avg, b'))"
    "apply_fill D ord q fp = Some (filled ord q avg)" "avg \<in> A"
    "book_wf Tiered_Fill S A b'" "ob_instrument b' = ob_instrument b"
    "queue_of sd b = xs @ ord # ys"
    "queue_of sd b' = xs @ (if q = o_remaining ord then [] else [filled ord q avg]) @ ys"
    "\<And>sd'. sd' \<noteq> sd \<Longrightarrow> levels_of sd' b' = levels_of sd' b"
proof -
  note inv = book_wf_side [OF wf, of sd]
  obtain l where l: "bt_get (levels_of sd b) p = Some l" "pl_locate l s i = Some ord"
    using loc by (auto simp: ob_locate_def split: option.splits)
  obtain us k vs where o: "pl_orders l = us @ (k, ord) # vs"
    using pl_locate_Some [OF side_inv_get(1) [OF inv l(1)] l(2)] by metis
  obtain xs ys where ls: "levels_of sd b = xs @ (p, l) # ys"
    using side_inv_split [OF inv l(1)] by metis
  have mem: "ord \<in> set (side_queue (levels_of sd b))" using o by (simp add: ls level_queue_def)
  have wo: "order_wf S A ord" by (rule side_queue_wf(1) [OF inv mem])
  obtain avg where avg: "apply_fill D ord q fp = Some (filled ord q avg)" "avg \<in> A"
    using apply_fill_Some [OF ok wo q fp(1)] by blast
  obtain ls' where r: "levels_update_fill D (levels_of sd b) p (filled ord q avg) q = Some ls'"
    "side_inv (rests Tiered_Fill (ob_instrument b) sd) S A ls'"
    "side_queue ls' = side_queue xs @ map snd us @
       (if q = o_remaining ord then [] else [filled ord q avg]) @ map snd vs @ side_queue ys"
    "side_queue (rev ls') = side_queue (rev ys) @ map snd us @
       (if q = o_remaining ord then [] else [filled ord q avg]) @ map snd vs @ side_queue (rev xs)"
    using levels_update_fill_ok
      [where fits = "rests Tiered_Fill (ob_instrument b) sd", OF ok inv ls o q avg(2) rests_filled] by blast
  have "ob_execute D b s i sd p q fp = Some (Inr (filled ord q avg, set_levels sd ls' b))"
    using l avg(1) r(1) wo q fp by (simp add: ob_execute_def order_wf_def)
  moreover obtain xs' ys' where "queue_of sd b = xs' @ ord # ys'" "queue_of sd (set_levels sd ls' b) =
      xs' @ (if q = o_remaining ord then [] else [filled ord q avg]) @ ys'"
  proof (cases sd)
    case Buy
    then show ?thesis using r(4) ls o
      by (intro that [of "side_queue (rev ys) @ map snd us" "map snd vs @ side_queue (rev xs)"])
        (simp_all add: bid_queue_def level_queue_def)
  next
    case Sell
    then show ?thesis using r(3) ls o
      by (intro that [of "side_queue xs @ map snd us" "map snd vs @ side_queue ys"])
        (simp_all add: ask_queue_def level_queue_def)
  qed
  ultimately show ?thesis
    by (intro that [OF _ avg book_wf_set_levels [OF wf r(2)]]) simp_all
qed

end
