(* ===== verification/Book_Invariant.thy ===== *)
theory Book_Invariant
  imports Book_Properties Tiered_Book
begin

text \<open>
  The standing invariant of a book in continuous matching (\<open>live_book\<close>): well formed, one order per
  identity, uncrossed, both queues in price-time order, only limit orders at rest. \<open>add\<close> keeps it.
  The depth snapshot of \<open>build_book\<close> is exact, removal takes out the one order it names, and the two
  tiered operations do what their result says.
\<close>

section \<open>Depth\<close>

definition open_at :: "fill_policy \<Rightarrow> rat \<Rightarrow> order list \<Rightarrow> rat" where
  "open_at pol p q = open_total (filter (\<lambda>x. level_key pol x = p) q)"

lemma open_total_level: "open_total (level_queue l) = open_qty (pl_orders l)"
  by (simp add: open_total_def level_queue_def open_qty_def comp_def)

lemma side_inv_level_key:
  assumes "side_inv (rests pol i sd) S A ls" "e \<in> set ls" "x \<in> set (level_queue (snd e))"
  shows "level_key pol x = fst e"
  using assms by (auto simp: side_inv_def level_inv_def level_queue_def rests_def)

lemma filter_side_queue:
  assumes "\<And>e x. e \<in> set ls \<Longrightarrow> x \<in> set (level_queue (snd e)) \<Longrightarrow> level_key pol x = fst e"
    "p \<notin> fst ` set ls"
  shows "filter (\<lambda>x. level_key pol x = p) (side_queue ls) = []"
proof -
  have "level_key pol x \<noteq> p" if x: "x \<in> set (side_queue ls)" for x
  proof -
    obtain e where e: "e \<in> set ls" "x \<in> set (level_queue (snd e))" using x unfolding side_queue_def by fastforce
    then show ?thesis using assms by auto
  qed
  then show ?thesis by (simp add: filter_empty_conv)
qed

lemma open_at_level:
  assumes d: "distinct (map fst ls)" and e: "(p, l) \<in> set ls"
    and key: "\<And>e x. e \<in> set ls \<Longrightarrow> x \<in> set (level_queue (snd e)) \<Longrightarrow> level_key pol x = fst e"
  shows "open_at pol p (side_queue ls) = open_total (level_queue l)"
proof -
  obtain xs ys where ls: "ls = xs @ (p, l) # ys" using split_list [OF e] by blast
  have out: "p \<notin> fst ` set xs" "p \<notin> fst ` set ys" using d by (auto simp: ls)
  have "filter (\<lambda>x. level_key pol x = p) (side_queue xs) = []"
    "filter (\<lambda>x. level_key pol x = p) (side_queue ys) = []"
    by (intro filter_side_queue out key; simp add: ls)+
  moreover have "filter (\<lambda>x. level_key pol x = p) (level_queue l) = level_queue l"
    using key [of "(p, l)"] by (simp add: ls)
  ultimately show ?thesis by (simp add: ls open_at_def)
qed

text \<open>The depth of one side is exact for the queue \<open>q\<close> of its resting orders.\<close>

definition depth_exact :: "fill_policy \<Rightarrow> book_level list \<Rightarrow> order list \<Rightarrow> bool" where
  "depth_exact pol ds q \<longleftrightarrow>
     (\<forall>d \<in> set ds. bl_quantity d = open_at pol (bl_price d) q \<and> 0 < bl_quantity d) \<and>
     bl_price ` set ds = level_key pol ` set q"

lemma build_levels_prices:
  "side_inv fits S A ls \<Longrightarrow> map bl_price (build_levels (map snd ls)) = map fst ls"
  by (auto simp: build_levels_def side_inv_def level_inv_def)

lemma build_levels_exact:
  assumes inv: "side_inv (rests pol i sd) S A ls" and es: "es = ls \<or> es = rev ls"
  shows "depth_exact pol (build_levels (map snd es)) (side_queue es)"
proof -
  have d: "distinct (map fst es)" and se: "set es = set ls"
    using bt_sorted_distinct es inv by (auto simp: side_inv_def rev_map [symmetric])
  have key: "level_key pol x = fst e" if "e \<in> set es" "x \<in> set (level_queue (snd e))" for e x
    using side_inv_level_key [OF inv] that se by blast
  have lev: "level_inv (rests pol i sd) S A (fst e) (snd e) \<and> pl_orders (snd e) \<noteq> []" if "e \<in> set es" for e
    using inv that se by (auto simp: side_inv_def)
  have qty: "pl_total (snd e) = open_at pol (fst e) (side_queue es) \<and> 0 < pl_total (snd e) \<and>
      pl_price (snd e) = fst e" if e: "e \<in> set es" for e
  proof -
    have "(fst e, snd e) \<in> set es" using e by simp
    then have "open_at pol (fst e) (side_queue es) = open_qty (pl_orders (snd e))"
      using open_at_level [OF d _ key] open_total_level by simp
    moreover obtain a os where "pl_orders (snd e) = a # os" using lev [OF e] by (cases "pl_orders (snd e)") auto
    ultimately show ?thesis
      using lev [OF e] open_qty_nonneg [of os S A] by (auto simp: level_inv_def order_wf_def)
  qed
  have keys: "level_key pol ` set (side_queue es) = fst ` set es"
  proof
    show "level_key pol ` set (side_queue es) \<subseteq> fst ` set es"
      using key by (auto simp: side_queue_def)
    show "fst ` set es \<subseteq> level_key pol ` set (side_queue es)"
    proof
      fix p assume "p \<in> fst ` set es"
      then obtain e where e: "e \<in> set es" "p = fst e" by auto
      then obtain x where x: "x \<in> set (level_queue (snd e))" using lev [OF e(1)] by (fastforce simp: level_queue_def neq_Nil_conv)
      then have "x \<in> set (side_queue es)" using e by (auto simp: side_queue_def)
      then show "p \<in> level_key pol ` set (side_queue es)" using key [OF e(1) x] e(2) by (metis imageI)
    qed
  qed
  have quantities: "bl_quantity d = open_at pol (bl_price d) (side_queue es) \<and> 0 < bl_quantity d"
    if d: "d \<in> set (build_levels (map snd es))" for d
  proof -
    obtain e where "e \<in> set es" "d = \<lparr>bl_price = pl_price (snd e), bl_quantity = pl_total (snd e)\<rparr>"
      using d unfolding build_levels_def by fastforce
    then show ?thesis using qty [of e] by simp
  qed
  have "bl_price ` set (build_levels (map snd es)) = fst ` set es"
    unfolding build_levels_def set_map image_image using qty by (intro image_cong) simp_all
  with quantities show ?thesis unfolding depth_exact_def keys by (intro conjI ballI) fast+
qed

lemma build_book_exact:
  assumes "book_wf pol S A b"
  shows "depth_exact pol (bk_bids (ob_build_book b)) (bid_queue b)"
    "depth_exact pol (bk_asks (ob_build_book b)) (ask_queue b)"
    "sorted_wrt (>) (map bl_price (bk_bids (ob_build_book b)))"
    "sorted_wrt (<) (map bl_price (bk_asks (ob_build_book b)))"
proof -
  have inv: "side_inv (rests pol (ob_instrument b) Buy) S A (ob_bids b)"
    "side_inv (rests pol (ob_instrument b) Sell) S A (ob_asks b)"
    using book_wf_side [OF assms, of Buy] book_wf_side [OF assms, of Sell] by simp_all
  show "depth_exact pol (bk_bids (ob_build_book b)) (bid_queue b)"
    using build_levels_exact [OF inv(1), of "rev (ob_bids b)"]
    by (simp add: ob_build_book_def bid_queue_def rev_map)
  show "depth_exact pol (bk_asks (ob_build_book b)) (ask_queue b)"
    using build_levels_exact [OF inv(2), of "ob_asks b"] by (simp add: ob_build_book_def ask_queue_def)
  have "map bl_price (bk_bids (ob_build_book b)) = rev (map fst (ob_bids b))"
    using build_levels_prices [OF inv(1)] by (simp add: ob_build_book_def build_levels_def rev_map [symmetric])
  then show "sorted_wrt (>) (map bl_price (bk_bids (ob_build_book b)))"
    using inv(1) by (simp add: side_inv_def sorted_wrt_rev)
  show "sorted_wrt (<) (map bl_price (bk_asks (ob_build_book b)))"
    using inv(2) build_levels_prices [OF inv(2)] by (simp add: ob_build_book_def side_inv_def)
qed

section \<open>The standing invariant\<close>

definition live_book :: "rat set \<Rightarrow> rat set \<Rightarrow> nat \<Rightarrow> order_book \<Rightarrow> bool" where
  "live_book S A n b \<longleftrightarrow>
     book_wf Real_Fill S A b \<and> keys_distinct b \<and> \<not> crossed (bid_queue b) (ask_queue b) \<and>
     priority_order Buy (bid_queue b) \<and> priority_order Sell (ask_queue b) \<and>
     (\<forall>x \<in> set (bid_queue b) \<union> set (ask_queue b). o_type x = Limit \<and> o_arrival x < n)"

lemma live_book_new: "live_book S A n (ob_new i)"
  by (simp add: live_book_def keys_distinct_def bid_queue_def ask_queue_def ob_new_def
      book_wf_new [unfolded ob_new_def])

lemma priority_insert:
  assumes "priority_order sd (pre @ post)"
    "\<forall>x \<in> set pre. \<not> better sd (effective_price nw) (effective_price x)"
    "\<forall>x \<in> set post. better sd (effective_price nw) (effective_price x)"
    "\<forall>x \<in> set pre. o_arrival x < o_arrival nw"
  shows "priority_order sd (pre @ nw # post)"
proof -
  have "\<forall>x \<in> set pre. ahead sd x nw" "\<forall>x \<in> set post. ahead sd nw x"
    using assms(2-4) by (cases sd; force simp: ahead_def better_def)+
  then show ?thesis using assms(1) by (simp add: sorted_wrt_append)
qed

lemma priority_sublist: "priority_order sd (xs @ x # ys) \<Longrightarrow> priority_order sd (xs @ ys)"
  by (simp add: sorted_wrt_append)

lemma uncrossed_subset:
  assumes "\<And>x y. x \<in> set bs \<Longrightarrow> y \<in> set as \<Longrightarrow> effective_price x < effective_price y"
  shows "\<not> crossed bs as"
  using assms by (cases bs; cases as) (auto simp: not_le)

text \<open>How the queues after \<open>add\<close> relate to the book \<open>b1\<close> with the new order in it and to the matched queues.\<close>

lemma add_queues:
  assumes ok: "decimal_ok D S A" and b1: "book_wf Real_Fill S A b1" "keys_distinct b1"
    and out: "add_outcome b1 ord ts fin b'"
    and sm: "spec_match (lib_fill D) (bid_queue b1) (ask_queue b1) = (ts, bid_queue b2, ask_queue b2)"
  shows "queue_of sd b' = queue_of sd b2 \<or>
      (\<exists>xs x ys. queue_of sd b2 = xs @ x # ys \<and> queue_of sd b' = xs @ ys)"
    "x \<in> set (queue_of sd b') \<Longrightarrow> \<exists>y \<in> set (queue_of sd b1). same_terms x y"
    "keys_distinct b'" "\<not> crossed (bid_queue b') (ask_queue b')"
proof -
  obtain b3 ts3 where m: "book_wf Real_Fill S A b3"
    "spec_match (lib_fill D) (bid_queue b1) (ask_queue b1) = (ts3, bid_queue b3, ask_queue b3)"
    "\<And>sd. queue_of sd b3 = open_orders (map (latest sd ts3) (queue_of sd b1))"
    "\<And>sd t. t \<in> set ts3 \<Longrightarrow> \<exists>y \<in> set (queue_of sd b1). same_terms (snap sd t) y"
    using match_result [OF ok b1] by metis
  have ts: "ts3 = ts" using sm m(2) by simp
  have q: "queue_of sd b2 = queue_of sd b3" for sd
    using sm m(2) by (cases sd) simp_all
  have q2: "queue_of sd b2 = open_orders (map (latest sd ts) (queue_of sd b1))" for sd
    using q m(3) ts by simp
  have sub: "queue_of sd b' = queue_of sd b2 \<or>
      (\<exists>xs x ys. queue_of sd b2 = xs @ x # ys \<and> queue_of sd b' = xs @ ys)" for sd
  proof (cases "sd = o_side ord")
    case True
    then show ?thesis using out unfolding q2 by (auto simp: add_outcome_def Let_def split: if_splits)
  next
    case False
    then have "sd = other (o_side ord)" by (cases sd; cases "o_side ord") auto
    then show ?thesis using out unfolding q2 by (simp add: add_outcome_def Let_def)
  qed
  then show "queue_of sd b' = queue_of sd b2 \<or>
      (\<exists>xs x ys. queue_of sd b2 = xs @ x # ys \<and> queue_of sd b' = xs @ ys)" .
  have mem: "x \<in> set (queue_of sd b2)" if "x \<in> set (queue_of sd b')" for x sd
    using sub [of sd] that by auto
  have "distinct (map o_key (queue_of sd b'))" for sd
    using sub [of sd] distinct_latest_keys [OF keys_distinct_queue [OF b1(2), of sd], of sd ts]
    unfolding q2 [symmetric] by auto
  from this [of Buy] this [of Sell] show "keys_distinct b'" by (simp add: keys_distinct_def)
  have "\<not> crossed (bid_queue b3) (ask_queue b3)"
    using spec_match_uncrossed [of "lib_fill D" "bid_queue b1" "ask_queue b1"] m(2) by simp
  note lt = uncrossed_all [OF m(1) this]
  show "\<not> crossed (bid_queue b') (ask_queue b')"
    by (rule uncrossed_subset, rule lt) (use mem [of _ Buy] mem [of _ Sell] q [of Buy] q [of Sell] in simp_all)
  assume "x \<in> set (queue_of sd b')"
  then have "x \<in> set (queue_of sd b2)" by (rule mem)
  then obtain y where y: "y \<in> set (queue_of sd b1)" "x = latest sd ts y" unfolding q2 by auto
  have "same_terms (latest sd ts y) y"
    by (rule latest_same_terms [OF m(4) [unfolded ts]
          distinct_keys_eq [OF keys_distinct_queue [OF b1(2), of sd] _ y(1)]]) assumption+
  then show "\<exists>y \<in> set (queue_of sd b1). same_terms x y" using y by blast
qed

lemma add_live:
  assumes ok: "decimal_ok D S A" and live: "live_book S A n b"
    and fit: "fits_book S A b (ord\<lparr>o_state := Booked\<rparr>)" and arr: "n \<le> o_arrival ord" "o_arrival ord < m"
    and add: "ob_add D b ord = Some ((ts, fin), b')"
  shows "live_book S A m b'"
proof -
  let ?sd = "o_side ord" and ?nw = "ord\<lparr>o_state := Booked\<rparr>"
  have b: "book_wf Real_Fill S A b" "keys_distinct b"
    and pri: "\<And>sd. priority_order sd (queue_of sd b)"
    and old: "\<And>sd x. x \<in> set (queue_of sd b) \<Longrightarrow> o_type x = Limit \<and> o_arrival x < n"
  proof -
    show "priority_order sd (queue_of sd b)" for sd using live by (cases sd) (simp_all add: live_book_def)
    show "o_type x = Limit \<and> o_arrival x < n" if "x \<in> set (queue_of sd b)" for sd x
      using live that by (cases sd) (auto simp: live_book_def)
  qed (use live in \<open>simp_all add: live_book_def\<close>)
  obtain b1 b2 pre post where o: "book_wf Real_Fill S A b'" "add_outcome b1 ord ts fin b'"
    "queue_of ?sd b = pre @ post" "queue_of ?sd b1 = pre @ ?nw # post"
    "queue_of (other ?sd) b1 = queue_of (other ?sd) b"
    "\<forall>x \<in> set pre. \<not> better ?sd (effective_price ord) (effective_price x)"
    "\<forall>x \<in> set post. better ?sd (effective_price ord) (effective_price x)"
    "book_wf Real_Fill S A b1" "keys_distinct b1"
    "spec_match (lib_fill D) (bid_queue b1) (ask_queue b1) = (ts, bid_queue b2, ask_queue b2)"
    by (rule ob_add_okD [OF ok b fit add]) blast
  note q = add_queues [OF ok o(8,9,2,10)]
  have "priority_order ?sd (queue_of ?sd b1)"
    unfolding o(4)
  proof (rule priority_insert)
    show "priority_order ?sd (pre @ post)" using pri [of ?sd] o(3) by simp
    show "\<forall>x \<in> set pre. o_arrival x < o_arrival ?nw"
    proof
      fix x assume "x \<in> set pre"
      then have "o_arrival x < n" using old [of x ?sd] o(3) by simp
      then show "o_arrival x < o_arrival ?nw" using arr(1) by simp
    qed
  qed (use o(6,7) in simp_all)
  moreover have "priority_order (other ?sd) (queue_of (other ?sd) b1)" unfolding o(5) by (rule pri)
  ultimately have "priority_order Buy (bid_queue b1)" "priority_order Sell (ask_queue b1)"
    by (cases ?sd; simp)+
  then have "priority_order Buy (bid_queue b2)" "priority_order Sell (ask_queue b2)"
    using spec_match_priority [OF lib_fill_same_terms o(10)] by blast+
  then have pri': "priority_order sd (queue_of sd b')" for sd
    using q(1) [of sd] priority_sublist [of sd] by (cases sd) auto
  have "o_type x = Limit \<and> o_arrival x < m" if x: "x \<in> set (queue_of sd b')" for x sd
  proof -
    obtain y where y: "y \<in> set (queue_of sd b1)" "same_terms x y" using q(2) [OF x] by blast
    then have t: "o_type x = o_type y" "o_arrival x = o_arrival y" "o_key x = o_key y"
      by (simp_all add: same_terms_def)
    have "y \<in> set (queue_of sd b) \<or> sd = ?sd \<and> y = ?nw"
    proof (cases "sd = ?sd")
      case False
      then have "sd = other ?sd" by (cases sd; cases ?sd) auto
      then show ?thesis using y(1) o(5) by simp
    qed (use y(1) o(3,4) in auto)
    then show ?thesis
    proof
      assume "y \<in> set (queue_of sd b)"
      from old [OF this] show ?thesis using t arr by simp
    next
      assume new: "sd = ?sd \<and> y = ?nw"
      have "o_type ord \<noteq> Market"
      proof
        assume mk: "o_type ord = Market"
        have "?nw \<in> set (queue_of ?sd b1)" using o(4) by simp
        from add_market_gone [OF o(2,9) mk this] have "o_key ord \<notin> o_key ` set (queue_of ?sd b')" .
        moreover have "o_key x \<in> o_key ` set (queue_of ?sd b')" using x new by (intro imageI) simp
        moreover have "o_key x = o_key ord" using t(3) new by simp
        ultimately show False by simp
      qed
      then have "o_type ord = Limit" by (cases "o_type ord") auto
      then show ?thesis using new t arr(2) by simp
    qed
  qed
  from this [of _ Buy] this [of _ Sell] show ?thesis
    using o(1) q(3,4) pri' [of Buy] pri' [of Sell] by (auto simp: live_book_def)
qed

section \<open>Properties\<close>

text \<open>
  C2. \<open>add\<close> keeps the standing invariant and always returns: on a live book, with a new order of a fresh
  identity that arrived last and fits the grid, the call returns, and the book is again well formed,
  uncrossed, in price-time order on both sides, free of market orders and of duplicate identities.
\<close>

theorem add_keeps_live_book:
  assumes "decimal_ok D S A" "live_book S A n b" "fits_book S A b (ord\<lparr>o_state := Booked\<rparr>)"
    "o_arrival ord = n"
  shows "\<exists>ts fin b'. ob_add D b ord = Some ((ts, fin), b') \<and> live_book S A (n + 1) b'"
proof -
  have b: "book_wf Real_Fill S A b" "keys_distinct b" using assms(2) by (simp_all add: live_book_def)
  obtain ts fin b' where add: "ob_add D b ord = Some ((ts, fin), b')"
    by (rule ob_add_ok [OF assms(1) b assms(3)]) blast
  have "live_book S A (n + 1) b'" by (rule add_live [OF assms(1-3) _ _ add]) (simp_all add: assms(4))
  with add show ?thesis by blast
qed

lemma sample_live: "live_book sample_quantities sample_prices 2 sample_book"
  using sample_books_wf(1) sample_keys
  by (simp add: live_book_def sample_queues sample_ask_def order_limit_def)

theorem add_keeps_live_book_witness:
  "\<exists>ts fin b'. ob_add sample_decimal sample_book sample_bid = Some ((ts, fin), b') \<and>
     live_book sample_quantities sample_prices 3 b'"
  using add_keeps_live_book [OF sample_decimal_ok sample_live sample_new_fits(1)]
  by (simp add: sample_bid_def order_limit_def)

text \<open>
  C12. The depth snapshot is exact: \<open>build_book\<close> lists the bid prices strictly falling and the ask prices
  strictly rising, one entry for exactly the prices at which orders rest, each with the sum of the open
  quantities of the orders resting there, which is positive.
\<close>

theorem build_book_depth_exact:
  assumes "book_wf pol S A b"
  shows "depth_exact pol (bk_bids (ob_build_book b)) (bid_queue b) \<and>
    depth_exact pol (bk_asks (ob_build_book b)) (ask_queue b) \<and>
    sorted_wrt (>) (map bl_price (bk_bids (ob_build_book b))) \<and>
    sorted_wrt (<) (map bl_price (bk_asks (ob_build_book b)))"
  using build_book_exact [OF assms] by blast

theorem build_book_depth_exact_witness:
  "bk_bids (ob_build_book sample_two_sided) = [\<lparr>bl_price = 99, bl_quantity = 5\<rparr>] \<and>
   depth_exact Real_Fill (bk_bids (ob_build_book sample_two_sided)) [sample_low_bid]"
proof
  show "bk_bids (ob_build_book sample_two_sided) = [\<lparr>bl_price = 99, bl_quantity = 5\<rparr>]"
    by (simp add: ob_build_book_def build_levels_def sample_two_sided_def one_level_def
      sample_low_bid_def order_limit_def)
  show "depth_exact Real_Fill (bk_bids (ob_build_book sample_two_sided)) [sample_low_bid]"
    using build_book_depth_exact [OF sample_books_wf(2)] unfolding sample_queues by blast
qed

text \<open>
  C13. \<open>remove\<close> is exact in both fill modes. If the named order rests at that price it is returned as
  \<open>Cancelled\<close>, every other order stays in its place, and the book stays well formed; otherwise the call
  fails and changes nothing.
\<close>

theorem remove_exact:
  assumes "decimal_ok D S A" "book_wf pol S A b"
  shows "case ob_locate b s i sd p of
      None \<Rightarrow> ob_remove D b s i sd p = Some (Inl ())
    | Some ord \<Rightarrow> \<exists>b' xs ys. ob_remove D b s i sd p = Some (Inr (ord\<lparr>o_state := Cancelled\<rparr>, b')) \<and>
        book_wf pol S A b' \<and> queue_of sd b = xs @ ord # ys \<and> queue_of sd b' = xs @ ys \<and>
        levels_of (other sd) b' = levels_of (other sd) b"
proof (cases "ob_locate b s i sd p")
  case (Some ord)
  have "other sd \<noteq> sd" by (cases sd) simp_all
  moreover obtain b' xs ys where "ob_remove D b s i sd p = Some (Inr (ord\<lparr>o_state := Cancelled\<rparr>, b'))"
    "book_wf pol S A b'" "queue_of sd b = xs @ ord # ys" "queue_of sd b' = xs @ ys"
    "\<And>sd'. sd' \<noteq> sd \<Longrightarrow> levels_of sd' b' = levels_of sd' b"
    using ob_remove_found [OF assms Some] by metis
  ultimately have "\<exists>b' xs ys. ob_remove D b s i sd p = Some (Inr (ord\<lparr>o_state := Cancelled\<rparr>, b')) \<and>
        book_wf pol S A b' \<and> queue_of sd b = xs @ ord # ys \<and> queue_of sd b' = xs @ ys \<and>
        levels_of (other sd) b' = levels_of (other sd) b" by blast
  then show ?thesis using Some by simp
qed (simp add: ob_remove_missing [OF assms(2)])

theorem remove_exact_witness:
  "\<exists>b'. ob_remove sample_decimal sample_book ''A'' 1 Sell 100 = Some (Inr (sample_ask\<lparr>o_state := Cancelled\<rparr>, b')) \<and>
     ask_queue b' = []"
proof -
  have "ob_locate sample_book ''A'' 1 Sell 100 = Some sample_ask"
    by (simp add: book_eval)
  with remove_exact [OF sample_decimal_ok sample_books_wf(1), of "''A''" 1 Sell 100]
  show ?thesis by (auto simp: sample_queues Cons_eq_append_conv)
qed

end
