(* ===== verification/Tiered_Properties.thy ===== *)
theory Tiered_Properties
  imports Book_Invariant
begin

text \<open>
  The guarantees of the tiered book operations, and what happens in both modes when the decimal library
  overflows.
\<close>

definition sample_tiered :: order_book where
  "sample_tiered = \<lparr>ob_instrument = 1, ob_bids = [], ob_asks = [(100, one_level 100 sample_ask)]\<rparr>"

lemma sample_tiered_wf: "book_wf Tiered_Fill sample_quantities sample_prices sample_tiered"
proof -
  have "rests Tiered_Fill 1 Sell 100 sample_ask"
    by (simp add: rests_def level_key_def sample_ask_def order_limit_def)
  from one_level_inv [where fits = "rests Tiered_Fill 1 Sell" and p = 100, OF sample_orders_wf(1) this]
  show ?thesis by (simp add: book_wf_def all_side side_inv_def sample_tiered_def one_level_def)
qed

lemma sample_tiered_locate: "ob_locate sample_tiered ''A'' 1 Sell 100 = Some sample_ask"
  by (simp add: ob_locate_def pl_locate_def sample_tiered_def one_level_def sample_ask_def order_limit_def)

section \<open>Properties\<close>

text \<open>
  C14. \<open>insert_only\<close> rests an order behind the orders at its price without matching: a non-positive
  remainder and an identity already resting at that price are errors; otherwise the order, in state
  \<open>Booked\<close> or, when part of it was executed before, \<open>PartialFill\<close>, takes its place in the queue of its side
  directly behind every order at the same or a better price and ahead of every order at a worse one, and
  nothing else moves.
\<close>

theorem insert_only_exact:
  assumes "decimal_ok D S A" "book_wf Tiered_Fill S A b" "0 < o_remaining ord \<Longrightarrow> fits_tiered S A b ord"
  shows "if o_remaining ord \<le> 0
      then ob_insert_only D b ord = Some (Inl (TieredInvalidExecution (NonPositiveRemaining (o_id ord) (o_remaining ord))))
    else if ob_locate b (o_session ord) (o_id ord) (o_side ord) (o_price ord) \<noteq> None
      then ob_insert_only D b ord = Some (Inl TieredDuplicateOrder)
    else \<exists>b' pre post. ob_insert_only D b ord = Some (Inr (booked_state ord, b')) \<and>
      book_wf Tiered_Fill S A b' \<and> queue_of (o_side ord) b = pre @ post \<and>
      queue_of (o_side ord) b' = pre @ booked_state ord # post \<and>
      (\<forall>x \<in> set pre. \<not> better (o_side ord) (o_price ord) (o_price x)) \<and>
      (\<forall>x \<in> set post. better (o_side ord) (o_price ord) (o_price x)) \<and>
      levels_of (other (o_side ord)) b' = levels_of (other (o_side ord)) b"
proof -
  have ne: "other (o_side ord) \<noteq> o_side ord" by (cases "o_side ord") simp_all
  have "\<exists>b' pre post. ob_insert_only D b ord = Some (Inr (booked_state ord, b')) \<and>
      book_wf Tiered_Fill S A b' \<and> queue_of (o_side ord) b = pre @ post \<and>
      queue_of (o_side ord) b' = pre @ booked_state ord # post \<and>
      (\<forall>x \<in> set pre. \<not> better (o_side ord) (o_price ord) (o_price x)) \<and>
      (\<forall>x \<in> set post. better (o_side ord) (o_price ord) (o_price x)) \<and>
      levels_of (other (o_side ord)) b' = levels_of (other (o_side ord)) b"
    if "0 < o_remaining ord" "ob_locate b (o_session ord) (o_id ord) (o_side ord) (o_price ord) = None"
    by (rule insert_only_ok [OF assms(1,2) assms(3) [OF that(1)] that(2)]) (use ne in blast)
  then show ?thesis
    using insert_only_duplicate [OF assms(2)] by (simp add: not_le) (simp add: ob_insert_only_def)
qed

definition sample_late_ask :: order where
  "sample_late_ask = order_limit ''C'' 3 1 Sell 100 5 9"

theorem insert_only_exact_witness:
  "\<exists>b'. ob_insert_only sample_decimal sample_tiered sample_late_ask = Some (Inr (booked_state sample_late_ask, b')) \<and>
     ask_queue b' = [sample_ask, booked_state sample_late_ask]"
proof -
  have "fits_tiered sample_quantities sample_prices sample_tiered sample_late_ask"
    by (simp add: fits_tiered_def side_room_def sample_tiered_def one_level_def sample_late_ask_def sample_ask_def order_limit_def
        order_wf_def booked_state_def sample_quantities_def sample_prices_def)
  note t = insert_only_exact [OF sample_decimal_ok sample_tiered_wf this]
  have late: "0 < o_remaining sample_late_ask" "o_side sample_late_ask = Sell" "o_price sample_late_ask = 100"
    "ob_locate sample_tiered (o_session sample_late_ask) (o_id sample_late_ask) Sell 100 = None"
    by (simp_all add: sample_late_ask_def order_limit_def ob_locate_def pl_locate_def sample_tiered_def one_level_def sample_ask_def)
  obtain b' pre post where b': "ob_insert_only sample_decimal sample_tiered sample_late_ask = Some (Inr (booked_state sample_late_ask, b'))"
    "ask_queue sample_tiered = pre @ post" "ask_queue b' = pre @ booked_state sample_late_ask # post"
    "\<forall>x \<in> set post. better Sell 100 (o_price x)"
    using t late by (auto simp: not_le)
  have "ask_queue sample_tiered = [sample_ask]" "o_price sample_ask = 100"
    by (simp_all add: sample_tiered_def ask_queue_def level_queue_def one_level_def sample_ask_def order_limit_def)
  then have "pre = [sample_ask] \<and> post = []" using b'(2,4) by (cases pre) (auto simp: better_def)
  then show ?thesis using b'(1,3) by simp
qed

text \<open>
  C15. \<open>execute\<close> applies exactly the prescribed fill, on every branch: a quantity or a price that is not positive,
  an order that is not there, one that is not active and a quantity above what is open are the corresponding
  errors, in this order, and need no assumption; on a well-formed book any other call succeeds, and the
  returned snapshot has the quantity moved from open to executed and the average price weighted over the executed
  quantity with the fill price, as the decimal library computes it; the order keeps its place with that
  snapshot or leaves the book when it is filled, and every other order stays.
\<close>

theorem execute_exact:
  "if q \<le> 0 \<or> fp \<le> 0
      then ob_execute D b s i sd p q fp = Some (Inl (TieredInvalidExecution (NonPositiveFill q fp)))
    else case ob_locate b s i sd p of
      None \<Rightarrow> ob_execute D b s i sd p q fp = Some (Inl TieredOrderNotFound)
    | Some ord \<Rightarrow>
        if \<not> is_active (o_state ord)
        then ob_execute D b s i sd p q fp = Some (Inl (TieredInvalidExecution (NotActive i (o_state ord))))
        else if o_remaining ord < q
        then ob_execute D b s i sd p q fp = Some (Inl (TieredInvalidExecution (ExceedsRemaining q (o_remaining ord))))
        else decimal_ok D S A \<and> book_wf Tiered_Fill S A b \<and> q \<in> S \<and> fp \<in> A \<longrightarrow>
          (\<exists>b' weighted notional total avg xs ys. ob_execute D b s i sd p q fp = Some (Inr (filled ord q avg, b')) \<and>
            dec_mul D (o_avg ord) (o_cum ord) = Some weighted \<and> dec_mul D fp q = Some notional \<and>
            dec_add D weighted notional = Some total \<and> dec_div D total (o_cum ord + q) = Some avg \<and>
            book_wf Tiered_Fill S A b' \<and> queue_of sd b = xs @ ord # ys \<and>
            queue_of sd b' = xs @ (if q = o_remaining ord then [] else [filled ord q avg]) @ ys \<and>
            levels_of (other sd) b' = levels_of (other sd) b)"
proof (cases "\<exists>ord. \<not> (q \<le> 0 \<or> fp \<le> 0) \<and> ob_locate b s i sd p = Some ord \<and> is_active (o_state ord) \<and> q \<le> o_remaining ord")
  case True
  then obtain ord where o: "0 < q" "0 < fp" "ob_locate b s i sd p = Some ord" "is_active (o_state ord)" "q \<le> o_remaining ord"
    by (auto simp: not_le)
  have ne: "other sd \<noteq> sd" by (cases sd) simp_all
  have "\<exists>b' weighted notional total avg xs ys. ob_execute D b s i sd p q fp = Some (Inr (filled ord q avg, b')) \<and>
      dec_mul D (o_avg ord) (o_cum ord) = Some weighted \<and> dec_mul D fp q = Some notional \<and>
      dec_add D weighted notional = Some total \<and> dec_div D total (o_cum ord + q) = Some avg \<and>
      book_wf Tiered_Fill S A b' \<and> queue_of sd b = xs @ ord # ys \<and>
      queue_of sd b' = xs @ (if q = o_remaining ord then [] else [filled ord q avg]) @ ys \<and>
      levels_of (other sd) b' = levels_of (other sd) b"
    if wf: "decimal_ok D S A" "book_wf Tiered_Fill S A b" "q \<in> S" "fp \<in> A"
  proof (rule execute_ok [OF wf(1,2) o(3) wf(3) o(1,5) wf(4) o(2)], goal_cases)
    case (1 b' avg xs ys)
    have "0 \<le> o_cum ord" by (rule located_cum_nonneg [OF wf(1,2) o(3)])
    then show ?case using apply_fill_average [OF 1(2)] o(1) 1 ne by blast
  qed
  then show ?thesis using o by (simp add: not_le)
qed (auto simp: ob_execute_def ob_locate_def not_le not_less split: option.splits)

theorem execute_exact_witness:
  "\<exists>b'. ob_execute sample_decimal sample_tiered ''A'' 1 Sell 100 4 98 = Some (Inr (filled sample_ask 4 98, b')) \<and>
     ask_queue b' = [filled sample_ask 4 98]"
proof -
  have q: "ask_queue sample_tiered = [sample_ask]" "o_remaining sample_ask = 10" "o_cum sample_ask = 0" "o_avg sample_ask = 0"
      "is_active (o_state sample_ask)"
    by (simp_all add: sample_tiered_def ask_queue_def level_queue_def one_level_def sample_ask_def order_limit_def)
  have "(4 :: rat) \<in> sample_quantities" "(98 :: rat) \<in> sample_prices"
    by (simp_all add: sample_quantities_def sample_prices_def)
  moreover have "avg = 98" if "dec_mul sample_decimal 0 0 = Some w" "dec_mul sample_decimal 98 4 = Some n"
      "dec_add sample_decimal w n = Some t" "dec_div sample_decimal t (0 + 4) = Some avg" for w n t avg
    using that by (auto simp: sample_decimal_def checked_dec_def split: if_splits)
  ultimately show ?thesis
    using execute_exact [of 4 98 sample_decimal sample_tiered "''A''" 1 Sell 100 sample_quantities sample_prices]
      sample_decimal_ok sample_tiered_wf
    unfolding sample_tiered_locate by (auto simp: q Cons_eq_append_conv)
qed

text \<open>
  C18. Matching panics when the notional of a trade overflows the decimal type: whenever the best bid and
  the best ask cross and the product of the trade price and quantity is not representable, \<open>match_trades\<close>
  does not return. Nothing upstream bounds prices or quantities, so an order can be sent that makes it so.
\<close>

theorem match_trades_overflow_panics:
  assumes "bt_last (ob_bids b) = Some (bp, bl)" "bt_first (ob_asks b) = Some (ap, al)"
    "pl_top bl = Some bid" "pl_top al = Some ask" "effective_price ask \<le> effective_price bid"
    "dec_add D (o_cum bid) (min (o_remaining bid) (o_remaining ask)) = Some c" "c \<noteq> 0"
    "dec_mul D (trade_price bid ask) (min (o_remaining bid) (o_remaining ask)) = None"
  shows "match_trades D b = None"
proof -
  have "apply_fill D bid (min (o_remaining bid) (o_remaining ask)) (trade_price bid ask) = None"
    using assms(6-8) by (simp add: apply_fill_def Let_def bind_eq_None_conv)
  then have "match_once D b = None"
    using assms(1-5) by (simp add: match_once_def Let_def trade_price_def not_less)
  then show ?thesis by (simp add: match_trades_def match_loop.simps)
qed

definition huge_ask :: order where
  "huge_ask = (order_limit ''A'' 1 1 Sell 1000000000000000 1000000000000000 1)\<lparr>o_state := Booked\<rparr>"

definition huge_bid :: order where
  "huge_bid = order_limit ''B'' 1 1 Buy 1000000000000000 1000000000000000 2"

definition huge_book :: order_book where
  "huge_book = \<lparr>ob_instrument = 1,
     ob_bids = [(1000000000000000, one_level 1000000000000000 huge_bid)],
     ob_asks = [(1000000000000000, one_level 1000000000000000 huge_ask)]\<rparr>"

theorem match_trades_overflow_panics_witness: "match_trades sample_decimal huge_book = None"
  by (rule match_trades_overflow_panics
      [where bp = 1000000000000000 and ap = 1000000000000000 and c = 1000000000000000
       and bid = huge_bid and ask = huge_ask and bl = "one_level 1000000000000000 huge_bid"
       and al = "one_level 1000000000000000 huge_ask"])
    (simp_all add: huge_book_def bt_last_def bt_first_def pl_top_def one_level_def huge_bid_def
      huge_ask_def order_limit_def effective_price_def trade_price_def sample_decimal_def checked_dec_def
      dec_limit_def)

end
