(* ===== verification/Instruments.thy ===== *)
theory Instruments
  imports Text BTree
begin

text \<open>
  The instrument registry (\<open>InstrumentMap\<close> in \<open>src/core/instrument.rs\<close>): lookup by symbol and by
  identifier, allocation of fresh identifiers, and loading of an instruments file. A line of the reader is
  an I/O error (\<open>Inl\<close>) or its text. The registry invariant says that the two indexes are inverse to each
  other and that no identifier lies above the allocation counter.
\<close>

record instrument =
  in_id :: int
  in_symbol :: string

record instrument_map =
  im_by_symbol :: "(string \<times> instrument) list"
  im_by_id :: "int \<Rightarrow> instrument option"
  im_next :: int

definition instrument_new :: "int \<Rightarrow> string \<Rightarrow> instrument" where
  "instrument_new i symb = \<lparr>in_id = i, in_symbol = symb\<rparr>"

definition im_new :: instrument_map where
  "im_new = \<lparr>im_by_symbol = [], im_by_id = Map.empty, im_next = 0\<rparr>"

definition get_by_symbol :: "instrument_map \<Rightarrow> string \<Rightarrow> instrument option" where
  "get_by_symbol m symb = map_of (im_by_symbol m) symb"

definition get_by_id :: "instrument_map \<Rightarrow> int \<Rightarrow> instrument option" where
  "get_by_id m i = im_by_id m i"

definition all_symbols :: "instrument_map \<Rightarrow> string list" where
  "all_symbols m = sort (map fst (im_by_symbol m))"

definition im_next_id :: "instrument_map \<Rightarrow> int \<times> instrument_map" where
  "im_next_id m = (let n = wrap_i64 (im_next m + 1) in (n, m\<lparr>im_next := n\<rparr>))"

definition im_put :: "instrument_map \<Rightarrow> instrument \<Rightarrow> instrument_map" where
  "im_put m ins = m\<lparr>im_by_symbol := AList.update (in_symbol ins) ins (im_by_symbol m),
                    im_by_id := (im_by_id m)(in_id ins \<mapsto> ins)\<rparr>"

section \<open>Loading\<close>

datatype load_fault =
    NotTwoFields | IdNotInteger | IdOutOfRange | SymbolNotPrintable | DuplicateId | DuplicateSymbol

datatype load_error = ReadFailed | LineInvalid nat load_fault | NoInstrument

definition is_comment :: "string \<Rightarrow> bool" where
  "is_comment s \<longleftrightarrow> s = [] \<or> starts_with ''//'' s \<or> starts_with ''#'' s"

definition symbol_char :: "char \<Rightarrow> bool" where
  "symbol_char c \<longleftrightarrow> is_ascii_graphic c \<and> c \<noteq> CHR ''=''"

definition load_entry :: "instrument_map \<Rightarrow> string list \<Rightarrow> load_fault + instrument_map" where
  "load_entry loaded parts =
     (case parts of
        [p0, p1] \<Rightarrow>
          (case parse_i64 p0 of
             None \<Rightarrow> Inl IdNotInteger
           | Some i \<Rightarrow>
               if i \<le> 0 \<or> i = i64_max then Inl IdOutOfRange
               else if \<not> list_all symbol_char p1 then Inl SymbolNotPrintable
               else if get_by_id loaded i \<noteq> None then Inl DuplicateId
               else if get_by_symbol loaded p1 \<noteq> None then Inl DuplicateSymbol
               else Inr (im_put (loaded\<lparr>im_next := max (im_next loaded) i\<rparr>) (instrument_new i p1)))
      | _ \<Rightarrow> Inl NotTwoFields)"

fun load_lines :: "instrument_map \<Rightarrow> nat \<Rightarrow> (unit + string) list \<Rightarrow> load_error + instrument_map" where
  "load_lines loaded index [] = Inr loaded"
| "load_lines loaded index (Inl _ # ls) = Inl ReadFailed"
| "load_lines loaded index (Inr line # ls) =
     (let s = trim line
      in if is_comment s then load_lines loaded (index + 1) ls
         else case load_entry loaded (split_whitespace s) of
                Inl e \<Rightarrow> Inl (LineInvalid (index + 1) e)
              | Inr loaded' \<Rightarrow> load_lines loaded' (index + 1) ls)"

text \<open>The result of the call and the registry it leaves.\<close>

definition load_from_reader ::
  "instrument_map \<Rightarrow> (unit + string) list \<Rightarrow> (load_error + unit) \<times> instrument_map" where
  "load_from_reader m ls =
     (case load_lines im_new 0 ls of
        Inl e \<Rightarrow> (Inl e, m)
      | Inr loaded \<Rightarrow> if im_by_symbol loaded = [] then (Inl NoInstrument, m) else (Inr (), loaded))"

section \<open>Invariant\<close>

definition registry_wf :: "instrument_map \<Rightarrow> bool" where
  "registry_wf m \<longleftrightarrow>
     distinct (map fst (im_by_symbol m)) \<and>
     (\<forall>symb ins. get_by_symbol m symb = Some ins \<longrightarrow> in_symbol ins = symb \<and> get_by_id m (in_id ins) = Some ins) \<and>
     (\<forall>i ins. get_by_id m i = Some ins \<longrightarrow> in_id ins = i \<and> get_by_symbol m (in_symbol ins) = Some ins) \<and>
     (\<forall>i ins. get_by_id m i = Some ins \<longrightarrow> 0 < i \<and> i \<le> im_next m) \<and> 0 \<le> im_next m \<and> im_next m \<le> i64_max"

lemma registry_wf_new: "registry_wf im_new"
  by (simp add: registry_wf_def im_new_def get_by_symbol_def get_by_id_def)

lemma get_by_symbol_put [simp]:
  "get_by_symbol (im_put m ins) = (get_by_symbol m)(in_symbol ins \<mapsto> ins)"
  by (rule ext) (simp add: get_by_symbol_def im_put_def update_conv)

lemma get_by_id_put [simp]: "get_by_id (im_put m ins) = (get_by_id m)(in_id ins \<mapsto> ins)"
  by (rule ext) (simp add: get_by_id_def im_put_def)

lemma get_next_upd [simp]:
  "get_by_symbol (m\<lparr>im_next := n\<rparr>) = get_by_symbol m" "get_by_id (m\<lparr>im_next := n\<rparr>) = get_by_id m"
  by (rule ext, simp add: get_by_symbol_def get_by_id_def)+

lemma registry_wf_put:
  assumes wf: "registry_wf m" and new: "get_by_symbol m (in_symbol ins) = None"
    "get_by_id m (in_id ins) = None" and rng: "0 < in_id ins" "in_id ins \<le> n" "im_next m \<le> n" "n \<le> i64_max"
  shows "registry_wf (im_put (m\<lparr>im_next := n\<rparr>) ins)"
proof -
  have d: "distinct (map fst (AList.update (in_symbol ins) ins (im_by_symbol m)))"
    using wf by (simp add: registry_wf_def distinct_update)
  have sy: "in_symbol x = symb \<and> get_by_id m (in_id x) = Some x" if "get_by_symbol m symb = Some x" for symb x
    using wf that by (auto simp: registry_wf_def)
  have ids: "in_id x = i \<and> get_by_symbol m (in_symbol x) = Some x \<and> 0 < i \<and> i \<le> im_next m"
    if "get_by_id m i = Some x" for i x
    using wf that by (auto simp: registry_wf_def)
  have a: "in_id x \<noteq> in_id ins" if "get_by_symbol m symb = Some x" for symb x
    using sy [OF that] new(2) by auto
  have b: "in_symbol x \<noteq> in_symbol ins" if "get_by_id m i = Some x" for i x
    using ids [OF that] new(1) by auto
  let ?m = "im_put (m\<lparr>im_next := n\<rparr>) ins"
  have nx: "distinct (map fst (im_by_symbol ?m))" "im_next ?m = n"
    using d by (simp_all add: im_put_def)
  have by_sym: "in_symbol x = symb \<and> get_by_id ?m (in_id x) = Some x" if "get_by_symbol ?m symb = Some x" for symb x
    using that sy a by (auto split: if_splits)
  have by_id: "in_id x = i \<and> get_by_symbol ?m (in_symbol x) = Some x" if "get_by_id ?m i = Some x" for i x
    using that ids b by (auto split: if_splits)
  have range: "0 < i \<and> i \<le> im_next ?m" if "get_by_id ?m i = Some x" for i x
    using that ids rng unfolding nx by (fastforce split: if_splits)
  show ?thesis unfolding registry_wf_def
  proof (intro conjI allI impI)
    show "0 \<le> im_next ?m" "im_next ?m \<le> i64_max" using rng nx by simp_all
  qed (use nx(1) by_sym by_id range in blast)+
qed

lemma load_entry_wf:
  assumes "registry_wf m" "im_next m < i64_max" "load_entry m parts = Inr m'"
  shows "registry_wf m' \<and> im_next m' < i64_max \<and> im_by_symbol m' \<noteq> []"
proof -
  obtain p0 p1 i where e: "parts = [p0, p1]" "parse_i64 p0 = Some i" "0 < i" "i \<noteq> i64_max"
    "get_by_id m i = None" "get_by_symbol m p1 = None"
    "m' = im_put (m\<lparr>im_next := max (im_next m) i\<rparr>) (instrument_new i p1)"
    using assms(3) unfolding load_entry_def
    by (cases parts; cases "tl parts"; cases "tl (tl parts)") (auto split: option.splits if_splits)
  have "i \<le> i64_max" using e(2) by (auto simp: parse_sint_def Let_def split: if_splits)
  then have "i < i64_max" using e(4) by simp
  moreover have "AList.update p1 (instrument_new i p1) (im_by_symbol m) \<noteq> []" by (cases "im_by_symbol m") auto
  moreover have "registry_wf m'"
    unfolding e(7) by (rule registry_wf_put [OF assms(1)])
      (use e assms(2) \<open>i \<le> i64_max\<close> in \<open>auto simp: instrument_new_def\<close>)
  ultimately show ?thesis using assms(2) e(7) by (simp add: im_put_def instrument_new_def)
qed

lemma load_lines_wf:
  assumes "registry_wf m" "im_next m < i64_max" "load_lines m k ls = Inr m'"
  shows "registry_wf m' \<and> im_next m' < i64_max"
  using assms
proof (induction m k ls rule: load_lines.induct)
  case (3 m k line ls)
  show ?case
  proof (cases "is_comment (trim line)")
    case False
    then obtain m1 where "load_entry m (split_whitespace (trim line)) = Inr m1" "load_lines m1 (k + 1) ls = Inr m'"
      using 3(5) by (auto simp: Let_def split: sum.splits)
    then show ?thesis using 3(2) [OF refl False] load_entry_wf [OF 3(3,4)] by blast
  qed (use 3 in auto)
qed auto

section \<open>What a file loads\<close>

definition line_instrument :: "unit + string \<Rightarrow> instrument option" where
  "line_instrument l =
     (case l of Inl _ \<Rightarrow> None
      | Inr line \<Rightarrow>
          if is_comment (trim line) then None
          else (case split_whitespace (trim line) of
                  [p0, p1] \<Rightarrow> map_option (\<lambda>i. instrument_new i p1) (parse_i64 p0)
                | _ \<Rightarrow> None))"

lemma load_entry_step:
  assumes "load_entry m (split_whitespace (trim line)) = Inr m'" "\<not> is_comment (trim line)"
  obtains ins where "line_instrument (Inr line) = Some ins" "get_by_id m (in_id ins) = None"
    "get_by_id m' = (get_by_id m)(in_id ins \<mapsto> ins)"
proof -
  obtain p0 p1 where ps: "split_whitespace (trim line) = [p0, p1]"
    using assms(1) unfolding load_entry_def by (auto split: list.splits)
  then obtain i where "parse_i64 p0 = Some i" "get_by_id m i = None"
    "m' = im_put (m\<lparr>im_next := max (im_next m) i\<rparr>) (instrument_new i p1)"
    using assms(1) by (auto simp: load_entry_def split: option.splits if_splits)
  then show ?thesis
    using that [of "instrument_new i p1"] ps assms(2) by (simp add: line_instrument_def instrument_new_def)
qed

lemma load_lines_content:
  assumes "load_lines m k ls = Inr m'"
  shows "get_by_id m' i = Some ins \<longleftrightarrow>
    get_by_id m i = Some ins \<or> (\<exists>l \<in> set ls. line_instrument l = Some ins \<and> in_id ins = i)"
  using assms
proof (induction m k ls rule: load_lines.induct)
  case (3 m k line ls)
  show ?case
  proof (cases "is_comment (trim line)")
    case True
    then have "line_instrument (Inr line) = None" by (simp add: line_instrument_def)
    then show ?thesis using 3(1) [OF refl True] 3(3) True by simp
  next
    case False
    then obtain m1 where m1: "load_entry m (split_whitespace (trim line)) = Inr m1" "load_lines m1 (k + 1) ls = Inr m'"
      using 3(3) by (auto simp: Let_def split: sum.splits)
    obtain new where "line_instrument (Inr line) = Some new" "get_by_id m (in_id new) = None"
      "get_by_id m1 = (get_by_id m)(in_id new \<mapsto> new)"
      using load_entry_step [OF m1(1) False] by blast
    then show ?thesis using 3(2) [OF refl False m1] by auto
  qed
qed auto

lemma im_next_fresh:
  assumes "registry_wf m" "im_next m < i64_max"
  shows "get_by_id m (fst (im_next_id m)) = None"
proof -
  have "wrap_i64 (im_next m + 1) = im_next m + 1"
    using assms by (intro wrap_i64_small) (auto simp: registry_wf_def)
  moreover have "get_by_id m (im_next m + 1) = None"
    using assms(1) by (cases "get_by_id m (im_next m + 1)") (auto simp: registry_wf_def)
  ultimately show ?thesis by (simp add: im_next_id_def Let_def)
qed

section \<open>Properties\<close>

text \<open>
  C17. Loading the instruments file is atomic and exact: on any error the registry in use is unchanged;
  on success the registry holds exactly the instruments the lines of the file describe, its two indexes
  agree, and the identifier allocated next is not in use.
\<close>

theorem load_from_reader_atomic:
  assumes "load_from_reader m ls = (r, m')"
  shows "case r of
      Inl _ \<Rightarrow> m' = m
    | Inr _ \<Rightarrow> registry_wf m' \<and> get_by_id m' (fst (im_next_id m')) = None \<and> im_by_symbol m' \<noteq> [] \<and>
        (\<forall>i ins. get_by_id m' i = Some ins \<longleftrightarrow> (\<exists>l \<in> set ls. line_instrument l = Some ins \<and> in_id ins = i))"
proof (cases r)
  case (Inr u)
  then have l: "load_lines im_new 0 ls = Inr m'" "im_by_symbol m' \<noteq> []"
    using assms by (auto simp: load_from_reader_def split: sum.splits if_splits)
  have wf: "registry_wf m' \<and> im_next m' < i64_max"
    by (rule load_lines_wf [OF registry_wf_new _ l(1)]) (simp add: im_new_def)
  moreover have "get_by_id im_new i = None" for i by (simp add: get_by_id_def im_new_def)
  ultimately show ?thesis
    using Inr l(2) im_next_fresh load_lines_content [OF l(1)] by simp
qed (use assms in \<open>auto simp: load_from_reader_def split: sum.splits if_splits\<close>)

lemmas text_eval =
  load_from_reader_def load_entry_def trim_def is_ascii_whitespace_char_def is_comment_def starts_with_def
  split_whitespace_def parse_sint_def strip_plus_def all_digits_def is_ascii_digit_def digits_val_def
  digit_val_def symbol_char_def is_ascii_graphic_def get_by_id_def get_by_symbol_def im_new_def im_put_def
  instrument_new_def Let_def

theorem load_from_reader_atomic_witness:
  "\<exists>m'. load_from_reader im_new [Inr ''# symbols'', Inr ''7 IBM''] = (Inr (), m') \<and>
     registry_wf m' \<and> get_by_symbol m' ''IBM'' = Some (instrument_new 7 ''IBM'')"
proof -
  obtain m' where m: "load_from_reader im_new [Inr ''# symbols'', Inr ''7 IBM''] = (Inr (), m')"
    "get_by_symbol m' ''IBM'' = Some (instrument_new 7 ''IBM'')"
    by (simp add: text_eval)
  then show ?thesis using load_from_reader_atomic [OF m(1)] by auto
qed

end
