(* ===== verification/Market_Data.thy ===== *)
theory Market_Data
  imports Instruments Matching
begin

text \<open>
  Published market data (\<open>src/market_data.rs\<close>) and the running statistics (\<open>src/core/stats.rs\<close>). Each
  instrument has one slot holding the latest complete snapshot. A slot is created once per instrument
  identifier and shared between the symbol catalog and the publisher's index, so the catalog maps a symbol
  to the identifier that names its slot. The publication time of a snapshot is not kept.
\<close>

record statistics =
  st_symbol :: string
  st_bid_qty :: rat
  st_bid_price :: rat
  st_ask_qty :: rat
  st_ask_price :: rat
  st_volume :: rat
  st_high :: rat
  st_low :: rat
  st_has_high_low :: bool

definition statistics_default :: "string \<Rightarrow> statistics" where
  "statistics_default symb =
     \<lparr>st_symbol = symb, st_bid_qty = 0, st_bid_price = 0, st_ask_qty = 0, st_ask_price = 0,
      st_volume = 0, st_high = 0, st_low = 0, st_has_high_low = False\<rparr>"

record instrument_snapshot =
  sn_book :: book
  sn_stats :: statistics
  sn_version :: nat

record publisher =
  pb_catalog :: "(string \<times> int) list"
  pb_slots :: "int \<Rightarrow> instrument_snapshot option"

definition publisher_new :: publisher where
  "publisher_new = \<lparr>pb_catalog = [], pb_slots = Map.empty\<rparr>"

definition reader_snapshot :: "publisher \<Rightarrow> string \<Rightarrow> instrument_snapshot option" where
  "reader_snapshot pb symb = (case bt_get (pb_catalog pb) symb of None \<Rightarrow> None | Some i \<Rightarrow> pb_slots pb i)"

definition reader_symbols :: "publisher \<Rightarrow> string list" where
  "reader_symbols pb = map fst (pb_catalog pb)"

definition empty_snapshot :: "instrument \<Rightarrow> instrument_snapshot" where
  "empty_snapshot ins =
     \<lparr>sn_book = \<lparr>bk_instrument = in_id ins, bk_sequence = 0, bk_bids = [], bk_asks = []\<rparr>,
      sn_stats = statistics_default (in_symbol ins), sn_version = 0\<rparr>"

definition register_one :: "instrument \<Rightarrow> publisher \<Rightarrow> publisher" where
  "register_one ins pb =
     \<lparr>pb_catalog = bt_insert (in_symbol ins) (in_id ins) (pb_catalog pb),
      pb_slots = (case pb_slots pb (in_id ins) of
                    None \<Rightarrow> (pb_slots pb)(in_id ins \<mapsto> empty_snapshot ins)
                  | Some _ \<Rightarrow> pb_slots pb)\<rparr>"

definition md_register :: "publisher \<Rightarrow> instrument list \<Rightarrow> publisher" where
  "md_register pb instruments = fold register_one instruments pb"

definition md_snapshot :: "publisher \<Rightarrow> int \<Rightarrow> instrument_snapshot option" where
  "md_snapshot pb i = pb_slots pb i"

text \<open>\<^const>\<open>None\<close> is the panic of \<open>expect\<close> on an instrument that was never registered.\<close>

definition md_publish :: "publisher \<Rightarrow> book \<Rightarrow> statistics \<Rightarrow> publisher option" where
  "md_publish pb bk stats =
     (case pb_slots pb (bk_instrument bk) of
        None \<Rightarrow> None
      | Some _ \<Rightarrow> Some (pb\<lparr>pb_slots := (pb_slots pb)(bk_instrument bk \<mapsto>
          \<lparr>sn_book = bk, sn_stats = stats, sn_version = bk_sequence bk\<rparr>)\<rparr>))"

section \<open>Statistics of a batch of trades\<close>

definition stats_trade :: "decimal_ops \<Rightarrow> statistics \<Rightarrow> raw_trade \<Rightarrow> statistics option" where
  "stats_trade D stats t = do {
     volume \<leftarrow> dec_add D (st_volume stats) (rt_quantity t);
     let stats = stats\<lparr>st_volume := volume\<rparr>;
     Some (if \<not> st_has_high_low stats
           then stats\<lparr>st_high := rt_price t, st_low := rt_price t, st_has_high_low := True\<rparr>
           else let stats = (if st_high stats < rt_price t then stats\<lparr>st_high := rt_price t\<rparr> else stats)
                in if rt_price t < st_low stats then stats\<lparr>st_low := rt_price t\<rparr> else stats)
   }"

fun stats_trades :: "decimal_ops \<Rightarrow> statistics \<Rightarrow> raw_trade list \<Rightarrow> statistics option" where
  "stats_trades D stats [] = Some stats"
| "stats_trades D stats (t # ts) = do { stats \<leftarrow> stats_trade D stats t; stats_trades D stats ts }"

text \<open>Top of book as the publication copies it into the statistics.\<close>

definition best_level :: "book_level list \<Rightarrow> rat \<times> rat" where
  "best_level ls = (case ls of [] \<Rightarrow> (0, 0) | l # _ \<Rightarrow> (bl_price l, bl_quantity l))"

definition stats_top :: "statistics \<Rightarrow> book \<Rightarrow> statistics" where
  "stats_top stats bk =
     stats\<lparr>st_bid_price := fst (best_level (bk_bids bk)), st_bid_qty := snd (best_level (bk_bids bk)),
           st_ask_price := fst (best_level (bk_asks bk)), st_ask_qty := snd (best_level (bk_asks bk))\<rparr>"

section \<open>Lemmas\<close>

lemma slots_register_one:
  "pb_slots (register_one ins pb) i =
     (if i = in_id ins \<and> pb_slots pb i = None then Some (empty_snapshot ins) else pb_slots pb i)"
  by (auto simp: register_one_def split: option.split)

lemma slots_register_mono: "pb_slots pb i = Some s \<Longrightarrow> pb_slots (md_register pb is) i = Some s"
  unfolding md_register_def by (induction "is" arbitrary: pb) (auto simp: slots_register_one)

lemma slots_register_mem: "ins \<in> set is \<Longrightarrow> pb_slots (md_register pb is) (in_id ins) \<noteq> None"
proof (induction "is" arbitrary: pb)
  case (Cons a "is")
  show ?case
  proof (cases "ins \<in> set is")
    case True
    then show ?thesis using Cons by (simp add: md_register_def)
  next
    case False
    then have "pb_slots (register_one a pb) (in_id ins) \<noteq> None"
      using Cons.prems by (auto simp: slots_register_one)
    then obtain s where "pb_slots (register_one a pb) (in_id ins) = Some s" by blast
    from slots_register_mono [OF this, of "is"] show ?thesis by (simp add: md_register_def)
  qed
qed simp

lemma md_publish_Some:
  assumes "pb_slots pb (bk_instrument bk) \<noteq> None"
  obtains pb' where "md_publish pb bk stats = Some pb'" "pb_catalog pb' = pb_catalog pb"
    "pb_slots pb' = (pb_slots pb)(bk_instrument bk \<mapsto>
       \<lparr>sn_book = bk, sn_stats = stats, sn_version = bk_sequence bk\<rparr>)"
  using assms by (auto simp: md_publish_def split: option.splits)

lemma stats_trades_volume:
  assumes "stats_trades D stats ts = Some stats'"
    "\<And>a b. b \<in> rt_quantity ` set ts \<Longrightarrow> dec_add D a b \<noteq> None \<Longrightarrow> dec_add D a b = Some (a + b)"
  shows "st_volume stats' = st_volume stats + sum_list (map rt_quantity ts)"
  using assms
proof (induction ts arbitrary: stats)
  case (Cons t ts)
  then obtain s1 where s1: "stats_trade D stats t = Some s1" "stats_trades D s1 ts = Some stats'"
    by (auto simp: bind_eq_Some_conv)
  then have "st_volume s1 = st_volume stats + rt_quantity t"
    using Cons.prems(2) [of "rt_quantity t" "st_volume stats"]
    by (auto simp: stats_trade_def bind_eq_Some_conv Let_def split: if_splits)
  then show ?case using Cons.IH [OF s1(2)] Cons.prems(2) by simp
qed simp

lemma stats_trades_range:
  assumes "stats_trades D stats ts = Some stats'" "st_has_high_low stats"
  shows "st_has_high_low stats' \<and> st_low stats' \<le> st_low stats \<and> st_high stats \<le> st_high stats' \<and>
    (\<forall>t \<in> set ts. st_low stats' \<le> rt_price t \<and> rt_price t \<le> st_high stats')"
  using assms
proof (induction ts arbitrary: stats)
  case (Cons t ts)
  then obtain s1 where s1: "stats_trade D stats t = Some s1" "stats_trades D s1 ts = Some stats'"
    by (auto simp: bind_eq_Some_conv)
  then have "st_has_high_low s1" "st_low s1 \<le> st_low stats" "st_high stats \<le> st_high s1"
    "st_low s1 \<le> rt_price t" "rt_price t \<le> st_high s1"
    using Cons.prems(2)
    by (cases "st_high stats < rt_price t"; cases "rt_price t < st_low stats";
        fastforce simp: stats_trade_def bind_eq_Some_conv Let_def)+
  then show ?case using Cons.IH [OF s1(2)] by force
qed simp

end
