(* ===== verification/Engine.thy ===== *)
theory Engine
  imports Market_Data
begin

text \<open>
  The exchange engine (\<open>src/core/exchange/mod.rs\<close>): sessions with their mirrored order records and quote
  pairs, one book per instrument, counters, pending and published market data, and the two fill policies.
  Every operation takes the engine and returns its result with the engine after the call, or \<^const>\<open>None\<close>
  where the code panics. The report sinks of the sessions are outside the engine: \<open>en_sent\<close> is the log of
  the calls of \<open>try_send\<close>, whose results the engine ignores. The calendar day is a parameter \<open>today\<close>.
\<close>

definition QUOTE_ORDER_ID :: order_id where "QUOTE_ORDER_ID = 0"
definition MAX_TIER_FILLS :: nat where "MAX_TIER_FILLS = 256"
definition TIER_CHUNK :: rat where "TIER_CHUNK = 100"

definition tiered_market_price :: rat where
  "tiered_market_price = 6688 / 100"

datatype violation = BookFault tiered_book_error | FillFault tiered_book_error nat

datatype engine_error =
    OrderNotFound
  | OrderIsNotActive
  | DuplicateOrderId order_id
  | InvalidOrderId order_id
  | InvalidQuantity
  | InvalidPrice
  | QuantityBelowCumulated
  | UnknownSymbol string
  | TooManyTierFills
  | QuoteNotSupportedInTiered
  | BookInvariantViolation string int violation

section \<open>The tiered fill plan\<close>

definition tier_max_remaining :: "decimal_ops \<Rightarrow> rat option" where
  "tier_max_remaining D = dec_mul D (of_nat MAX_TIER_FILLS) TIER_CHUNK"

partial_function (option) tier_chunks :: "decimal_ops \<Rightarrow> rat \<Rightarrow> rat list \<Rightarrow> (rat \<times> rat list) option" where
  "tier_chunks D rest plan =
     (if TIER_CHUNK < rest
      then Option.bind (dec_sub D rest TIER_CHUNK) (\<lambda>rest'. tier_chunks D rest' (plan @ [TIER_CHUNK]))
      else Some (rest, plan))"

definition tier_fill_plan :: "decimal_ops \<Rightarrow> rat \<Rightarrow> (engine_error + rat list) option" where
  "tier_fill_plan D remaining =
     (if remaining < 0 then Some (Inl InvalidQuantity)
      else if remaining \<le> TIER_CHUNK then Some (Inr [])
      else if remaining \<le> 1000 then Some (Inr [remaining])
      else if remaining \<le> 2000 then map_option (\<lambda>h. Inr [h]) (dec_div D remaining 2)
      else do {
        limit \<leftarrow> tier_max_remaining D;
        if limit < remaining then Some (Inl TooManyTierFills)
        else do {
          (rest, plan) \<leftarrow> tier_chunks D remaining [];
          Some (Inr (if rest = 0 then plan else plan @ [rest]))
        }
      })"

section \<open>State\<close>

datatype exec_type =
  ExecNew | ExecPartialFill | ExecFill | ExecCancelled | ExecExpired | ExecReplaced | ExecRejected

datatype report =
    Status (rp_order: order) (rp_symbol: string) (rp_cl_ord_id: order_id) (rp_exec_id: string)
      (rp_exec_type: exec_type) (rp_orig: "order_id option")
  | Fill (rp_order: order) (rp_symbol: string) (rp_last_price: rat) (rp_last_quantity: rat)
      (rp_exec_id: string) (rp_orig: "order_id option")

record new_order =
  no_id :: order_id
  no_instrument :: int
  no_side :: side
  no_type :: order_type
  no_price :: rat
  no_quantity :: rat

record quote_pair =
  qp_bid :: "order option"
  qp_ask :: "order option"

record session =
  se_orders :: "(order_id \<times> order) list"
  se_quotes :: "(int \<times> quote_pair) list"

record engine =
  en_instruments :: instrument_map
  en_books :: "int \<Rightarrow> order_book option"
  en_sessions :: "(string \<times> session) list"
  en_next_exchange_id :: int
  en_next_trade_id :: int
  en_next_exec_id :: nat
  en_next_arrival :: nat
  en_sequence :: nat
  en_market_data :: publisher
  en_pending :: "(int \<times> nat) list"
  en_stats :: "int \<Rightarrow> statistics option"
  en_dates :: "((string \<times> order_id) \<times> int) list"
  en_policy :: fill_policy
  en_sent :: "(string \<times> report) list"

definition with_fill_policy :: "fill_policy \<Rightarrow> engine" where
  "with_fill_policy policy =
     \<lparr>en_instruments = im_new, en_books = Map.empty, en_sessions = [], en_next_exchange_id = 0,
      en_next_trade_id = 0, en_next_exec_id = 0, en_next_arrival = 0, en_sequence = 0,
      en_market_data = publisher_new, en_pending = [], en_stats = Map.empty, en_dates = [],
      en_policy = policy, en_sent = []\<rparr>"

definition engine_new :: engine where
  "engine_new = with_fill_policy Real_Fill"

section \<open>Internals\<close>

definition validate_order_id :: "order_id \<Rightarrow> engine_error + unit" where
  "validate_order_id i = (if i \<le> 0 \<or> i = QUOTE_ORDER_ID then Inl (InvalidOrderId i) else Inr ())"

definition validate_order_input :: "order_id \<Rightarrow> order_type \<Rightarrow> rat \<Rightarrow> rat \<Rightarrow> engine_error + unit" where
  "validate_order_input i ty price quantity =
     (case validate_order_id i of
        Inl e \<Rightarrow> Inl e
      | Inr _ \<Rightarrow>
          if quantity \<le> 0 then Inl InvalidQuantity
          else if price < 0 \<or> ty = Limit \<and> price \<le> 0 then Inl InvalidPrice
          else Inr ())"

definition next_exec_id :: "engine \<Rightarrow> string \<times> engine" where
  "next_exec_id e =
     (let n = saturating_inc_u64 (en_next_exec_id e)
      in (''exec.'' @ show_nat n, e\<lparr>en_next_exec_id := n\<rparr>))"

definition symbol_for :: "engine \<Rightarrow> int \<Rightarrow> string" where
  "symbol_for e inst = (case get_by_id (en_instruments e) inst of None \<Rightarrow> [] | Some i \<Rightarrow> in_symbol i)"

definition book_for :: "engine \<Rightarrow> int \<Rightarrow> order_book" where
  "book_for e inst = (case en_books e inst of None \<Rightarrow> ob_new inst | Some b \<Rightarrow> b)"

definition add_to_book ::
  "decimal_ops \<Rightarrow> engine \<Rightarrow> order \<Rightarrow> ((raw_trade list \<times> order option) \<times> engine) option" where
  "add_to_book D e ord = do {
     (r, b) \<leftarrow> ob_add D (book_for e (o_instrument ord)) ord;
     Some (r, e\<lparr>en_books := (en_books e)(o_instrument ord \<mapsto> b)\<rparr>)
   }"

definition remove_from_book ::
  "decimal_ops \<Rightarrow> engine \<Rightarrow> string \<Rightarrow> order_id \<Rightarrow> side \<Rightarrow> rat \<Rightarrow> int
     \<Rightarrow> ((engine_error + order) \<times> engine) option" where
  "remove_from_book D e session i sd price inst =
     (case en_books e inst of
        None \<Rightarrow> Some (Inl OrderNotFound, e)
      | Some b \<Rightarrow> do {
          r \<leftarrow> ob_remove D b session i sd price;
          (case r of
             Inl _ \<Rightarrow> Some (Inl OrderNotFound, e)
           | Inr (ord, b') \<Rightarrow> Some (Inr ord, e\<lparr>en_books := (en_books e)(inst \<mapsto> b')\<rparr>))
        })"

text \<open>The record of an order in its session, read and updated in place.\<close>

definition session_order :: "engine \<Rightarrow> string \<Rightarrow> order_id \<Rightarrow> order option" where
  "session_order e session i =
     (case bt_get (en_sessions e) session of None \<Rightarrow> None | Some s \<Rightarrow> map_of (se_orders s) i)"

definition update_record :: "engine \<Rightarrow> string \<Rightarrow> order_id \<Rightarrow> (order \<Rightarrow> order) \<Rightarrow> engine" where
  "update_record e session i f =
     (case bt_get (en_sessions e) session of
        None \<Rightarrow> e
      | Some s \<Rightarrow>
          (case map_of (se_orders s) i of
             None \<Rightarrow> e
           | Some r \<Rightarrow>
               e\<lparr>en_sessions := bt_insert session (s\<lparr>se_orders := AList.update i (f r) (se_orders s)\<rparr>) (en_sessions e)\<rparr>))"

definition sync_record :: "engine \<Rightarrow> order \<Rightarrow> engine" where
  "sync_record e ord =
     (if o_id ord = QUOTE_ORDER_ID then e else update_record e (o_session ord) (o_id ord) (\<lambda>_. ord))"

definition send :: "engine \<Rightarrow> report \<Rightarrow> engine" where
  "send e r =
     (case bt_get (en_sessions e) (o_session (rp_order r)) of
        None \<Rightarrow> e
      | Some _ \<Rightarrow> e\<lparr>en_sent := en_sent e @ [(o_session (rp_order r), r)]\<rparr>)"

definition send_fill :: "engine \<Rightarrow> order \<Rightarrow> rat \<Rightarrow> rat \<Rightarrow> engine" where
  "send_fill e ord last_price last_quantity =
     (let e = (if o_id ord = QUOTE_ORDER_ID then e
               else update_record e (o_session ord) (o_id ord)
                 (\<lambda>r. r\<lparr>o_remaining := o_remaining ord, o_cum := o_cum ord, o_avg := o_avg ord, o_state := o_state ord\<rparr>));
          symbol = symbol_for e (o_instrument ord);
          (exec_id, e) = next_exec_id e
      in send e (Fill ord symbol last_price last_quantity exec_id None))"

definition send_status_for :: "engine \<Rightarrow> order \<Rightarrow> order_id \<Rightarrow> exec_type \<Rightarrow> order_id option \<Rightarrow> engine" where
  "send_status_for e ord cl_ord_id ty orig =
     (let symbol = symbol_for e (o_instrument ord);
          (exec_id, e) = next_exec_id e
      in send e (Status ord symbol cl_ord_id exec_id ty orig))"

definition send_status :: "engine \<Rightarrow> order \<Rightarrow> engine" where
  "send_status e ord =
     (let ty = (case o_state ord of Cancelled \<Rightarrow> ExecCancelled | Rejected \<Rightarrow> ExecRejected | _ \<Rightarrow> ExecNew)
      in send_status_for e ord (o_id ord) ty None)"

text \<open>
  Each trade of the batch is stamped with the shared trade number and reported to both sides.
\<close>

fun send_trades :: "engine \<Rightarrow> raw_trade list \<Rightarrow> engine" where
  "send_trades e [] = e"
| "send_trades e (t # ts) =
     send_trades (send_fill (send_fill e (rt_buyer t) (rt_price t) (rt_quantity t))
       (rt_seller t) (rt_price t) (rt_quantity t)) ts"

definition send_trade_reports :: "engine \<Rightarrow> raw_trade list \<Rightarrow> raw_trade list \<times> engine" where
  "send_trade_reports e trades =
     (if trades = [] then (trades, e)
      else let trade_id = wrap_i64 (en_next_trade_id e + 1);
               e = e\<lparr>en_next_trade_id := trade_id\<rparr>;
               trades = map (\<lambda>t. t\<lparr>rt_trade_id := trade_id\<rparr>) trades
           in (trades, send_trades e trades))"

section \<open>Market data\<close>

definition record_market_data :: "decimal_ops \<Rightarrow> engine \<Rightarrow> int \<Rightarrow> raw_trade list \<Rightarrow> engine option" where
  "record_market_data D e inst trades = do {
     let sequence = wrap_u64 (en_sequence e + 1);
     let e = e\<lparr>en_sequence := sequence, en_pending := AList.update inst sequence (en_pending e)\<rparr>;
     let stats = (case en_stats e inst of None \<Rightarrow> statistics_default (symbol_for e inst) | Some s \<Rightarrow> s);
     stats \<leftarrow> stats_trades D stats trades;
     Some (e\<lparr>en_stats := (en_stats e)(inst \<mapsto> stats)\<rparr>)
   }"

definition publish_one :: "engine \<Rightarrow> int \<times> nat \<Rightarrow> engine option" where
  "publish_one e p = do {
     let inst = fst p;
     let b = book_for e inst;
     let e = e\<lparr>en_books := (en_books e)(inst \<mapsto> b)\<rparr>;
     let bk = (ob_build_book b)\<lparr>bk_sequence := snd p\<rparr>;
     stats \<leftarrow> en_stats e inst;
     let stats = stats_top stats bk;
     pb \<leftarrow> md_publish (en_market_data e) bk stats;
     Some (e\<lparr>en_stats := (en_stats e)(inst \<mapsto> stats), en_market_data := pb\<rparr>)
   }"

fun publish_all :: "engine \<Rightarrow> (int \<times> nat) list \<Rightarrow> engine option" where
  "publish_all e [] = Some e"
| "publish_all e (p # ps) = do { e \<leftarrow> publish_one e p; publish_all e ps }"

definition publish_market_data :: "engine \<Rightarrow> engine option" where
  "publish_market_data e = publish_all (e\<lparr>en_pending := []\<rparr>) (en_pending e)"

end
