(* ===== verification/Engine_Ops.thy ===== *)
theory Engine_Ops
  imports Engine
begin

text \<open>
  The public operations of the engine (\<open>src/core/exchange/mod.rs\<close>): instruments and sessions, creating,
  replacing and cancelling orders, quoting, expiry of day orders, disconnection, and the reads. The result
  of a fallible operation is an engine error or its value; the engine after the call is returned in both
  cases, since an error after a book fault leaves changes behind.
\<close>

section \<open>Instruments and sessions\<close>

definition load_instruments :: "engine \<Rightarrow> (unit + string) list \<Rightarrow> (load_error + unit) \<times> engine" where
  "load_instruments e ls =
     (case load_from_reader (en_instruments e) ls of
        (Inl err, m) \<Rightarrow> (Inl err, e\<lparr>en_instruments := m\<rparr>)
      | (Inr u, m) \<Rightarrow>
          (Inr u, e\<lparr>en_instruments := m,
                    en_market_data := md_register (en_market_data e)
                      (List.map_filter (get_by_symbol m) (all_symbols m))\<rparr>))"

definition create_instrument :: "engine \<Rightarrow> string \<Rightarrow> int \<times> engine" where
  "create_instrument e symb =
     (case get_by_symbol (en_instruments e) symb of
        Some i \<Rightarrow> (in_id i, e)
      | None \<Rightarrow>
          let (i, m) = im_next_id (en_instruments e);
              ins = instrument_new i symb
          in (i, e\<lparr>en_instruments := im_put m ins,
                   en_market_data := md_register (en_market_data e) [ins]\<rparr>))"

definition register_session :: "engine \<Rightarrow> string \<Rightarrow> engine" where
  "register_session e session =
     e\<lparr>en_sessions := bt_insert session \<lparr>se_orders = [], se_quotes = []\<rparr> (en_sessions e)\<rparr>"

definition session_ids :: "engine \<Rightarrow> string list" where
  "session_ids e = map fst (en_sessions e)"

fun disconnect_orders :: "decimal_ops \<Rightarrow> string \<Rightarrow> engine \<Rightarrow> (order_id \<times> order) list \<Rightarrow> engine option" where
  "disconnect_orders D session e [] = Some e"
| "disconnect_orders D session e ((i, entry) # es) = do {
     (_, e) \<leftarrow> remove_from_book D e session i (o_side entry) (o_price entry) (o_instrument entry);
     e \<leftarrow> record_market_data D e (o_instrument entry) [];
     disconnect_orders D session e es
   }"

text \<open>Take an optional quote leg out of the book, whether it still rests there or not.\<close>

definition drop_leg :: "decimal_ops \<Rightarrow> string \<Rightarrow> int \<Rightarrow> engine \<Rightarrow> order option \<Rightarrow> engine option" where
  "drop_leg D session inst e leg =
     (case leg of
        None \<Rightarrow> Some e
      | Some ord \<Rightarrow> map_option snd (remove_from_book D e session (o_id ord) (o_side ord) (o_price ord) inst))"

definition drop_pair :: "decimal_ops \<Rightarrow> string \<Rightarrow> int \<Rightarrow> engine \<Rightarrow> quote_pair \<Rightarrow> engine option" where
  "drop_pair D session inst e pair = do {
     e \<leftarrow> drop_leg D session inst e (qp_bid pair);
     drop_leg D session inst e (qp_ask pair)
   }"

fun disconnect_quotes :: "decimal_ops \<Rightarrow> string \<Rightarrow> engine \<Rightarrow> (int \<times> quote_pair) list \<Rightarrow> engine option" where
  "disconnect_quotes D session e [] = Some e"
| "disconnect_quotes D session e ((inst, pair) # qs) = do {
     e \<leftarrow> drop_pair D session inst e pair;
     e \<leftarrow> record_market_data D e inst [];
     disconnect_quotes D session e qs
   }"

definition session_disconnect :: "decimal_ops \<Rightarrow> engine \<Rightarrow> string \<Rightarrow> engine option" where
  "session_disconnect D e session =
     (case bt_get (en_sessions e) session of
        None \<Rightarrow> Some e
      | Some s \<Rightarrow> do {
          let e = e\<lparr>en_sessions := bt_remove session (en_sessions e),
                    en_dates := filter (\<lambda>d. fst (fst d) \<noteq> session) (en_dates e)\<rparr>;
          e \<leftarrow> disconnect_orders D session e (se_orders s);
          e \<leftarrow> disconnect_quotes D session e (se_quotes s);
          publish_market_data e
        })"

section \<open>Orders\<close>

fun expire_orders :: "decimal_ops \<Rightarrow> engine \<Rightarrow> (string \<times> order_id) list \<Rightarrow> engine option" where
  "expire_orders D e [] = Some e"
| "expire_orders D e ((session, i) # ks) = do {
     let e = e\<lparr>en_dates := AList.delete (session, i) (en_dates e)\<rparr>;
     (case session_order e session i of
        None \<Rightarrow> expire_orders D e ks
      | Some ord \<Rightarrow>
          if \<not> is_active (o_state ord) then expire_orders D e ks
          else do {
            (_, e) \<leftarrow> remove_from_book D e session i (o_side ord) (o_price ord) (o_instrument ord);
            let ord = ord\<lparr>o_state := Expired, o_remaining := 0\<rparr>;
            let e = sync_record e ord;
            e \<leftarrow> record_market_data D e (o_instrument ord) [];
            expire_orders D (send_status_for e ord i ExecExpired None) ks
          })
   }"

definition expire_day_orders_at :: "decimal_ops \<Rightarrow> engine \<Rightarrow> int \<Rightarrow> engine option" where
  "expire_day_orders_at D e today = do {
     let expired = map fst (filter (\<lambda>d. snd d < today) (en_dates e));
     e \<leftarrow> expire_orders D e expired;
     publish_market_data e
   }"

definition tiered_insert ::
  "decimal_ops \<Rightarrow> engine \<Rightarrow> string \<Rightarrow> int \<Rightarrow> order \<Rightarrow> ((engine_error + order) \<times> engine) option" where
  "tiered_insert D e session inst ord = do {
     let b = book_for e inst;
     let e = e\<lparr>en_books := (en_books e)(inst \<mapsto> b)\<rparr>;
     r \<leftarrow> ob_insert_only D b ord;
     (case r of
        Inl err \<Rightarrow> Some (Inl (BookInvariantViolation session inst (BookFault err)), e)
      | Inr (snapshot, b) \<Rightarrow>
          Some (Inr snapshot, sync_record (e\<lparr>en_books := (en_books e)(inst \<mapsto> b)\<rparr>) snapshot))
   }"

fun tiered_fills ::
  "decimal_ops \<Rightarrow> engine \<Rightarrow> string \<Rightarrow> int \<Rightarrow> order \<Rightarrow> nat \<Rightarrow> rat list \<Rightarrow> ((engine_error + unit) \<times> engine) option" where
  "tiered_fills D e session inst ord index [] = Some (Inr (), e)"
| "tiered_fills D e session inst ord index (chunk # plan) =
     (case en_books e inst of
        None \<Rightarrow> Some (Inl (BookInvariantViolation session inst (BookFault TieredOrderNotFound)), e)
      | Some b \<Rightarrow> do {
          r \<leftarrow> ob_execute D b session (o_id ord) (o_side ord) (o_price ord) chunk (o_price ord);
          (case r of
             Inl err \<Rightarrow> Some (Inl (BookInvariantViolation session inst (FillFault err index)), e)
           | Inr (fl, b) \<Rightarrow>
               tiered_fills D (send_fill (e\<lparr>en_books := (en_books e)(inst \<mapsto> b)\<rparr>) fl (o_price ord) chunk)
                 session inst ord (index + 1) plan)
        })"

definition tiered_fill_existing ::
  "decimal_ops \<Rightarrow> engine \<Rightarrow> string \<Rightarrow> int \<Rightarrow> order \<Rightarrow> rat list \<Rightarrow> ((engine_error + unit) \<times> engine) option" where
  "tiered_fill_existing D e session inst ord plan = tiered_fills D e session inst ord 0 plan"

text \<open>The bounded plan, computed before any change in tiered mode.\<close>

definition tiered_plan :: "decimal_ops \<Rightarrow> engine \<Rightarrow> rat \<Rightarrow> (engine_error + rat list) option" where
  "tiered_plan D e quantity =
     (case en_policy e of Real_Fill \<Rightarrow> Some (Inr []) | Tiered_Fill \<Rightarrow> tier_fill_plan D quantity)"

definition put_record :: "engine \<Rightarrow> string \<Rightarrow> session \<Rightarrow> order \<Rightarrow> engine" where
  "put_record e session s ord =
     e\<lparr>en_sessions := bt_insert session (s\<lparr>se_orders := AList.update (o_id ord) ord (se_orders s)\<rparr>) (en_sessions e)\<rparr>"

definition create_in_book ::
  "decimal_ops \<Rightarrow> engine \<Rightarrow> string \<Rightarrow> new_order \<Rightarrow> order \<Rightarrow> rat list \<Rightarrow> ((engine_error + order_id) \<times> engine) option" where
  "create_in_book D e session new ord plan =
     (case en_policy e of
        Real_Fill \<Rightarrow> do {
          ((trades, final_state), e) \<leftarrow> add_to_book D e ord;
          e \<leftarrow> record_market_data D e (no_instrument new) trades;
          e \<leftarrow> publish_market_data e;
          let (trades, e) = send_trade_reports e trades;
          (case final_state of
             None \<Rightarrow> Some (Inr (no_id new), e)
           | Some final_order \<Rightarrow> do {
               let e = sync_record e final_order;
               let remainder_cancelled = (o_state final_order = Cancelled \<and> no_type new = Market);
               Some (Inr (no_id new),
                 if trades = [] \<or> remainder_cancelled then send_status e final_order else e)
             })
        }
      | Tiered_Fill \<Rightarrow> do {
          (r, e) \<leftarrow> tiered_insert D e session (no_instrument new) ord;
          (case r of
             Inl err \<Rightarrow> do {
               e \<leftarrow> record_market_data D e (no_instrument new) [];
               e \<leftarrow> publish_market_data e;
               Some (Inl err, e)
             }
           | Inr snapshot \<Rightarrow> do {
               let e = send_status e snapshot;
               (result, e) \<leftarrow> tiered_fill_existing D e session (no_instrument new) snapshot plan;
               e \<leftarrow> record_market_data D e (no_instrument new) [];
               e \<leftarrow> publish_market_data e;
               Some (case result of Inl err \<Rightarrow> Inl err | Inr _ \<Rightarrow> Inr (no_id new), e)
             })
        })"

definition build_order :: "engine \<Rightarrow> string \<Rightarrow> new_order \<Rightarrow> order" where
  "build_order e session new =
     (let ord = (case no_type new of
                   Limit \<Rightarrow> order_limit session (no_id new) (no_instrument new) (no_side new) (no_price new)
                              (no_quantity new) (en_next_arrival e)
                 | Market \<Rightarrow> order_market session (no_id new) (no_instrument new) (no_side new)
                              (no_quantity new) (en_next_arrival e));
          ord = ord\<lparr>o_exchange_id := show_int (en_next_exchange_id e)\<rparr>
      in if en_policy e = Tiered_Fill \<and> o_type ord = Market then ord\<lparr>o_price := tiered_market_price\<rparr> else ord)"

text \<open>Counters, session record and date of a new order that passed validation.\<close>

definition stage_order :: "int \<Rightarrow> engine \<Rightarrow> string \<Rightarrow> session \<Rightarrow> new_order \<Rightarrow> order \<times> engine" where
  "stage_order today e session s new =
     (let e = e\<lparr>en_next_exchange_id := wrap_i32 (en_next_exchange_id e + 1),
                en_next_arrival := wrap_u64 (en_next_arrival e + 1)\<rparr>;
          ord = build_order e session new;
          e = put_record e session s ord
      in (ord, e\<lparr>en_dates := AList.update (session, o_id ord) today (en_dates e)\<rparr>))"

definition create_order ::
  "decimal_ops \<Rightarrow> int \<Rightarrow> engine \<Rightarrow> string \<Rightarrow> new_order \<Rightarrow> ((engine_error + order_id) \<times> engine) option" where
  "create_order D today e session new =
     (if get_by_id (en_instruments e) (no_instrument new) = None
      then Some (Inl (UnknownSymbol (show_int (no_instrument new))), e)
      else case validate_order_input (no_id new) (no_type new) (no_price new) (no_quantity new) of
        Inl err \<Rightarrow> Some (Inl err, e)
      | Inr _ \<Rightarrow>
          (case bt_get (en_sessions e) session of
             None \<Rightarrow> Some (Inl OrderNotFound, e)
           | Some s \<Rightarrow>
               if map_of (se_orders s) (no_id new) \<noteq> None then Some (Inl (DuplicateOrderId (no_id new)), e)
               else do {
                 p \<leftarrow> tiered_plan D e (no_quantity new);
                 (case p of
                    Inl err \<Rightarrow> Some (Inl err, e)
                  | Inr plan \<Rightarrow> do {
                      let (ord, e) = stage_order today e session s new;
                      create_in_book D e session new ord plan
                    })
               }))"

text \<open>The replacement order of a cancel/replace request.\<close>

definition replacement :: "fill_policy \<Rightarrow> order \<Rightarrow> order_id \<Rightarrow> order_type \<Rightarrow> rat \<Rightarrow> rat \<Rightarrow> rat \<Rightarrow> nat \<Rightarrow> order" where
  "replacement policy entry new_id ty price quantity remaining arrival =
     entry\<lparr>o_id := new_id, o_type := ty,
           o_price := (if policy = Tiered_Fill \<and> ty = Market then tiered_market_price else price),
           o_quantity := quantity, o_remaining := remaining,
           o_state := (if remaining = 0 then Filled else if o_cum entry \<noteq> 0 then PartialFill else Booked),
           o_arrival := arrival\<rparr>"

definition swap_record :: "engine \<Rightarrow> int \<Rightarrow> string \<Rightarrow> session \<Rightarrow> order_id \<Rightarrow> order \<Rightarrow> engine" where
  "swap_record e today session s orig_id ord =
     (let s = s\<lparr>se_orders := AList.update (o_id ord) ord (AList.delete orig_id (se_orders s))\<rparr>
      in e\<lparr>en_sessions := bt_insert session s (en_sessions e),
           en_dates := AList.update (session, o_id ord) today (AList.delete (session, orig_id) (en_dates e))\<rparr>)"

definition replace_in_book ::
  "decimal_ops \<Rightarrow> engine \<Rightarrow> string \<Rightarrow> order_id \<Rightarrow> order \<Rightarrow> rat list \<Rightarrow> ((engine_error + unit) \<times> engine) option" where
  "replace_in_book D e session orig_id ord plan =
     (let inst = o_instrument ord
      in case en_policy e of
        Real_Fill \<Rightarrow> do {
          let e = send_status_for e ord (o_id ord) ExecReplaced (Some orig_id);
          if o_remaining ord = 0
          then do { e \<leftarrow> publish_market_data e; Some (Inr (), e) }
          else do {
            ((trades, final_state), e) \<leftarrow> add_to_book D e ord;
            e \<leftarrow> record_market_data D e inst trades;
            e \<leftarrow> publish_market_data e;
            let (trades, e) = send_trade_reports e trades;
            Some (Inr (), case final_state of None \<Rightarrow> e | Some final_order \<Rightarrow> sync_record e final_order)
          }
        }
      | Tiered_Fill \<Rightarrow>
          if o_remaining ord = 0
          then do {
            let e = send_status_for e ord (o_id ord) ExecReplaced (Some orig_id);
            e \<leftarrow> publish_market_data e;
            Some (Inr (), e)
          }
          else do {
            (r, e) \<leftarrow> tiered_insert D e session inst ord;
            (case r of
               Inl err \<Rightarrow> do {
                 e \<leftarrow> record_market_data D e inst [];
                 e \<leftarrow> publish_market_data e;
                 Some (Inl err, e)
               }
             | Inr snapshot \<Rightarrow> do {
                 let e = send_status_for e ord (o_id ord) ExecReplaced (Some orig_id);
                 (result, e) \<leftarrow> tiered_fill_existing D e session inst snapshot plan;
                 e \<leftarrow> record_market_data D e inst [];
                 e \<leftarrow> publish_market_data e;
                 Some (result, e)
               })
          })"

definition modify_order_with_type ::
  "decimal_ops \<Rightarrow> int \<Rightarrow> engine \<Rightarrow> string \<Rightarrow> order_id \<Rightarrow> order_id \<Rightarrow> order_type \<Rightarrow> rat \<Rightarrow> rat
     \<Rightarrow> ((engine_error + unit) \<times> engine) option" where
  "modify_order_with_type D today e session orig_id new_id ty price quantity =
     (case bt_get (en_sessions e) session of
        None \<Rightarrow> Some (Inl OrderNotFound, e)
      | Some s \<Rightarrow>
        (case map_of (se_orders s) orig_id of
           None \<Rightarrow> Some (Inl OrderNotFound, e)
         | Some entry \<Rightarrow>
           if \<not> is_active (o_state entry) then Some (Inl OrderIsNotActive, e)
           else case validate_order_input new_id ty price quantity of
             Inl err \<Rightarrow> Some (Inl err, e)
           | Inr _ \<Rightarrow>
             if quantity < o_cum entry then Some (Inl QuantityBelowCumulated, e)
             else if new_id \<noteq> orig_id \<and> map_of (se_orders s) new_id \<noteq> None
             then Some (Inl (DuplicateOrderId new_id), e)
             else do {
               p \<leftarrow> (case en_policy e of
                      Real_Fill \<Rightarrow> Some (Inr [])
                    | Tiered_Fill \<Rightarrow> do { rest \<leftarrow> dec_sub D quantity (o_cum entry); tier_fill_plan D rest });
               (case p of
                  Inl err \<Rightarrow> Some (Inl err, e)
                | Inr plan \<Rightarrow> do {
                    (r, e) \<leftarrow> remove_from_book D e session orig_id (o_side entry) (o_price entry) (o_instrument entry);
                    (case r of
                       Inl _ \<Rightarrow> Some (Inr (), send_status e entry)
                     | Inr _ \<Rightarrow> do {
                         e \<leftarrow> record_market_data D e (o_instrument entry) [];
                         let e = e\<lparr>en_next_arrival := wrap_u64 (en_next_arrival e + 1)\<rparr>;
                         remaining \<leftarrow> dec_sub D quantity (o_cum entry);
                         let ord = replacement (en_policy e) entry new_id ty price quantity remaining (en_next_arrival e);
                         replace_in_book D (swap_record e today session s orig_id ord) session orig_id ord plan
                       })
                  })
             }))"

definition modify_order ::
  "decimal_ops \<Rightarrow> int \<Rightarrow> engine \<Rightarrow> string \<Rightarrow> order_id \<Rightarrow> order_id \<Rightarrow> rat \<Rightarrow> rat
     \<Rightarrow> ((engine_error + unit) \<times> engine) option" where
  "modify_order D today e session orig_id new_id price quantity =
     (case session_order e session orig_id of
        None \<Rightarrow> Some (Inl OrderNotFound, e)
      | Some entry \<Rightarrow> modify_order_with_type D today e session orig_id new_id (o_type entry) price quantity)"

definition cancel_order_with_id ::
  "decimal_ops \<Rightarrow> engine \<Rightarrow> string \<Rightarrow> order_id \<Rightarrow> order_id \<Rightarrow> ((engine_error + unit) \<times> engine) option" where
  "cancel_order_with_id D e session orig_id cl_ord_id =
     (case validate_order_id cl_ord_id of
        Inl err \<Rightarrow> Some (Inl err, e)
      | Inr _ \<Rightarrow>
        (case bt_get (en_sessions e) session of
           None \<Rightarrow> Some (Inl OrderNotFound, e)
         | Some s \<Rightarrow>
           (case map_of (se_orders s) orig_id of
              None \<Rightarrow> Some (Inl OrderNotFound, e)
            | Some entry \<Rightarrow>
              if cl_ord_id \<noteq> orig_id \<and> map_of (se_orders s) cl_ord_id \<noteq> None
              then Some (Inl (DuplicateOrderId cl_ord_id), e)
              else if \<not> is_active (o_state entry) then Some (Inl OrderIsNotActive, e)
              else do {
                (r, e) \<leftarrow> remove_from_book D e session orig_id (o_side entry) (o_price entry) (o_instrument entry);
                (case r of
                   Inl err \<Rightarrow> Some (Inl err, e)
                 | Inr removed \<Rightarrow> do {
                     let removed = cancelled removed;
                     let e = e\<lparr>en_sessions := bt_insert session
                               (s\<lparr>se_orders := AList.update orig_id removed (se_orders s)\<rparr>) (en_sessions e)\<rparr>;
                     e \<leftarrow> record_market_data D e (o_instrument removed) [];
                     e \<leftarrow> publish_market_data e;
                     Some (Inr (), send_status_for e removed cl_ord_id ExecCancelled (Some orig_id))
                   })
              })))"

definition cancel_order ::
  "decimal_ops \<Rightarrow> engine \<Rightarrow> string \<Rightarrow> order_id \<Rightarrow> ((engine_error + unit) \<times> engine) option" where
  "cancel_order D e session i = cancel_order_with_id D e session i i"

section \<open>Quotes\<close>

text \<open>One leg of a new quote: the leg that is recorded, its trades, and the engine after it.\<close>

definition quote_leg ::
  "decimal_ops \<Rightarrow> engine \<Rightarrow> string \<Rightarrow> int \<Rightarrow> rat \<Rightarrow> rat \<Rightarrow> side \<Rightarrow> string
     \<Rightarrow> ((order option \<times> raw_trade list) \<times> engine) option" where
  "quote_leg D e session inst price quantity sd exchange_id =
     (if price = 0 then Some ((None, []), e)
      else do {
        let e = e\<lparr>en_next_exchange_id := wrap_i32 (en_next_exchange_id e + 1),
                  en_next_arrival := wrap_u64 (en_next_arrival e + 1)\<rparr>;
        let ord = (order_limit session QUOTE_ORDER_ID inst sd price quantity (en_next_arrival e))
                    \<lparr>o_exchange_id := exchange_id\<rparr>;
        ((trades, _), e) \<leftarrow> add_to_book D e ord;
        Some ((Some ord, trades), e)
      })"

definition quote ::
  "decimal_ops \<Rightarrow> engine \<Rightarrow> string \<Rightarrow> int \<Rightarrow> rat \<Rightarrow> rat \<Rightarrow> rat \<Rightarrow> rat \<Rightarrow> ((engine_error + unit) \<times> engine) option" where
  "quote D e session inst bid_price bid_quantity ask_price ask_quantity =
     (if en_policy e = Tiered_Fill then Some (Inl QuoteNotSupportedInTiered, e)
      else if get_by_id (en_instruments e) inst = None then Some (Inl (UnknownSymbol (show_int inst)), e)
      else if bid_price \<noteq> 0 \<and> bid_quantity \<le> 0 then Some (Inl InvalidQuantity, e)
      else if ask_price \<noteq> 0 \<and> ask_quantity \<le> 0 then Some (Inl InvalidQuantity, e)
      else if bid_price < 0 \<or> ask_price < 0 then Some (Inl InvalidPrice, e)
      else case bt_get (en_sessions e) session of
        None \<Rightarrow> Some (Inl OrderNotFound, e)
      | Some s \<Rightarrow> do {
          let old = (case map_of (se_quotes s) inst of None \<Rightarrow> \<lparr>qp_bid = None, qp_ask = None\<rparr> | Some q \<Rightarrow> q);
          let s = s\<lparr>se_quotes := AList.delete inst (se_quotes s)\<rparr>;
          let e = e\<lparr>en_sessions := bt_insert session s (en_sessions e)\<rparr>;
          e \<leftarrow> drop_pair D session inst e old;
          ((bid, bid_trades), e) \<leftarrow> quote_leg D e session inst bid_price bid_quantity Buy (''quote.bid.'' @ show_int inst);
          ((ask, ask_trades), e) \<leftarrow> quote_leg D e session inst ask_price ask_quantity Sell (''quote.ask.'' @ show_int inst);
          let all_trades = bid_trades @ ask_trades;
          let pair = \<lparr>qp_bid = bid, qp_ask = ask\<rparr>;
          let e = e\<lparr>en_sessions := bt_insert session (s\<lparr>se_quotes := AList.update inst pair (se_quotes s)\<rparr>) (en_sessions e)\<rparr>;
          e \<leftarrow> record_market_data D e inst all_trades;
          e \<leftarrow> publish_market_data e;
          Some (Inr (), snd (send_trade_reports e all_trades))
        })"

section \<open>Reads\<close>

definition engine_book :: "engine \<Rightarrow> string \<Rightarrow> book option" where
  "engine_book e symb =
     (case get_by_symbol (en_instruments e) symb of
        None \<Rightarrow> None
      | Some i \<Rightarrow>
          (case md_snapshot (en_market_data e) (in_id i) of
             None \<Rightarrow> None
           | Some sn \<Rightarrow> if sn_version sn \<noteq> 0 then Some (sn_book sn) else None))"

definition engine_statistics :: "engine \<Rightarrow> string \<Rightarrow> statistics option" where
  "engine_statistics e symb =
     (case get_by_symbol (en_instruments e) symb of None \<Rightarrow> None | Some i \<Rightarrow> en_stats e (in_id i))"

end
