(* ===== verification/Engine_Cases.thy ===== *)
theory Engine_Cases
  imports Engine_Ops
begin

text \<open>
  Case analysis of the public operations: a request is either rejected by a check, with the engine as it
  was, or accepted, and then the facts its checks established are at hand. The case rules carry the
  proofs about the engine, none of which unfolds the checks again.
\<close>

fun is_violation :: "engine_error \<Rightarrow> bool" where
  "is_violation (BookInvariantViolation _ _ _) = True"
| "is_violation _ = False"

lemma tier_fill_plan_error: "tier_fill_plan D q = Some (Inl err) \<Longrightarrow> \<not> is_violation err"
  by (auto simp: tier_fill_plan_def rust_bind map_option_case)

lemma tiered_plan_error: "tiered_plan D e q = Some (Inl err) \<Longrightarrow> \<not> is_violation err"
  by (auto simp: tiered_plan_def split: fill_policy.splits dest: tier_fill_plan_error)

lemma validate_id_error: "validate_order_id i = Inl err \<Longrightarrow> \<not> is_violation err"
  by (auto simp: validate_order_id_def split: if_splits)

lemma validate_input_error: "validate_order_input i ty p q = Inl err \<Longrightarrow> \<not> is_violation err"
  by (auto simp: validate_order_input_def split: sum.splits if_splits dest: validate_id_error)

lemma create_order_cases:
  assumes "create_order D today e session new = Some (r, e')"
  obtains (rejected) err where "r = Inl err" "e' = e" "\<not> is_violation err"
  | (accepted) s plan ord e1 where "get_by_id (en_instruments e) (no_instrument new) \<noteq> None"
      "validate_order_input (no_id new) (no_type new) (no_price new) (no_quantity new) = Inr ()"
      "bt_get (en_sessions e) session = Some s" "map_of (se_orders s) (no_id new) = None"
      "tiered_plan D e (no_quantity new) = Some (Inr plan)" "stage_order today e session s new = (ord, e1)"
      "create_in_book D e1 session new ord plan = Some (r, e')"
  using assms unfolding create_order_def
  by (auto simp: rust_bind Let_def dest: validate_input_error tiered_plan_error)

text \<open>The bounded plan a replacement is checked against.\<close>

definition replace_plan :: "decimal_ops \<Rightarrow> engine \<Rightarrow> order \<Rightarrow> rat \<Rightarrow> (engine_error + rat list) option" where
  "replace_plan D e entry quantity =
     (case en_policy e of
        Real_Fill \<Rightarrow> Some (Inr [])
      | Tiered_Fill \<Rightarrow> do { rest \<leftarrow> dec_sub D quantity (o_cum entry); tier_fill_plan D rest })"

lemma replace_plan_error: "replace_plan D e entry q = Some (Inl err) \<Longrightarrow> \<not> is_violation err"
  by (auto simp: replace_plan_def rust_bind split: fill_policy.splits dest: tier_fill_plan_error)

lemma modify_order_cases:
  assumes "modify_order_with_type D today e session orig_id new_id ty price quantity = Some (r, e')"
  obtains (rejected) err where "r = Inl err" "e' = e" "\<not> is_violation err"
  | (missing) s entry x where "bt_get (en_sessions e) session = Some s" "map_of (se_orders s) orig_id = Some entry"
      "is_active (o_state entry)"
      "remove_from_book D e session orig_id (o_side entry) (o_price entry) (o_instrument entry) = Some (Inl x, e)"
      "r = Inr ()" "e' = send_status e entry"
  | (replaced) s entry plan removed e1 e2 remaining ord where
      "bt_get (en_sessions e) session = Some s" "map_of (se_orders s) orig_id = Some entry"
      "is_active (o_state entry)" "validate_order_input new_id ty price quantity = Inr ()"
      "o_cum entry \<le> quantity" "new_id = orig_id \<or> map_of (se_orders s) new_id = None"
      "replace_plan D e entry quantity = Some (Inr plan)"
      "remove_from_book D e session orig_id (o_side entry) (o_price entry) (o_instrument entry) = Some (Inr removed, e1)"
      "record_market_data D e1 (o_instrument entry) [] = Some e2" "dec_sub D quantity (o_cum entry) = Some remaining"
      "ord = replacement (en_policy e2) entry new_id ty price quantity remaining (wrap_u64 (en_next_arrival e2 + 1))"
      "replace_in_book D (swap_record (e2\<lparr>en_next_arrival := wrap_u64 (en_next_arrival e2 + 1)\<rparr>) today session s orig_id ord)
         session orig_id ord plan = Some (r, e')"
proof -
  have missing': thesis
    if "bt_get (en_sessions e) session = Some s" "map_of (se_orders s) orig_id = Some entry"
      "is_active (o_state entry)"
      "remove_from_book D e session orig_id (o_side entry) (o_price entry) (o_instrument entry) = Some (Inl x, e1)"
      "r = Inr ()" "e' = send_status e1 entry" for s entry x e1
  proof -
    have "e1 = e" using that(4) by (auto simp: remove_from_book_def rust_bind)
    then show thesis using missing that by blast
  qed
  show thesis
    using assms unfolding modify_order_with_type_def replace_plan_def [symmetric]
    by (auto simp: rust_bind Let_def not_less dest: validate_input_error replace_plan_error
        intro: rejected missing' replaced)
qed

lemma cancel_order_cases:
  assumes "cancel_order_with_id D e session orig_id cl = Some (r, e')"
  obtains (rejected) err where "r = Inl err" "e' = e" "\<not> is_violation err"
  | (cancelled) s entry removed e1 e2 e3 where
      "bt_get (en_sessions e) session = Some s" "map_of (se_orders s) orig_id = Some entry"
      "is_active (o_state entry)"
      "remove_from_book D e session orig_id (o_side entry) (o_price entry) (o_instrument entry) = Some (Inr removed, e1)"
      "record_market_data D (e1\<lparr>en_sessions := bt_insert session
         (s\<lparr>se_orders := AList.update orig_id (cancelled removed) (se_orders s)\<rparr>) (en_sessions e1)\<rparr>)
         (o_instrument (cancelled removed)) [] = Some e2"
      "publish_market_data e2 = Some e3" "r = Inr ()"
      "e' = send_status_for e3 (cancelled removed) cl ExecCancelled (Some orig_id)"
proof -
  have err: "x = OrderNotFound \<and> e1 = e"
    if "remove_from_book D e s i sd p inst = Some (Inl x, e1)" for s i sd p inst x e1
    using that by (auto simp: remove_from_book_def rust_bind)
  show thesis
    using assms unfolding cancel_order_with_id_def
    by (auto simp: rust_bind Let_def dest: err validate_id_error intro: rejected cancelled)
qed

definition quotes_of :: "session \<Rightarrow> int \<Rightarrow> quote_pair" where
  "quotes_of s inst = (case map_of (se_quotes s) inst of None \<Rightarrow> \<lparr>qp_bid = None, qp_ask = None\<rparr> | Some q \<Rightarrow> q)"

lemma quote_cases:
  assumes "quote D e session inst bp bq ap aq = Some (r, e')"
  obtains (rejected) err where "r = Inl err" "e' = e" "\<not> is_violation err"
  | (quoted) s s' e1 e2 e3 e4 e5 bid ask bts ats where "en_policy e = Real_Fill"
      "get_by_id (en_instruments e) inst \<noteq> None" "bp = 0 \<or> 0 < bp \<and> 0 < bq" "ap = 0 \<or> 0 < ap \<and> 0 < aq"
      "bt_get (en_sessions e) session = Some s" "s' = s\<lparr>se_quotes := AList.delete inst (se_quotes s)\<rparr>"
      "drop_pair D session inst (e\<lparr>en_sessions := bt_insert session s' (en_sessions e)\<rparr>) (quotes_of s inst) = Some e1"
      "quote_leg D e1 session inst bp bq Buy (''quote.bid.'' @ show_int inst) = Some ((bid, bts), e2)"
      "quote_leg D e2 session inst ap aq Sell (''quote.ask.'' @ show_int inst) = Some ((ask, ats), e3)"
      "record_market_data D (e3\<lparr>en_sessions := bt_insert session
         (s'\<lparr>se_quotes := AList.update inst \<lparr>qp_bid = bid, qp_ask = ask\<rparr> (se_quotes s')\<rparr>) (en_sessions e3)\<rparr>)
         inst (bts @ ats) = Some e4"
      "publish_market_data e4 = Some e5" "r = Inr ()" "e' = snd (send_trade_reports e5 (bts @ ats))"
proof -
  have pol: "en_policy e \<noteq> Tiered_Fill \<longleftrightarrow> en_policy e = Real_Fill" by (cases "en_policy e") auto
  show thesis
    using assms unfolding quote_def quotes_of_def [symmetric]
    by (auto simp: rust_bind Let_def not_le not_less pol intro: rejected quoted)
qed

text \<open>Once a request is past its checks, only a book fault can make it fail.\<close>

lemma tiered_insert_error: "tiered_insert D e s inst ord = Some (Inl err, e') \<Longrightarrow> is_violation err"
  by (auto simp: tiered_insert_def rust_bind Let_def)

lemma tiered_fills_error: "tiered_fills D e s inst ord k plan = Some (Inl err, e') \<Longrightarrow> is_violation err"
  by (induction plan arbitrary: e k) (auto simp: rust_bind)

lemma case_sum_eq_Inl: "(case r of Inl x \<Rightarrow> Inl x | Inr _ \<Rightarrow> Inr y) = Inl z \<longleftrightarrow> r = Inl z"
  by (cases r) auto

lemma create_in_book_error: "create_in_book D e s new ord plan = Some (Inl err, e') \<Longrightarrow> is_violation err"
  by (auto simp: create_in_book_def rust_bind Let_def tiered_fill_existing_def case_sum_eq_Inl split: fill_policy.splits prod.splits
      dest: tiered_insert_error tiered_fills_error)

lemma replace_in_book_error: "replace_in_book D e s orig ord plan = Some (Inl err, e') \<Longrightarrow> is_violation err"
  by (auto simp: replace_in_book_def rust_bind Let_def tiered_fill_existing_def split: fill_policy.splits prod.splits if_splits
      dest: tiered_insert_error tiered_fills_error)

end
