(* ===== verification/Transition.thy ===== *)
theory Transition
  imports Prelude
begin

text \<open>
  Labelled transition systems with an invariant. A component that is driven by a sequence of calls
  provides its initial states, its step relation and an invariant; the locale gives the invariant on every
  run and its lifting to a second invariant that needs the first.
\<close>

inductive run :: "('s \<Rightarrow> 'l \<Rightarrow> 's \<Rightarrow> bool) \<Rightarrow> 's \<Rightarrow> 'l list \<Rightarrow> 's \<Rightarrow> bool" for step where
  run_nil [intro]: "run step s [] s"
| run_cons: "step s l t \<Longrightarrow> run step t ls u \<Longrightarrow> run step s (l # ls) u"

inductive_cases run_nilE [elim!]: "run step s [] t"
inductive_cases run_consE [elim!]: "run step s (l # ls) t"

lemma run_append: "run step s ls t \<Longrightarrow> run step t ms u \<Longrightarrow> run step s (ls @ ms) u"
  by (induction rule: run.induct) (auto intro: run_cons)

lemma run_snoc: "run step s ls t \<Longrightarrow> step t l u \<Longrightarrow> run step s (ls @ [l]) u"
  by (rule run_append) (auto intro: run_cons)

definition reaches :: "('s \<Rightarrow> 'l \<Rightarrow> 's \<Rightarrow> bool) \<Rightarrow> 's \<Rightarrow> 's \<Rightarrow> bool" where
  "reaches step s t \<longleftrightarrow> (\<exists>ls. run step s ls t)"

lemma reaches_refl [simp]: "reaches step s s"
  unfolding reaches_def by (rule exI) (rule run_nil)

lemma reaches_step: "step s l t \<Longrightarrow> reaches step s t"
  unfolding reaches_def by (rule exI, erule run_cons, rule run_nil)

lemma reaches_trans: "reaches step s t \<Longrightarrow> reaches step t u \<Longrightarrow> reaches step s u"
  unfolding reaches_def by (elim exE) (rule exI, erule run_append)

locale invariant_system =
  fixes init :: "'s \<Rightarrow> bool" and step :: "'s \<Rightarrow> 'l \<Rightarrow> 's \<Rightarrow> bool" and inv :: "'s \<Rightarrow> bool"
  assumes inv_init: "init s \<Longrightarrow> inv s"
    and inv_step: "inv s \<Longrightarrow> step s l t \<Longrightarrow> inv t"
begin

lemma inv_run: "run step s ls t \<Longrightarrow> inv s \<Longrightarrow> inv t"
  by (induction rule: run.induct) (auto intro: inv_step)

lemma reachable_inv: "init s \<Longrightarrow> run step s ls t \<Longrightarrow> inv t"
  using inv_run inv_init by blast

lemma inv_reaches: "reaches step s t \<Longrightarrow> inv s \<Longrightarrow> inv t"
  unfolding reaches_def using inv_run by blast

lemma run_measure:
  assumes "run step s ls t" "inv s" "\<And>s l t. inv s \<Longrightarrow> step s l t \<Longrightarrow> R s t"
    "\<And>s. R s s" "\<And>a b c. R a b \<Longrightarrow> R b c \<Longrightarrow> R a c"
  shows "R s t"
  using assms(1,2)
proof (induction rule: run.induct)
  case (run_cons s l t ls u)
  then show ?case using assms(3,5) inv_step by blast
qed (rule assms(4))

end

end
