(* ===== verification/Book_Frame.thy ===== *)
theory Book_Frame
  imports Book_Add
begin

text \<open>
  What every book operation keeps without any assumption on its input: the instrument of the book, and that
  the orders in it are for that instrument. These hold on every call that returns.
\<close>

definition level_inst :: "int \<Rightarrow> price_level \<Rightarrow> bool" where
  "level_inst i l \<longleftrightarrow> (\<forall>x \<in> set (pl_orders l). o_instrument (snd x) = i)"

definition levels_inst :: "int \<Rightarrow> levels \<Rightarrow> bool" where
  "levels_inst i ls \<longleftrightarrow> (\<forall>e \<in> set ls. level_inst i (snd e))"

definition book_inst :: "order_book \<Rightarrow> bool" where
  "book_inst b \<longleftrightarrow> (\<forall>sd. levels_inst (ob_instrument b) (levels_of sd b))"

lemma level_inst_new [simp]: "level_inst i (pl_new p)"
  by (simp add: level_inst_def pl_new_def)

lemma book_inst_new [simp]: "book_inst (ob_new i)"
  by (simp add: book_inst_def all_side levels_inst_def ob_new_def)

lemma book_inst_set:
  "book_inst b \<Longrightarrow> levels_inst (ob_instrument b) ls \<Longrightarrow> book_inst (set_levels sd ls b)"
  by (cases sd) (simp_all add: book_inst_def all_side)

lemma levels_inst_get: "levels_inst i ls \<Longrightarrow> bt_get ls p = Some l \<Longrightarrow> level_inst i l"
  using bt_get_mem [of ls p l] by (auto simp: levels_inst_def)

lemma levels_inst_insert: "levels_inst i ls \<Longrightarrow> level_inst i l \<Longrightarrow> levels_inst i (bt_insert p l ls)"
  by (auto simp: levels_inst_def dest: set_bt_insertD)

lemma levels_inst_remove: "levels_inst i ls \<Longrightarrow> levels_inst i (bt_remove p ls)"
  by (auto simp: levels_inst_def dest: set_bt_removeD)

lemma level_inst_push:
  "level_inst i l \<Longrightarrow> o_instrument ord = i \<Longrightarrow> pl_push_back D l ord = Some l' \<Longrightarrow> level_inst i l'"
  by (auto simp: pl_push_back_def pl_insert_at_def Let_def rust_bind level_inst_def dest!: set_bt_insertD split: if_splits)

lemma level_inst_pl_remove:
  "level_inst i l \<Longrightarrow> pl_remove D l s j = Some (Inr (ord, l')) \<Longrightarrow> o_instrument ord = i \<and> level_inst i l'"
  using bt_get_mem by (fastforce simp: pl_remove_def rust_bind level_inst_def dest: set_bt_removeD)

lemma level_inst_update_fill:
  "level_inst i l \<Longrightarrow> o_instrument ord = i \<Longrightarrow> pl_update_fill D l ord q = Some l' \<Longrightarrow> level_inst i l'"
  by (auto simp: pl_update_fill_def rust_bind dest: level_inst_pl_remove)
    (auto simp: level_inst_def dest!: set_bt_insertD)

lemma levels_inst_push:
  assumes "levels_inst i ls" "o_instrument ord = i" "levels_push D ls p ord = Some ls'"
  shows "levels_inst i ls'"
proof -
  let ?l = "case bt_get ls p of None \<Rightarrow> pl_new p | Some l \<Rightarrow> l"
  have "level_inst i ?l" using levels_inst_get [OF assms(1)] by (simp split: option.split)
  moreover obtain l' where "pl_push_back D ?l ord = Some l'" "ls' = bt_insert p l' ls"
    using assms(3) by (auto simp: levels_push_def Let_def rust_bind)
  ultimately show ?thesis using level_inst_push assms(1,2) levels_inst_insert by blast
qed

lemma levels_inst_update_fill:
  assumes "levels_inst i ls" "o_instrument ord = i" "levels_update_fill D ls p ord q = Some ls'"
  shows "levels_inst i ls'"
proof -
  obtain l l' where l: "bt_get ls p = Some l" "pl_update_fill D l ord q = Some l'"
    "ls' = (if pl_orders l' = [] then bt_remove p ls else bt_insert p l' ls)"
    using assms(3) by (auto simp: levels_update_fill_def rust_bind)
  have "level_inst i l'" by (rule level_inst_update_fill [OF levels_inst_get [OF assms(1) l(1)] assms(2) l(2)])
  then show ?thesis unfolding l(3) using assms(1) by (simp add: levels_inst_remove levels_inst_insert)
qed

lemma bt_last_mem: "bt_last m = Some e \<Longrightarrow> e \<in> set m"
  by (auto simp: bt_last_def split: if_splits)

lemma bt_first_mem: "bt_first m = Some e \<Longrightarrow> e \<in> set m"
  by (auto simp: bt_first_def split: list.splits)

lemma level_inst_top: "level_inst i l \<Longrightarrow> pl_top l = Some x \<Longrightarrow> o_instrument x = i"
  by (fastforce simp: pl_top_def level_inst_def dest: bt_first_mem)

lemma apply_fill_instrument: "apply_fill D ord q p = Some ord' \<Longrightarrow> o_instrument ord' = o_instrument ord"
  using apply_fill_same_terms by (auto simp: same_terms_def)

lemma ob_remove_frame:
  assumes "ob_remove D b s i sd p = Some (Inr (ord, b'))" "book_inst b"
  shows "ob_instrument b' = ob_instrument b" "book_inst b'" "o_instrument ord = ob_instrument b"
proof -
  obtain l x l' where l: "bt_get (levels_of sd b) p = Some l" "pl_remove D l s i = Some (Inr (x, l'))"
    "ord = cancelled x" "b' = set_levels sd (if pl_orders l' = [] then bt_remove p (levels_of sd b)
       else bt_insert p l' (levels_of sd b)) b"
    using assms(1) by (auto simp: ob_remove_def rust_bind)
  have ls: "levels_inst (ob_instrument b) (levels_of sd b)" using assms(2) by (simp add: book_inst_def)
  note x = level_inst_pl_remove [OF levels_inst_get [OF ls l(1)] l(2)]
  show "ob_instrument b' = ob_instrument b" "o_instrument ord = ob_instrument b"
    using x by (simp_all add: l(3,4) cancelled_def)
  have "levels_inst (ob_instrument b) (if pl_orders l' = [] then bt_remove p (levels_of sd b)
       else bt_insert p l' (levels_of sd b))"
    using x ls by (simp add: levels_inst_remove levels_inst_insert)
  from book_inst_set [OF assms(2) this] show "book_inst b'" unfolding l(4) .
qed

lemma match_once_frame:
  assumes "match_once D b = Some (Some (b', t))" "book_inst b"
  shows "ob_instrument b' = ob_instrument b" "book_inst b'"
proof -
  obtain bl al bid ask price q buyer seller bids asks where
    m: "bt_last (ob_bids b) = Some bl" "bt_first (ob_asks b) = Some al" "pl_top (snd bl) = Some bid"
      "pl_top (snd al) = Some ask" "apply_fill D bid q price = Some buyer" "apply_fill D ask q price = Some seller"
      "levels_update_fill D (ob_bids b) (effective_price buyer) buyer q = Some bids"
      "levels_update_fill D (ob_asks b) (effective_price seller) seller q = Some asks"
      "b' = b\<lparr>ob_bids := bids, ob_asks := asks\<rparr>"
    using assms(1) by (auto simp: match_once_def rust_bind Let_def split: option.splits)
  have ls: "levels_inst (ob_instrument b) (ob_bids b)" "levels_inst (ob_instrument b) (ob_asks b)"
    using assms(2) by (simp_all add: book_inst_def all_side)
  have "level_inst (ob_instrument b) (snd bl)" "level_inst (ob_instrument b) (snd al)"
    using ls bt_last_mem [OF m(1)] bt_first_mem [OF m(2)] by (auto simp: levels_inst_def)
  then have "o_instrument buyer = ob_instrument b" "o_instrument seller = ob_instrument b"
    using level_inst_top m(3,4) apply_fill_instrument [OF m(5)] apply_fill_instrument [OF m(6)] by simp_all
  then have "levels_inst (ob_instrument b) bids" "levels_inst (ob_instrument b) asks"
    using levels_inst_update_fill ls m(7,8) by blast+
  then show "ob_instrument b' = ob_instrument b" "book_inst b'"
    by (simp_all add: m(9) book_inst_def all_side)
qed

lemma match_loop_frame:
  assumes "match_loop D b ts = Some r"
  shows "book_inst b \<longrightarrow> ob_instrument (fst r) = ob_instrument b \<and> book_inst (fst r)"
proof (rule match_loop.raw_induct [OF _ assms,
      where P = "\<lambda>D b ts r. book_inst b \<longrightarrow> ob_instrument (fst r) = ob_instrument b \<and> book_inst (fst r)"], intro impI)
  fix ml :: "decimal_ops \<Rightarrow> order_book \<Rightarrow> raw_trade list \<Rightarrow> (order_book \<times> raw_trade list) option"
    and D b trades r
  assume ih: "\<And>D b trades r. ml D b trades = Some r \<Longrightarrow>
      book_inst b \<longrightarrow> ob_instrument (fst r) = ob_instrument b \<and> book_inst (fst r)"
    and body: "Option.bind (match_once D b) (\<lambda>r. case r of None \<Rightarrow> Some (b, trades)
       | Some bt \<Rightarrow> ml D (fst bt) (trades @ [snd bt])) = Some r" and b: "book_inst b"
  obtain o1 where o1: "match_once D b = Some o1"
    "(case o1 of None \<Rightarrow> Some (b, trades) | Some bt \<Rightarrow> ml D (fst bt) (trades @ [snd bt])) = Some r"
    using body by (auto simp: bind_eq_Some_conv)
  show "ob_instrument (fst r) = ob_instrument b \<and> book_inst (fst r)"
  proof (cases o1)
    case (Some bt)
    then show ?thesis
      using o1 ih [of D "fst bt" "trades @ [snd bt]" r] match_once_frame [of D b "fst bt" "snd bt"] b by simp
  qed (use o1 b in auto)
qed

lemma ob_insert_frame:
  assumes "ob_insert D b ord = Some b'" "book_inst b" "o_instrument ord = ob_instrument b"
  shows "ob_instrument b' = ob_instrument b" "book_inst b'"
proof -
  obtain ls where l: "levels_push D (levels_of (o_side ord) b) (effective_price ord) ord = Some ls"
    "b' = set_levels (o_side ord) ls b"
    using assms(1) by (auto simp: ob_insert_def rust_bind Let_def)
  have "levels_inst (ob_instrument b) ls"
    using levels_inst_push [OF _ assms(3) l(1)] assms(2) by (simp add: book_inst_def)
  then show "ob_instrument b' = ob_instrument b" "book_inst b'"
    by (simp_all add: l(2) book_inst_set [OF assms(2)])
qed

lemma ob_write_frame:
  assumes "book_inst b" "o_instrument ord = ob_instrument b"
  shows "ob_instrument (ob_write b sd p ord) = ob_instrument b" "book_inst (ob_write b sd p ord)"
proof -
  show "ob_instrument (ob_write b sd p ord) = ob_instrument b"
    by (simp add: ob_write_def split: option.split)
  have ls: "levels_inst (ob_instrument b) (levels_of sd b)" using assms(1) by (simp add: book_inst_def)
  have "level_inst (ob_instrument b) (pl_write l (o_session ord) (o_id ord) ord)"
    if "bt_get (levels_of sd b) p = Some l" for l
    using levels_inst_get [OF ls that] assms(2)
    by (auto simp: pl_write_def level_inst_def split: option.split dest: set_bt_insertD)
  then show "book_inst (ob_write b sd p ord)"
    using assms(1) ls by (auto simp: ob_write_def split: option.split intro!: book_inst_set levels_inst_insert)
qed

lemma ob_locate_instrument:
  assumes "ob_locate b s i sd p = Some x" "book_inst b"
  shows "o_instrument x = ob_instrument b"
proof -
  obtain l k where l: "bt_get (levels_of sd b) p = Some l" "bt_get (pl_orders l) k = Some x"
    using assms(1) by (auto simp: ob_locate_def pl_locate_def split: option.splits)
  have "level_inst (ob_instrument b) l"
    by (rule levels_inst_get [OF _ l(1)]) (use assms(2) in \<open>simp add: book_inst_def\<close>)
  then show ?thesis using bt_get_mem [OF l(2)] by (auto simp: level_inst_def)
qed

lemma ob_add_frame:
  assumes "ob_add D b ord = Some (r, b')" "book_inst b" "o_instrument ord = ob_instrument b"
  shows "ob_instrument b' = ob_instrument b \<and> book_inst b'"
proof -
  obtain b1 b2 ts where b: "ob_insert D b (ord\<lparr>o_state := Booked\<rparr>) = Some b1" "match_trades D b1 = Some (b2, ts)"
    using assms(1) by (auto simp: ob_add_def rust_bind Let_def)
  have b2: "ob_instrument b2 = ob_instrument b" "book_inst b2"
    using ob_insert_frame [OF b(1) assms(2)] match_loop_frame [OF b(2) [unfolded match_trades_def]] assms(3) by simp_all
  have w: "ob_instrument (ob_write b2 sd p (x\<lparr>o_state := Cancelled\<rparr>)) = ob_instrument b2"
    "book_inst (ob_write b2 sd p (x\<lparr>o_state := Cancelled\<rparr>))"
    if "ob_locate b2 s i sd' p' = Some x" for sd p sd' p' s i x
    using ob_write_frame [OF b2(2)] ob_locate_instrument [OF that b2(2)] by simp_all
  show ?thesis
    using assms(1) b2 unfolding ob_add_unfold [OF b]
    by (auto simp: rust_bind dest: ob_remove_frame [OF _ w(2)] ob_remove_frame(1,2) [OF _ b2(2)] simp: w)
qed

lemma ob_insert_only_frame:
  assumes "ob_insert_only D b ord = Some (Inr (r, b'))" "book_inst b" "o_instrument ord = ob_instrument b"
  shows "ob_instrument b' = ob_instrument b \<and> book_inst b'"
proof -
  obtain st ls where l: "levels_push D (levels_of (o_side ord) b) (o_price ord) (ord\<lparr>o_state := st\<rparr>) = Some ls"
    "b' = set_levels (o_side ord) ls b"
    using assms(1) by (auto simp: ob_insert_only_def rust_bind Let_def)
  have "levels_inst (ob_instrument b) ls"
    using levels_inst_push [OF _ _ l(1)] assms(2,3) by (simp add: book_inst_def)
  then show ?thesis by (simp add: l(2) book_inst_set [OF assms(2)])
qed

lemma ob_execute_frame:
  assumes "ob_execute D b s i sd kp q fp = Some (Inr (r, b'))" "book_inst b"
  shows "ob_instrument b' = ob_instrument b \<and> book_inst b'"
proof -
  obtain x ls where l: "ob_locate b s i sd kp = Some x" "apply_fill D x q fp = Some r"
    "levels_update_fill D (levels_of sd b) kp r q = Some ls" "b' = set_levels sd ls b"
    using assms(1) by (auto simp: ob_execute_def ob_locate_def rust_bind)
  have "o_instrument r = ob_instrument b"
    using ob_locate_instrument [OF l(1) assms(2)] apply_fill_instrument [OF l(2)] by simp
  then have "levels_inst (ob_instrument b) ls"
    using levels_inst_update_fill [OF _ _ l(3)] assms(2) by (simp add: book_inst_def)
  then show ?thesis by (simp add: l(4) book_inst_set [OF assms(2)])
qed

end
