(* ===== verification/Engine_Calls.thy ===== *)
theory Engine_Calls
  imports Engine_Cases Transition Book_Frame
begin

text \<open>
  The engine as a state machine: every public operation that changes state is a call, a call that returns is
  a step, and the callers serialize the calls under one lock, so a history of the engine is a run. The
  locale \<open>engine_invariant\<close> is the contract an invariant has to meet on the primitive updates; it then
  holds in every history. Its two indexes are the set of instruments whose book changed since market data
  was last recorded for them, and whether a record is still unpublished.
\<close>

datatype engine_call =
    LoadInstruments "(unit + string) list"
  | CreateInstrument string
  | RegisterSession string
  | SessionDisconnect string
  | ExpireDayOrders int
  | CreateOrder int string new_order
  | ModifyOrder int string order_id order_id order_type rat rat
  | CancelOrder string order_id order_id
  | Quote string int rat rat rat rat

definition forget :: "('a \<times> engine) option \<Rightarrow> engine option" where
  "forget r = map_option snd r"

fun call_engine :: "decimal_ops \<Rightarrow> engine \<Rightarrow> engine_call \<Rightarrow> engine option" where
  "call_engine D e (LoadInstruments ls) = Some (snd (load_instruments e ls))"
| "call_engine D e (CreateInstrument symb) = Some (snd (create_instrument e symb))"
| "call_engine D e (RegisterSession s) = Some (register_session e s)"
| "call_engine D e (SessionDisconnect s) = session_disconnect D e s"
| "call_engine D e (ExpireDayOrders today) = expire_day_orders_at D e today"
| "call_engine D e (CreateOrder today s new) = forget (create_order D today e s new)"
| "call_engine D e (ModifyOrder today s orig new_id ty p q) =
     forget (modify_order_with_type D today e s orig new_id ty p q)"
| "call_engine D e (CancelOrder s orig cl) = forget (cancel_order_with_id D e s orig cl)"
| "call_engine D e (Quote s inst bp bq ap aq) = forget (quote D e s inst bp bq ap aq)"

definition engine_step :: "decimal_ops \<Rightarrow> engine \<Rightarrow> engine_call \<Rightarrow> engine \<Rightarrow> bool" where
  "engine_step D e c e' \<longleftrightarrow> call_engine D e c = Some e'"

lemma forget_Some [simp]: "forget r = Some e \<longleftrightarrow> (\<exists>x. r = Some (x, e))"
  by (cases r) (auto simp: forget_def)

text \<open>Every book is filed under its own instrument and holds orders for that instrument only.\<close>

definition books_ok :: "engine \<Rightarrow> bool" where
  "books_ok e \<longleftrightarrow> (\<forall>inst b. en_books e inst = Some b \<longrightarrow> ob_instrument b = inst \<and> book_inst b)"

lemma book_for_ok: "books_ok e \<Longrightarrow> ob_instrument (book_for e inst) = inst \<and> book_inst (book_for e inst)"
  by (auto simp: book_for_def books_ok_def split: option.split) (simp add: ob_new_def)

lemma books_ok_update:
  "books_ok e \<Longrightarrow> ob_instrument b = inst \<Longrightarrow> book_inst b \<Longrightarrow> books_ok (e\<lparr>en_books := (en_books e)(inst \<mapsto> b)\<rparr>)"
  by (simp add: books_ok_def)

text \<open>A new registry whose additions are exactly the instruments handed to the publisher.\<close>

definition catalogued :: "engine \<Rightarrow> instrument_map \<Rightarrow> instrument list \<Rightarrow> bool" where
  "catalogued e m insts \<longleftrightarrow>
     (\<forall>symb ins. get_by_symbol m symb = Some ins \<longrightarrow>
        get_by_symbol (en_instruments e) symb = Some ins \<or> ins \<in> set insts \<and> in_symbol ins = symb) \<and>
     (\<forall>ins \<in> set insts. get_by_symbol m (in_symbol ins) = Some ins)"

lemma catalogued_create: "im_next_id (en_instruments e) = (i, m) \<Longrightarrow> catalogued e (im_put m (instrument_new i symb)) [instrument_new i symb]"
  by (auto simp: catalogued_def im_next_id_def Let_def instrument_new_def split: if_splits)

lemma catalogued_load:
  assumes "load_from_reader m0 ls = (Inr u, m)"
  shows "catalogued e m (List.map_filter (get_by_symbol m) (all_symbols m))"
proof -
  have "registry_wf m"
    using assms load_lines_wf [OF registry_wf_new, of 0 ls m]
    by (auto simp: load_from_reader_def im_new_def split: sum.splits if_splits)
  then have s: "in_symbol ins = symb" if "get_by_symbol m symb = Some ins" for symb ins
    using that by (simp add: registry_wf_def)
  have "symb \<in> set (all_symbols m)" if "get_by_symbol m symb = Some ins" for symb ins
    using that by (force simp: get_by_symbol_def all_symbols_def dest: map_of_SomeD)
  then have "get_by_symbol m symb = Some ins \<Longrightarrow> ins \<in> set (List.map_filter (get_by_symbol m) (all_symbols m))" for symb ins
    by (force simp: List.map_filter_def)
  moreover have "\<exists>symb. get_by_symbol m symb = Some ins" if "ins \<in> set (List.map_filter (get_by_symbol m) (all_symbols m))" for ins
    using that by (auto simp: List.map_filter_def)
  ultimately show ?thesis using s unfolding catalogued_def by metis
qed

section \<open>What leaves the sessions alone\<close>

lemma remove_from_book_sessions: "remove_from_book D e s i sd p inst = Some (r, e') \<Longrightarrow> en_sessions e' = en_sessions e"
  by (auto simp: remove_from_book_def rust_bind)

lemma add_to_book_sessions: "add_to_book D e ord = Some (r, e') \<Longrightarrow> en_sessions e' = en_sessions e"
  by (auto simp: add_to_book_def rust_bind)

lemma record_market_sessions: "record_market_data D e inst ts = Some e' \<Longrightarrow> en_sessions e' = en_sessions e"
  by (auto simp: record_market_data_def Let_def rust_bind)

lemma drop_leg_sessions: "drop_leg D s inst e leg = Some e' \<Longrightarrow> en_sessions e' = en_sessions e"
  by (auto simp: drop_leg_def split: option.splits dest: remove_from_book_sessions)

lemma drop_pair_sessions: "drop_pair D s inst e pair = Some e' \<Longrightarrow> en_sessions e' = en_sessions e"
  by (auto simp: drop_pair_def rust_bind dest!: drop_leg_sessions)

lemma quote_leg_sessions: "quote_leg D e s inst p q sd x = Some (r, e') \<Longrightarrow> en_sessions e' = en_sessions e"
  by (auto simp: quote_leg_def rust_bind Let_def split: if_splits dest!: add_to_book_sessions)

section \<open>The contract of an invariant\<close>

text \<open>
  A frame is kept by the updates inside a call; an invariant is also established by a new engine and kept when
  instruments and sessions come and go.
\<close>

locale engine_frame =
  fixes D :: decimal_ops and inv :: "int set \<Rightarrow> bool \<Rightarrow> engine \<Rightarrow> bool"
  assumes inv_weaken: "inv X u e \<Longrightarrow> X \<subseteq> Y \<Longrightarrow> (u \<Longrightarrow> v) \<Longrightarrow> inv Y v e"
    and inv_sessions: "inv X u e \<Longrightarrow> bt_get (en_sessions e) s = Some se \<Longrightarrow>
          inv X u (e\<lparr>en_sessions := bt_insert s se' (en_sessions e)\<rparr>)"
    and inv_dates: "inv X u e \<Longrightarrow> inv X u (e\<lparr>en_dates := ds\<rparr>)"
    and inv_exchange_id: "inv X u e \<Longrightarrow> inv X u (e\<lparr>en_next_exchange_id := i\<rparr>)"
    and inv_arrival: "inv X u e \<Longrightarrow> inv X u (e\<lparr>en_next_arrival := n\<rparr>)"
    and inv_trade_id: "inv X u e \<Longrightarrow> inv X u (e\<lparr>en_next_trade_id := i\<rparr>)"
    and inv_books_ok: "inv X u e \<Longrightarrow> books_ok e"
    and inv_books: "inv X u e \<Longrightarrow> ob_instrument b = inst \<Longrightarrow> book_inst b \<Longrightarrow>
          inv (insert inst X) u (e\<lparr>en_books := (en_books e)(inst \<mapsto> b)\<rparr>)"
    and inv_emit: "inv X u e \<Longrightarrow> next_exec_id e = (x, e') \<Longrightarrow> rp_exec_id r = x \<Longrightarrow> inv X u (send e' r)"
    and inv_record: "inv X u e \<Longrightarrow> record_market_data D e inst ts = Some e' \<Longrightarrow> inv (X - {inst}) True e'"
    and inv_publish: "inv X u e \<Longrightarrow> publish_market_data e = Some e' \<Longrightarrow> inv X False e'"
begin

lemma inv_update_record: "inv X u e \<Longrightarrow> inv X u (update_record e s i f)"
  by (auto simp: update_record_def inv_sessions split: option.split)

lemma inv_sync: "inv X u e \<Longrightarrow> inv X u (sync_record e ord)"
  by (simp add: sync_record_def inv_update_record)

lemma inv_send_status_for: "inv X u e \<Longrightarrow> inv X u (send_status_for e ord cl ty orig)"
  by (auto simp: send_status_for_def Let_def split: prod.split intro: inv_emit)

lemma inv_send_status: "inv X u e \<Longrightarrow> inv X u (send_status e ord)"
  by (simp add: send_status_def inv_send_status_for)

lemma inv_send_fill: "inv X u e \<Longrightarrow> inv X u (send_fill e ord p q)"
proof -
  assume a: "inv X u e"
  define e1 where "e1 = (if o_id ord = QUOTE_ORDER_ID then e else update_record e (o_session ord) (o_id ord)
    (\<lambda>r. r\<lparr>o_remaining := o_remaining ord, o_cum := o_cum ord, o_avg := o_avg ord, o_state := o_state ord\<rparr>))"
  have "inv X u e1" using a by (simp add: e1_def inv_update_record)
  moreover obtain x e2 where "next_exec_id e1 = (x, e2)" by fastforce
  ultimately show ?thesis by (auto simp: send_fill_def Let_def e1_def [symmetric] intro: inv_emit)
qed

lemma inv_send_trades: "inv X u e \<Longrightarrow> inv X u (send_trades e ts)"
  by (induction e ts rule: send_trades.induct) (auto intro: inv_send_fill)

lemma inv_trade_reports: "inv X u e \<Longrightarrow> send_trade_reports e ts = (ts', e') \<Longrightarrow> inv X u e'"
  by (auto simp: send_trade_reports_def Let_def inv_send_trades inv_trade_id split: if_splits)

lemma inv_add_to_book:
  assumes "inv X u e" "add_to_book D e ord = Some (r, e')"
  shows "inv (insert (o_instrument ord) X) u e'"
proof -
  obtain b where b: "ob_add D (book_for e (o_instrument ord)) ord = Some (r, b)"
    "e' = e\<lparr>en_books := (en_books e)(o_instrument ord \<mapsto> b)\<rparr>"
    using assms(2) by (auto simp: add_to_book_def rust_bind)
  note ok = book_for_ok [OF inv_books_ok [OF assms(1)], of "o_instrument ord"]
  then show ?thesis using ob_add_frame [OF b(1)] inv_books [OF assms(1), of b "o_instrument ord"] b(2) by simp
qed

lemma inv_remove_from_book:
  assumes "inv X u e" "remove_from_book D e s i sd p inst = Some (r, e')"
  shows "inv (insert inst X) u e'" "r = Inr ord \<Longrightarrow> o_instrument ord = inst"
proof -
  have "inv (insert inst X) u e' \<and> (r = Inr ord \<longrightarrow> o_instrument ord = inst)"
  proof (cases r)
    case (Inr x)
    then obtain b b' where b: "en_books e inst = Some b" "ob_remove D b s i sd p = Some (Inr (x, b'))"
      "e' = e\<lparr>en_books := (en_books e)(inst \<mapsto> b')\<rparr>"
      using assms(2) by (auto simp: remove_from_book_def rust_bind)
    have "book_inst b" "ob_instrument b = inst" using inv_books_ok [OF assms(1)] b(1) by (auto simp: books_ok_def)
    then show ?thesis using ob_remove_frame [OF b(2)] inv_books [OF assms(1), of b' inst] b(3) Inr by auto
  next
    case (Inl err)
    then have "e' = e" using assms(2) by (auto simp: remove_from_book_def rust_bind)
    then show ?thesis using assms(1) Inl by (auto intro: inv_weaken)
  qed
  then show "inv (insert inst X) u e'" "r = Inr ord \<Longrightarrow> o_instrument ord = inst" by blast+
qed

lemma inv_record_dirty:
  assumes "inv (insert inst X) u e" "record_market_data D e inst ts = Some e'"
  shows "inv X True e'"
  using inv_record [OF assms] by (rule inv_weaken) blast+

lemma inv_disconnect_orders: "disconnect_orders D s e es = Some e' \<Longrightarrow> inv X u e \<Longrightarrow> inv X True e'"
proof (induction es arbitrary: e u)
  case (Cons a es)
  obtain i entry where a: "a = (i, entry)" by fastforce
  obtain x e1 e2 where s: "remove_from_book D e s i (o_side entry) (o_price entry) (o_instrument entry) = Some (x, e1)"
    "record_market_data D e1 (o_instrument entry) [] = Some e2" "disconnect_orders D s e2 es = Some e'"
    using Cons.prems(1) by (auto simp: a rust_bind)
  show ?case
    by (rule Cons.IH [OF s(3) inv_record_dirty [OF inv_remove_from_book(1) [OF Cons.prems(2) s(1)] s(2)]])
qed (auto intro: inv_weaken)

lemma inv_drop_leg:
  assumes "drop_leg D s inst e leg = Some e'" "inv X u e"
  shows "inv (insert inst X) u e'"
proof (cases leg)
  case None
  then show ?thesis using assms inv_weaken [of X u e "insert inst X" u] by (auto simp: drop_leg_def)
next
  case (Some ord)
  then obtain x where "remove_from_book D e s (o_id ord) (o_side ord) (o_price ord) inst = Some (x, e')"
    using assms(1) by (auto simp: drop_leg_def)
  from inv_remove_from_book(1) [OF assms(2) this] show ?thesis .
qed

lemma inv_drop_pair:
  assumes "drop_pair D s inst e pair = Some e'" "inv X u e"
  shows "inv (insert inst X) u e'"
proof -
  obtain e1 where "drop_leg D s inst e (qp_bid pair) = Some e1" "drop_leg D s inst e1 (qp_ask pair) = Some e'"
    using assms(1) by (auto simp: drop_pair_def rust_bind)
  from inv_drop_leg [OF this(2) inv_drop_leg [OF this(1) assms(2)]] show ?thesis by simp
qed

lemma inv_disconnect_quotes: "disconnect_quotes D s e qs = Some e' \<Longrightarrow> inv X u e \<Longrightarrow> inv X True e'"
proof (induction qs arbitrary: e u)
  case (Cons a qs)
  obtain inst pair where a: "a = (inst, pair)" by fastforce
  obtain e1 e2 where s: "drop_pair D s inst e pair = Some e1" "record_market_data D e1 inst [] = Some e2"
    "disconnect_quotes D s e2 qs = Some e'"
    using Cons.prems(1) by (auto simp: a rust_bind)
  show ?case by (rule Cons.IH [OF s(3) inv_record_dirty [OF inv_drop_pair [OF s(1) Cons.prems(2)] s(2)]])
qed (auto intro: inv_weaken)

lemma inv_disconnected:
  assumes "session_disconnect D e s = Some e'" "inv X False e" "inv X False (e\<lparr>en_sessions := bt_remove s (en_sessions e)\<rparr>)"
  shows "inv X False e'"
proof (cases "bt_get (en_sessions e) s")
  case (Some se)
  let ?e = "e\<lparr>en_sessions := bt_remove s (en_sessions e), en_dates := filter (\<lambda>d. fst (fst d) \<noteq> s) (en_dates e)\<rparr>"
  obtain e1 e2 where d: "disconnect_orders D s ?e (se_orders se) = Some e1"
    "disconnect_quotes D s e1 (se_quotes se) = Some e2" "publish_market_data e2 = Some e'"
    using assms(1) Some by (auto simp: session_disconnect_def rust_bind)
  have "inv X False ?e" using inv_dates [OF assms(3)] by simp
  from inv_publish [OF inv_disconnect_quotes [OF d(2) inv_disconnect_orders [OF d(1) this]] d(3)]
  show ?thesis .
qed (use assms in \<open>simp add: session_disconnect_def\<close>)

lemma inv_expire_orders: "expire_orders D e ks = Some e' \<Longrightarrow> inv X u e \<Longrightarrow> inv X True e'"
proof (induction ks arbitrary: e u)
  case (Cons a ks)
  obtain s i where a: "a = (s, i)" by fastforce
  let ?e = "e\<lparr>en_dates := AList.delete (s, i) (en_dates e)\<rparr>"
  have e1: "inv X u ?e" using Cons.prems by (simp add: inv_dates)
  consider "expire_orders D ?e ks = Some e'"
    | ord x e2 e3 where "remove_from_book D ?e s i (o_side ord) (o_price ord) (o_instrument ord) = Some (x, e2)"
      "record_market_data D (sync_record e2 (ord\<lparr>o_state := Expired, o_remaining := 0\<rparr>)) (o_instrument ord) [] = Some e3"
      "expire_orders D (send_status_for e3 (ord\<lparr>o_state := Expired, o_remaining := 0\<rparr>) i ExecExpired None) ks = Some e'"
    using Cons.prems(1) by (auto simp: a rust_bind Let_def)
  then show ?case
  proof cases
    case 2
    show ?thesis
      by (rule Cons.IH [OF 2(3) inv_send_status_for
            [OF inv_record_dirty [OF inv_sync [OF inv_remove_from_book(1) [OF e1 2(1)]] 2(2)]]])
  qed (rule Cons.IH [OF _ e1])
qed (auto intro: inv_weaken)

lemma inv_expire:
  assumes "expire_day_orders_at D e today = Some e'" "inv X False e"
  shows "inv X False e'"
proof -
  obtain e1 where "expire_orders D e (map fst (filter (\<lambda>d. snd d < today) (en_dates e))) = Some e1"
    "publish_market_data e1 = Some e'"
    using assms(1) by (auto simp: expire_day_orders_at_def rust_bind Let_def)
  from inv_publish [OF inv_expire_orders [OF this(1) assms(2)] this(2)] show ?thesis .
qed

lemma inv_tiered_insert:
  assumes "tiered_insert D e s inst ord = Some (r, e')" "inv X u e" "o_instrument ord = inst"
  shows "inv (insert inst X) u e'"
proof -
  let ?b = "book_for e inst"
  let ?e = "e\<lparr>en_books := (en_books e)(inst \<mapsto> ?b)\<rparr>"
  note ok = book_for_ok [OF inv_books_ok [OF assms(2)], of inst]
  have e1: "inv (insert inst X) u ?e" using inv_books [OF assms(2), of ?b inst] ok by simp
  have up: "inv (insert inst X) u (?e\<lparr>en_books := (en_books ?e)(inst \<mapsto> b')\<rparr>)"
    if "ob_insert_only D ?b ord = Some (Inr (x, b'))" for x b'
    using inv_books [OF e1, of b' inst] ob_insert_only_frame [OF that] ok assms(3) by simp
  show ?thesis
    using assms(1) e1 up by (auto simp: tiered_insert_def rust_bind Let_def intro!: inv_sync)
qed

lemma inv_tiered_fills:
  "tiered_fills D e s inst ord k plan = Some (r, e') \<Longrightarrow> inv (insert inst X) u e \<Longrightarrow> inv (insert inst X) u e'"
proof (induction plan arbitrary: e k)
  case (Cons chunk plan)
  show ?case
  proof (cases "en_books e inst")
    case (Some b)
    consider "e' = e" | fl b' where "ob_execute D b s (o_id ord) (o_side ord) (o_price ord) chunk (o_price ord) = Some (Inr (fl, b'))"
      "tiered_fills D (send_fill (e\<lparr>en_books := (en_books e)(inst \<mapsto> b')\<rparr>) fl (o_price ord) chunk) s inst ord (k + 1) plan = Some (r, e')"
      using Cons.prems(1) Some by (auto simp: rust_bind)
    then show ?thesis
    proof cases
      case 2
      have "inv (insert inst X) u (e\<lparr>en_books := (en_books e)(inst \<mapsto> b')\<rparr>)"
        using inv_books [OF Cons.prems(2), of b' inst] ob_execute_frame [OF 2(1)] Some
          inv_books_ok [OF Cons.prems(2)] by (auto simp: books_ok_def)
      then show ?thesis by (intro Cons.IH [OF 2(2)] inv_send_fill)
    qed (use Cons.prems in simp)
  qed (use Cons.prems in auto)
qed simp

lemma inv_settle:
  assumes "inv (insert inst X) u e" "record_market_data D e inst ts = Some e1" "publish_market_data e1 = Some e2"
  shows "inv X False e2"
  by (rule inv_publish [OF inv_record_dirty [OF assms(1,2)] assms(3)])

lemma inv_create_in_book:
  assumes r: "create_in_book D e s new ord plan = Some (r, e')" and "inv X False e" "o_instrument ord = no_instrument new"
  shows "inv X False e'"
proof (cases "en_policy e")
  case Real_Fill
  obtain ts fin e1 e2 e3 where s: "add_to_book D e ord = Some ((ts, fin), e1)"
    "record_market_data D e1 (no_instrument new) ts = Some e2" "publish_market_data e2 = Some e3"
    and fin: "e' = (case fin of None \<Rightarrow> snd (send_trade_reports e3 ts)
      | Some f \<Rightarrow> let e4 = sync_record (snd (send_trade_reports e3 ts)) f
          in if fst (send_trade_reports e3 ts) = [] \<or> o_state f = Cancelled \<and> no_type new = Market
             then send_status e4 f else e4)"
    using r Real_Fill by (auto simp: create_in_book_def rust_bind Let_def split_beta split: option.splits)
  have "inv X False e3"
    using inv_settle [OF _ s(2,3)] inv_add_to_book [OF assms(2) s(1)] assms(3) by simp
  then have "inv X False (snd (send_trade_reports e3 ts))"
    by (cases "send_trade_reports e3 ts") (auto intro: inv_trade_reports)
  then show ?thesis
    unfolding fin by (auto simp: Let_def inv_sync inv_send_status split: option.split)
next
  case Tiered_Fill
  obtain x e1 where s: "tiered_insert D e s (no_instrument new) ord = Some (x, e1)"
    using r Tiered_Fill by (auto simp: create_in_book_def rust_bind)
  note i1 = inv_tiered_insert [OF s assms(2,3)]
  show ?thesis
  proof (cases x)
    case (Inl err)
    then obtain e2 where "record_market_data D e1 (no_instrument new) [] = Some e2" "publish_market_data e2 = Some e'"
      using r Tiered_Fill s by (auto simp: create_in_book_def rust_bind)
    from inv_settle [OF i1 this] show ?thesis .
  next
    case (Inr snapshot)
    then obtain y e2 e3 where t: "tiered_fill_existing D (send_status e1 snapshot) s (no_instrument new) snapshot plan = Some (y, e2)"
      "record_market_data D e2 (no_instrument new) [] = Some e3" "publish_market_data e3 = Some e'"
      using r Tiered_Fill s by (auto simp: create_in_book_def rust_bind Let_def)
    from inv_settle [OF inv_tiered_fills [OF t(1) [unfolded tiered_fill_existing_def] inv_send_status [OF i1]] t(2,3)]
    show ?thesis .
  qed
qed

lemma build_order_instrument: "o_instrument (build_order e s new) = no_instrument new"
  by (simp add: build_order_def Let_def order_limit_def order_market_def split: order_type.split)

lemma inv_create:
  assumes "create_order D today e s new = Some (r, e')" "inv X False e"
  shows "inv X False e'"
  using assms(1)
proof (cases rule: create_order_cases)
  case (accepted se plan ord e1)
  let ?e = "e\<lparr>en_next_exchange_id := wrap_i32 (en_next_exchange_id e + 1), en_next_arrival := wrap_u64 (en_next_arrival e + 1)\<rparr>"
  have "inv X False ?e" using inv_arrival [OF inv_exchange_id [OF assms(2)]] by simp
  from inv_sessions [OF this] have "inv X False (put_record ?e s se o')" for o'
    using accepted(3) unfolding put_record_def by simp
  then have "inv X False e1" "o_instrument ord = no_instrument new"
    using accepted(6) by (auto simp: stage_order_def Let_def build_order_instrument intro: inv_dates)
  from inv_create_in_book [OF accepted(7) this] show ?thesis .
qed (use assms(2) in simp)

lemma inv_replace_in_book:
  assumes r: "replace_in_book D e s orig ord plan = Some (r, e')" and i: "inv X u e"
  shows "inv X False e'"
proof -
  let ?st = "\<lambda>e. send_status_for e ord (o_id ord) ExecReplaced (Some orig)"
  have zero: ?thesis if "publish_market_data (?st e) = Some e'"
    by (rule inv_publish [OF inv_send_status_for [OF i] that])
  show ?thesis
  proof (cases "en_policy e"; cases "o_remaining ord = 0")
    assume "en_policy e = Real_Fill" "o_remaining ord \<noteq> 0"
    then obtain ts fin e1 e2 e3 where s: "add_to_book D (?st e) ord = Some ((ts, fin), e1)"
      "record_market_data D e1 (o_instrument ord) ts = Some e2" "publish_market_data e2 = Some e3"
      and fin: "e' = (case fin of None \<Rightarrow> snd (send_trade_reports e3 ts)
        | Some f \<Rightarrow> sync_record (snd (send_trade_reports e3 ts)) f)"
      using r by (auto simp: replace_in_book_def rust_bind Let_def split_beta split: option.splits)
    have "inv X False e3" by (rule inv_settle [OF inv_add_to_book [OF inv_send_status_for [OF i] s(1)] s(2,3)])
    then have "inv X False (snd (send_trade_reports e3 ts))"
      by (cases "send_trade_reports e3 ts") (auto intro: inv_trade_reports)
    then show ?thesis unfolding fin by (simp add: inv_sync split: option.split)
  next
    assume p: "en_policy e = Tiered_Fill" "o_remaining ord \<noteq> 0"
    then obtain x e1 where t: "tiered_insert D e s (o_instrument ord) ord = Some (x, e1)"
      using r by (auto simp: replace_in_book_def rust_bind Let_def)
    note i1 = inv_tiered_insert [OF t i refl]
    show ?thesis
    proof (cases x)
      case (Inl err)
      then obtain e2 where "record_market_data D e1 (o_instrument ord) [] = Some e2" "publish_market_data e2 = Some e'"
        using r p t by (auto simp: replace_in_book_def rust_bind Let_def)
      from inv_settle [OF i1 this] show ?thesis .
    next
      case (Inr snap)
      then obtain y e2 e3 where f: "tiered_fill_existing D (?st e1) s (o_instrument ord) snap plan = Some (y, e2)"
        "record_market_data D e2 (o_instrument ord) [] = Some e3" "publish_market_data e3 = Some e'"
        using r p t by (auto simp: replace_in_book_def rust_bind Let_def)
      from inv_settle [OF inv_tiered_fills [OF f(1) [unfolded tiered_fill_existing_def] inv_send_status_for [OF i1]] f(2,3)]
      show ?thesis .
    qed
  qed (use r zero in \<open>auto simp: replace_in_book_def rust_bind Let_def\<close>)
qed

lemma inv_modify:
  assumes "modify_order_with_type D today e s orig new_id ty p q = Some (r, e')" "inv X False e"
  shows "inv X False e'"
  using assms(1)
proof (cases rule: modify_order_cases)
  case (replaced se entry plan removed e1 e2 remaining ord)
  have "inv X True e2" by (rule inv_record_dirty [OF inv_remove_from_book(1) [OF assms(2) replaced(8)] replaced(9)])
  moreover have "bt_get (en_sessions e2) s = Some se"
    using replaced(1) remove_from_book_sessions [OF replaced(8)] record_market_sessions [OF replaced(9)] by simp
  ultimately have "inv X True (swap_record (e2\<lparr>en_next_arrival := wrap_u64 (en_next_arrival e2 + 1)\<rparr>) today s se orig ord)"
    using inv_dates [OF inv_sessions [OF inv_arrival]] by (simp add: swap_record_def Let_def)
  from inv_replace_in_book [OF replaced(12) this] show ?thesis .
qed (use assms(2) in \<open>simp_all add: inv_send_status\<close>)

lemma inv_cancel:
  assumes "cancel_order_with_id D e s orig cl = Some (r, e')" "inv X False e"
  shows "inv X False e'"
  using assms(1)
proof (cases rule: cancel_order_cases)
  case (cancelled se entry removed e1 e2 e3)
  note i = inv_remove_from_book [OF assms(2) cancelled(4)]
  have "o_instrument (cancelled removed) = o_instrument entry"
    using i(2) [OF refl] by (simp add: cancelled_def)
  moreover have "bt_get (en_sessions e1) s = Some se" using cancelled(1) remove_from_book_sessions [OF cancelled(4)] by simp
  ultimately have "inv X False e3"
    using inv_settle [OF inv_sessions [OF i(1)]] cancelled(5,6) by simp
  then show ?thesis unfolding cancelled(8) by (rule inv_send_status_for)
qed (use assms(2) in simp)

lemma inv_quote_leg:
  assumes "quote_leg D e s inst p q sd x = Some ((leg, ts), e')" "inv X u e"
  shows "inv (insert inst X) u e'"
proof (cases "p = 0")
  case True
  then show ?thesis using assms inv_weaken [of X u e "insert inst X" u] by (auto simp: quote_leg_def)
next
  case False
  let ?e = "e\<lparr>en_next_exchange_id := wrap_i32 (en_next_exchange_id e + 1),
               en_next_arrival := wrap_u64 (en_next_arrival e + 1)\<rparr>"
  let ?ord = "(order_limit s QUOTE_ORDER_ID inst sd p q (en_next_arrival ?e))\<lparr>o_exchange_id := x\<rparr>"
  obtain r where "add_to_book D ?e ?ord = Some (r, e')"
    using assms(1) False by (auto simp: quote_leg_def rust_bind Let_def)
  from inv_add_to_book [OF _ this, of X] show ?thesis
    using inv_arrival [OF inv_exchange_id [OF assms(2)]] by (simp add: order_limit_def)
qed

lemma inv_quote:
  assumes "quote D e s inst bp bq ap aq = Some (r, e')" "inv X False e"
  shows "inv X False e'"
  using assms(1)
proof (cases rule: quote_cases)
  case (quoted se se' e1 e2 e3 e4 e5 bid ask bts ats)
  note i3 = inv_quote_leg [OF quoted(9) inv_quote_leg [OF quoted(8)
        inv_drop_pair [OF quoted(7) inv_sessions [OF assms(2) quoted(5)]]]]
  have "\<exists>se''. bt_get (en_sessions e3) s = Some se''"
    using drop_pair_sessions [OF quoted(7)] quote_leg_sessions [OF quoted(8)] quote_leg_sessions [OF quoted(9)]
    by simp
  with i3 have "inv X False e5" using inv_settle [OF inv_sessions quoted(10,11)] by auto
  then show ?thesis unfolding quoted(13)
    by (cases "send_trade_reports e5 (bts @ ats)") (auto intro: inv_trade_reports)
qed (use assms(2) in simp)

end

locale engine_invariant = engine_frame +
  assumes inv_new: "inv {} False (with_fill_policy p)"
    and inv_instruments: "inv X u e \<Longrightarrow> catalogued e m insts \<Longrightarrow> inv X u (e\<lparr>en_instruments := m,
          en_market_data := md_register (en_market_data e) insts\<rparr>)"
    and inv_register: "inv X u e \<Longrightarrow> inv X u (register_session e s)"
    and inv_unregister: "inv X u e \<Longrightarrow> inv X u (e\<lparr>en_sessions := bt_remove s (en_sessions e)\<rparr>)"
begin

lemma inv_session_disconnect: "session_disconnect D e s = Some e' \<Longrightarrow> inv X False e \<Longrightarrow> inv X False e'"
  using inv_disconnected inv_unregister by blast

lemma inv_load: "inv X u e \<Longrightarrow> inv X u (snd (load_instruments e ls))"
proof (cases "load_from_reader (en_instruments e) ls")
  case (Pair r m)
  assume a: "inv X u e"
  show ?thesis
  proof (cases r)
    case (Inl err)
    then have "m = en_instruments e" using Pair by (auto simp: load_from_reader_def split: sum.splits if_splits)
    then show ?thesis using a Pair Inl by (simp add: load_instruments_def)
  next
    case (Inr v)
    show ?thesis using inv_instruments [OF a catalogued_load [OF Pair [unfolded Inr]]] Pair Inr
      by (simp add: load_instruments_def)
  qed
qed

lemma inv_create_instrument: "inv X u e \<Longrightarrow> inv X u (snd (create_instrument e symb))"
  by (auto simp: create_instrument_def Let_def split: option.split prod.split intro: inv_instruments catalogued_create)

lemma inv_call:
  assumes "inv {} False e" "call_engine D e c = Some e'"
  shows "inv {} False e'"
  using assms
  by (cases c) (auto intro: inv_load inv_create_instrument inv_register
      inv_session_disconnect inv_expire inv_create inv_modify inv_cancel inv_quote)

sublocale invariant_system "\<lambda>e. \<exists>p. e = with_fill_policy p" "engine_step D" "inv {} False"
  by unfold_locales (auto simp: engine_step_def inv_new intro: inv_call)

end

end
