(* ===== verification/Engine_Samples.thy ===== *)
theory Engine_Samples
  imports Engine_Calls Book_Properties
begin

text \<open>
  Concrete histories of the engine, evaluated by rewriting, for the examples that accompany the general
  theorems: one instrument, two sessions, a resting sell order and orders that meet it.
\<close>

lemmas engine_eval =
  book_eval with_fill_policy_def create_instrument_def get_by_symbol_def get_by_id_def im_new_def im_next_id_def
  im_put_def instrument_new_def md_register_def register_one_def empty_snapshot_def publisher_new_def
  register_session_def create_order_def validate_order_input_def validate_order_id_def QUOTE_ORDER_ID_def
  tiered_plan_def stage_order_def build_order_def put_record_def create_in_book_def add_to_book_def book_for_def
  ob_new_def record_market_data_def statistics_default_def symbol_for_def publish_market_data_def publish_one_def
  ob_build_book_def build_levels_def stats_top_def best_level_def md_publish_def send_trade_reports_def
  sync_record_def update_record_def send_status_def send_status_for_def next_exec_id_def send_def send_fill_def
  saturating_inc_u64_def wrap_u64_def wrap_i32_def wrap_i64_def stats_trade_def forget_def

definition sample_new :: "order_id \<Rightarrow> side \<Rightarrow> rat \<Rightarrow> rat \<Rightarrow> new_order" where
  "sample_new i sd p q =
     \<lparr>no_id = i, no_instrument = 1, no_side = sd, no_type = Limit, no_price = p, no_quantity = q\<rparr>"

definition sample_calls :: "engine_call list" where
  "sample_calls = [CreateInstrument ''IBM'', RegisterSession ''A'', CreateOrder 0 ''A'' (sample_new 1 Sell 100 10)]"

lemma sample_history:
  "\<exists>e b. run (engine_step sample_decimal) (with_fill_policy Real_Fill) sample_calls e \<and>
     en_books e 1 = Some b \<and> en_next_exec_id e = 1 \<and> map fst (en_sent e) = [''A''] \<and>
     reader_symbols (en_market_data e) = [''IBM''] \<and> get_by_symbol (en_instruments e) ''IBM'' = Some (instrument_new 1 ''IBM'')"
proof -
  let ?e0 = "with_fill_policy Real_Fill"
  obtain e1 where e1: "call_engine sample_decimal ?e0 (CreateInstrument ''IBM'') = Some e1" by simp
  obtain e2 where e2: "call_engine sample_decimal e1 (RegisterSession ''A'') = Some e2" by simp
  have "\<exists>e3 b. call_engine sample_decimal e2 (CreateOrder 0 ''A'' (sample_new 1 Sell 100 10)) = Some e3 \<and>
      en_books e3 1 = Some b \<and> en_next_exec_id e3 = 1 \<and> map fst (en_sent e3) = [''A''] \<and>
      reader_symbols (en_market_data e3) = [''IBM''] \<and> get_by_symbol (en_instruments e3) ''IBM'' = Some (instrument_new 1 ''IBM'')"
    using e1 e2 by (auto simp: engine_eval sample_new_def reader_symbols_def)
  then obtain e3 b where e3: "call_engine sample_decimal e2 (CreateOrder 0 ''A'' (sample_new 1 Sell 100 10)) = Some e3"
    "en_books e3 1 = Some b" "en_next_exec_id e3 = 1" "map fst (en_sent e3) = [''A'']"
    "reader_symbols (en_market_data e3) = [''IBM'']" "get_by_symbol (en_instruments e3) ''IBM'' = Some (instrument_new 1 ''IBM'')"
    by (elim exE conjE) (rule that)
  have "run (engine_step sample_decimal) ?e0 sample_calls e3"
    unfolding sample_calls_def using e1 e2 e3(1) by (auto intro!: run_cons run_nil simp: engine_step_def simp del: call_engine.simps)
  then show ?thesis using e3 by (intro exI [of _ e3] exI [of _ b] conjI)
qed

end
