(* ===== verification/Engine_Invariants.thy ===== *)
theory Engine_Invariants
  imports Engine_Samples
begin

text \<open>
  Invariants of every history of the engine, as interpretations of \<open>engine_invariant\<close>: execution
  identifiers are never reused, and what market-data readers see is the current book. Then what a rejected
  request leaves behind: nothing.
\<close>

section \<open>Execution identifiers\<close>

definition exec_name :: "nat \<Rightarrow> string" where
  "exec_name k = ''exec.'' @ show_nat k"

lemma exec_name_inj: "exec_name j = exec_name k \<Longrightarrow> j = k"
  by (simp add: exec_name_def show_nat_inj)

definition exec_ids_ok :: "engine \<Rightarrow> bool" where
  "exec_ids_ok e \<longleftrightarrow> (\<exists>ks. map (\<lambda>p. rp_exec_id (snd p)) (en_sent e) = map exec_name ks \<and>
     sorted_wrt (<) ks \<and> (\<forall>k \<in> set ks. k \<le> en_next_exec_id e))"

definition ids_inv :: "int set \<Rightarrow> bool \<Rightarrow> engine \<Rightarrow> bool" where
  "ids_inv X u e \<longleftrightarrow> books_ok e \<and> (en_next_exec_id e < u64_max \<longrightarrow> exec_ids_ok e)"

lemma exec_ids_emit:
  assumes "en_next_exec_id e < u64_max \<longrightarrow> exec_ids_ok e" "next_exec_id e = (x, e1)" "rp_exec_id r = x"
    "en_next_exec_id (send e1 r) < u64_max"
  shows "exec_ids_ok (send e1 r)"
proof -
  let ?n = "en_next_exec_id e"
  have e1: "x = exec_name (saturating_inc_u64 ?n)" "e1 = e\<lparr>en_next_exec_id := saturating_inc_u64 ?n\<rparr>"
    using assms(2) by (auto simp: next_exec_id_def Let_def exec_name_def)
  have "en_next_exec_id (send e1 r) = en_next_exec_id e1" by (simp add: send_def split: option.split)
  then have lt: "?n < u64_max" and inc: "saturating_inc_u64 ?n = ?n + 1"
    using assms(4) e1(2) by (auto simp: saturating_inc_u64_def split: if_splits)
  obtain ks where ks: "map (\<lambda>p. rp_exec_id (snd p)) (en_sent e) = map exec_name ks" "sorted_wrt (<) ks"
    "\<forall>k \<in> set ks. k \<le> ?n"
    using assms(1) lt by (auto simp: exec_ids_ok_def)
  have "sorted_wrt (<) (ks @ [?n + 1])" using ks(2,3) by (auto simp: sorted_wrt_append)
  moreover have "\<forall>k \<in> set (ks @ [?n + 1]). k \<le> ?n + 1" using ks(3) by auto
  ultimately have "exec_ids_ok (e1\<lparr>en_sent := en_sent e1 @ [(s, r)]\<rparr>)" for s
    unfolding exec_ids_ok_def using e1 ks(1) inc assms(3) by (intro exI [of _ "ks @ [?n + 1]"]) simp
  moreover have "exec_ids_ok e1"
    unfolding exec_ids_ok_def using e1 ks inc by (intro exI [of _ ks]) auto
  ultimately show ?thesis by (auto simp: send_def split: option.split)
qed

lemma send_frame [simp]:
  "en_books (send e r) = en_books e" "en_market_data (send e r) = en_market_data e"
  "en_pending (send e r) = en_pending e" "en_next_exec_id (send e r) = en_next_exec_id e"
  "en_instruments (send e r) = en_instruments e" "en_policy (send e r) = en_policy e"
  "en_sessions (send e r) = en_sessions e"
  by (simp_all add: send_def split: option.split)

lemma next_exec_frame:
  assumes "next_exec_id e = (x, e')"
  shows "en_books e' = en_books e" "en_market_data e' = en_market_data e" "en_pending e' = en_pending e"
    "en_sessions e' = en_sessions e" "en_policy e' = en_policy e"
  using assms by (auto simp: next_exec_id_def Let_def)

lemma record_frame:
  assumes "record_market_data D e inst ts = Some e'"
  shows "en_books e' = en_books e" "en_market_data e' = en_market_data e" "en_sent e' = en_sent e"
    "en_next_exec_id e' = en_next_exec_id e" "en_sessions e' = en_sessions e" "en_policy e' = en_policy e"
    "en_pending e' = AList.update inst (wrap_u64 (en_sequence e + 1)) (en_pending e)"
    "en_instruments e' = en_instruments e" "en_next_arrival e' = en_next_arrival e"
  using assms by (auto simp: record_market_data_def Let_def rust_bind)

lemma publish_one_shape:
  assumes "publish_one e p = Some e'"
  obtains st md where "e' = e\<lparr>en_books := (en_books e)(fst p \<mapsto> book_for e (fst p)), en_stats := st, en_market_data := md\<rparr>"
  using assms by (auto simp: publish_one_def Let_def rust_bind)

lemma publish_all_shape:
  assumes "publish_all e ps = Some e'"
  shows "\<exists>bks st md. e' = e\<lparr>en_books := bks, en_stats := st, en_market_data := md\<rparr> \<and>
    (\<forall>inst. book_for e' inst = book_for e inst) \<and> (books_ok e \<longrightarrow> books_ok e')"
  using assms
proof (induction ps arbitrary: e)
  case Nil
  then show ?case
    by (intro exI [of _ "en_books e"] exI [of _ "en_stats e"] exI [of _ "en_market_data e"]) simp
next
  case (Cons p ps)
  obtain e1 where e1: "publish_one e p = Some e1" "publish_all e1 ps = Some e'"
    using Cons.prems by (auto simp: rust_bind)
  obtain st md where s: "e1 = e\<lparr>en_books := (en_books e)(fst p \<mapsto> book_for e (fst p)), en_stats := st, en_market_data := md\<rparr>"
    using publish_one_shape [OF e1(1)] .
  have b: "book_for e1 inst = book_for e inst" for inst
    by (cases "inst = fst p") (simp_all add: s book_for_def)
  have o: "books_ok e \<Longrightarrow> books_ok e1"
    using book_for_ok [of e "fst p"] by (auto simp: s books_ok_def)
  obtain bks st' md' where "e' = e1\<lparr>en_books := bks, en_stats := st', en_market_data := md'\<rparr>"
    "\<forall>inst. book_for e' inst = book_for e1 inst" "books_ok e1 \<longrightarrow> books_ok e'"
    using Cons.IH [OF e1(2)] by blast
  then show ?case using b o s by (intro exI [of _ bks] exI [of _ st'] exI [of _ md']) simp
qed

lemma publish_frame:
  assumes "publish_market_data e = Some e'"
  shows "en_sent e' = en_sent e" "en_next_exec_id e' = en_next_exec_id e" "en_sessions e' = en_sessions e"
    "en_policy e' = en_policy e" "en_pending e' = []" "en_instruments e' = en_instruments e"
    "book_for e' inst = book_for e inst" "en_next_arrival e' = en_next_arrival e" "books_ok e \<Longrightarrow> books_ok e'"
proof -
  obtain bks st md where s: "e' = e\<lparr>en_pending := [], en_books := bks, en_stats := st, en_market_data := md\<rparr>"
    and b: "\<forall>inst. book_for e' inst = book_for (e\<lparr>en_pending := []\<rparr>) inst" "books_ok (e\<lparr>en_pending := []\<rparr>) \<longrightarrow> books_ok e'"
    using publish_all_shape [OF assms [unfolded publish_market_data_def]] by blast
  show "en_sent e' = en_sent e" "en_next_exec_id e' = en_next_exec_id e" "en_sessions e' = en_sessions e"
    "en_policy e' = en_policy e" "en_pending e' = []" "en_instruments e' = en_instruments e"
    "en_next_arrival e' = en_next_arrival e"
    unfolding s by simp_all
  have "book_for (e\<lparr>en_pending := []\<rparr>) inst = book_for e inst" "books_ok (e\<lparr>en_pending := []\<rparr>) = books_ok e"
    by (simp_all add: book_for_def books_ok_def)
  then show "book_for e' inst = book_for e inst" "books_ok e \<Longrightarrow> books_ok e'"
    using b by metis+
qed

interpretation exec_ids: engine_invariant D ids_inv for D
proof unfold_locales
  fix X u e and inst :: int and ts e'
  assume "ids_inv X u e" "record_market_data D e inst ts = Some e'"
  then show "ids_inv (X - {inst}) True e'"
    by (simp add: ids_inv_def exec_ids_ok_def books_ok_def record_frame)
next
  fix X u e e'
  assume "ids_inv X u e" "publish_market_data e = Some e'"
  then show "ids_inv X False e'"
    by (simp add: ids_inv_def exec_ids_ok_def publish_frame)
next
  fix X u e x e' and r :: report
  assume a: "ids_inv X u e" "next_exec_id e = (x, e')" "rp_exec_id r = x"
  then show "ids_inv X u (send e' r)"
    using exec_ids_emit [OF _ a(2,3)] by (simp add: ids_inv_def books_ok_def next_exec_frame [OF a(2)])
qed (auto simp: ids_inv_def exec_ids_ok_def books_ok_def with_fill_policy_def register_session_def)

section \<open>Market data\<close>

text \<open>The snapshot published for an instrument shows the book \<open>b\<close>, under the version it carries.\<close>

definition shown :: "engine \<Rightarrow> int \<Rightarrow> order_book \<Rightarrow> bool" where
  "shown e inst b \<longleftrightarrow> (\<exists>sn. md_snapshot (en_market_data e) inst = Some sn \<and>
     sn_book sn = (ob_build_book b)\<lparr>bk_sequence := sn_version sn\<rparr>)"

definition market_inv :: "int set \<Rightarrow> bool \<Rightarrow> engine \<Rightarrow> bool" where
  "market_inv X u e \<longleftrightarrow> books_ok e \<and> (u \<or> en_pending e = []) \<and>
     (\<forall>inst b. en_books e inst = Some b \<longrightarrow>
        inst \<in> X \<or> inst \<in> fst ` set (en_pending e) \<or> shown e inst b)"

lemma publish_one_shown:
  assumes "publish_one e p = Some e'" "books_ok e"
  shows "shown e' (fst p) (book_for e (fst p))" "inst \<noteq> fst p \<Longrightarrow> shown e' inst b = shown e inst b"
proof -
  let ?b = "book_for e (fst p)"
  let ?bk = "(ob_build_book ?b)\<lparr>bk_sequence := snd p\<rparr>"
  have i: "ob_instrument ?b = fst p" using book_for_ok [OF assms(2)] by blast
  obtain st pb where p: "md_publish (en_market_data e) ?bk (stats_top st ?bk) = Some pb" "en_market_data e' = pb"
    using assms(1) by (auto simp: publish_one_def Let_def rust_bind)
  have "bk_instrument ?bk = fst p" "bk_sequence ?bk = snd p" using i by (simp_all add: ob_build_book_def)
  then have "(en_market_data e)\<lparr>pb_slots := (pb_slots (en_market_data e))(fst p \<mapsto>
      \<lparr>sn_book = ?bk, sn_stats = stats_top st ?bk, sn_version = snd p\<rparr>)\<rparr> = pb"
    using p(1) by (simp add: md_publish_def split: option.splits)
  from this [symmetric] have "pb_slots pb = (pb_slots (en_market_data e))(fst p \<mapsto>
      \<lparr>sn_book = ?bk, sn_stats = stats_top st ?bk, sn_version = snd p\<rparr>)" by simp
  then show "shown e' (fst p) ?b" "inst \<noteq> fst p \<Longrightarrow> shown e' inst b = shown e inst b"
    using p(2) by (simp_all add: shown_def md_snapshot_def)
qed

lemma publish_all_shown:
  assumes "publish_all e ps = Some e'" "books_ok e"
    "\<forall>inst b. en_books e inst = Some b \<longrightarrow> inst \<in> X \<or> inst \<in> fst ` set ps \<or> shown e inst b"
  shows "\<forall>inst b. en_books e' inst = Some b \<longrightarrow> inst \<in> X \<or> shown e' inst b"
  using assms
proof (induction ps arbitrary: e)
  case (Cons p ps)
  obtain e1 where e1: "publish_one e p = Some e1" "publish_all e1 ps = Some e'"
    using Cons.prems by (auto simp: rust_bind)
  obtain st md where s: "e1 = e\<lparr>en_books := (en_books e)(fst p \<mapsto> book_for e (fst p)), en_stats := st, en_market_data := md\<rparr>"
    using publish_one_shape [OF e1(1)] .
  have o: "books_ok e1"
    using book_for_ok [OF Cons.prems(2), of "fst p"] Cons.prems(2) by (auto simp: s books_ok_def)
  have bk: "en_books e1 = (en_books e)(fst p \<mapsto> book_for e (fst p))" by (simp add: s)
  show ?case
    by (rule Cons.IH [OF e1(2) o])
      (use Cons.prems(3) publish_one_shown [OF e1(1) Cons.prems(2)] bk in \<open>auto split: if_splits\<close>)
qed simp

interpretation market: engine_invariant D market_inv for D
proof unfold_locales
  fix X u e and inst :: int and ts e'
  assume "market_inv X u e" "record_market_data D e inst ts = Some e'"
  then show "market_inv (X - {inst}) True e'"
    by (auto simp: market_inv_def shown_def books_ok_def record_frame dom_update)
next
  fix X u e e'
  assume a: "market_inv X u e" "publish_market_data e = Some e'"
  have "\<forall>inst b. en_books e' inst = Some b \<longrightarrow> inst \<in> X \<or> shown e' inst b"
    by (rule publish_all_shown [OF a(2) [unfolded publish_market_data_def]])
      (use a(1) in \<open>auto simp: market_inv_def books_ok_def shown_def\<close>)
  then show "market_inv X False e'" using a by (simp add: market_inv_def publish_frame)
next
  fix X u and e :: engine and m insts
  let ?e = "e\<lparr>en_instruments := m, en_market_data := md_register (en_market_data e) insts\<rparr>"
  assume a: "market_inv X u e"
  have "shown ?e inst b" if "shown e inst b" for inst b
    using that slots_register_mono [of "en_market_data e" inst _ insts] by (auto simp: shown_def md_snapshot_def)
  then show "market_inv X u ?e" using a unfolding market_inv_def books_ok_def by simp blast
next
  fix X u e x e' and r :: report
  assume a: "market_inv X u e" "next_exec_id e = (x, e')"
  then show "market_inv X u (send e' r)"
    by (simp add: market_inv_def books_ok_def shown_def next_exec_frame [OF a(2)])
next
  fix X u v Y and e :: engine
  assume "market_inv X u e" "X \<subseteq> Y" "u \<Longrightarrow> v"
  then show "market_inv Y v e" unfolding market_inv_def by blast
qed (auto simp: market_inv_def books_ok_def shown_def with_fill_policy_def register_session_def)

section \<open>Properties\<close>

text \<open>
  C9. Readers see the current book: in every history of the engine, under either fill policy, no change is
  left unpublished after a call, and for every book the published snapshot of its instrument is exactly the
  depth of that book, stamped with the version of the publication.
\<close>

theorem published_book_is_current:
  assumes "run (engine_step D) (with_fill_policy p) cs e" "en_books e inst = Some b"
  shows "en_pending e = [] \<and> (\<exists>sn. md_snapshot (en_market_data e) inst = Some sn \<and>
    sn_book sn = (ob_build_book b)\<lparr>bk_sequence := sn_version sn\<rparr>)"
proof -
  have "market_inv {} False e" using market.reachable_inv [OF _ assms(1)] by blast
  then show ?thesis using assms(2) by (auto simp: market_inv_def shown_def)
qed

theorem published_book_is_current_witness:
  "\<exists>e b sn. run (engine_step sample_decimal) (with_fill_policy Real_Fill) sample_calls e \<and>
     en_books e 1 = Some b \<and> md_snapshot (en_market_data e) 1 = Some sn \<and>
     sn_book sn = (ob_build_book b)\<lparr>bk_sequence := sn_version sn\<rparr>"
proof -
  obtain e b where "run (engine_step sample_decimal) (with_fill_policy Real_Fill) sample_calls e"
    "en_books e 1 = Some b"
    using sample_history by (elim exE conjE) (rule that)
  with published_book_is_current [OF this] show ?thesis by metis
qed

text \<open>
  C11. Execution identifiers are unique: in every history in which the 64-bit counter is not exhausted, no
  two reports handed to a session carry the same execution identifier.
\<close>

theorem exec_ids_unique:
  assumes "run (engine_step D) (with_fill_policy p) cs e" "en_next_exec_id e < u64_max"
  shows "distinct (map (\<lambda>r. rp_exec_id (snd r)) (en_sent e))"
proof -
  have "ids_inv {} False e" using exec_ids.reachable_inv [OF _ assms(1)] by blast
  then obtain ks where "map (\<lambda>r. rp_exec_id (snd r)) (en_sent e) = map exec_name ks" "sorted_wrt (<) ks"
    using assms(2) by (auto simp: ids_inv_def exec_ids_ok_def)
  then show ?thesis
    using strict_sorted_iff [of ks] exec_name_inj by (auto simp: distinct_map inj_on_def)
qed

theorem exec_ids_unique_witness:
  "\<exists>e. run (engine_step sample_decimal) (with_fill_policy Real_Fill) sample_calls e \<and>
     map fst (en_sent e) = [''A''] \<and> distinct (map (\<lambda>r. rp_exec_id (snd r)) (en_sent e))"
proof -
  obtain e where e: "run (engine_step sample_decimal) (with_fill_policy Real_Fill) sample_calls e"
    "en_next_exec_id e = 1" "map fst (en_sent e) = [''A'']"
    using sample_history by (elim exE conjE) (rule that)
  from exec_ids_unique [OF e(1)] e show ?thesis by auto
qed

text \<open>
  C10. A rejected request changes nothing: whenever creating, replacing or cancelling an order or quoting
  fails with a business error, the engine is exactly as it was. Only an internal book fault can leave
  changes behind, and it is the one error that does not count as a rejection.
\<close>

theorem rejected_requests_change_nothing:
  assumes "create_order D today e s new = Some (Inl err, e') \<or>
      modify_order_with_type D today e s orig new_id ty p q = Some (Inl err, e') \<or>
      cancel_order_with_id D e s orig cl = Some (Inl err, e') \<or>
      quote D e s inst bp bq ap aq = Some (Inl err, e')"
    "\<not> is_violation err"
  shows "e' = e"
  using assms(1)
proof (elim disjE)
  assume a: "create_order D today e s new = Some (Inl err, e')"
  then show ?thesis by (cases rule: create_order_cases) (use assms(2) create_in_book_error in auto)
next
  assume a: "modify_order_with_type D today e s orig new_id ty p q = Some (Inl err, e')"
  then show ?thesis by (cases rule: modify_order_cases) (use assms(2) replace_in_book_error in auto)
next
  assume a: "cancel_order_with_id D e s orig cl = Some (Inl err, e')"
  then show ?thesis by (cases rule: cancel_order_cases) auto
next
  assume a: "quote D e s inst bp bq ap aq = Some (Inl err, e')"
  then show ?thesis by (cases rule: quote_cases) auto
qed

theorem rejected_requests_change_nothing_witness:
  "cancel_order_with_id sample_decimal (with_fill_policy Real_Fill) ''A'' 1 2 =
     Some (Inl OrderNotFound, with_fill_policy Real_Fill)"
proof -
  obtain e' where r: "cancel_order_with_id sample_decimal (with_fill_policy Real_Fill) ''A'' 1 2 = Some (Inl OrderNotFound, e')"
    by (simp add: cancel_order_with_id_def validate_order_id_def QUOTE_ORDER_ID_def with_fill_policy_def)
  then have "e' = with_fill_policy Real_Fill"
    by (intro rejected_requests_change_nothing [where err = OrderNotFound]) auto
  with r show ?thesis by simp
qed

end
