(* ===== verification/Queue.thy ===== *)
theory Queue
  imports Transition
begin

text \<open>
  The bounded, nonblocking queues of \<open>src/queue.rs\<close>. A \<open>Sender\<close> wraps the standard \<open>SyncSender\<close> and a
  failure flag: the first send that does not fit sets the flag, and a sender whose flag is set refuses
  everything. The standard channel is a buffer of a fixed capacity whose receiver may be dropped.
  \<open>send_q\<close> returns the value inside the error, as \<open>TrySendError\<close> does. A send is one step of the model: it reads the flag,
  tries the buffer and sets the flag without another thread in between. In the code a clone of the sender that has
  read the flag as clear may still fill a place that came free after another clone was refused; no history here has that.
\<close>

definition CAPACITY :: nat where
  "CAPACITY = 1024"

datatype 'a try_send_error = Full 'a | Disconnected 'a

text \<open>\<open>SyncSender::try_send\<close> and the receiving end.\<close>

record 'a channel =
  ch_items :: "'a list"
  ch_capacity :: nat
  ch_open :: bool
  ch_failed :: bool

definition try_send :: "'a channel \<Rightarrow> 'a \<Rightarrow> ('a try_send_error + unit) \<times> 'a channel" where
  "try_send c v =
     (if \<not> ch_open c then (Inl (Disconnected v), c)
      else if length (ch_items c) < ch_capacity c then (Inr (), c\<lparr>ch_items := ch_items c @ [v]\<rparr>)
      else (Inl (Full v), c))"

definition recv :: "'a channel \<Rightarrow> ('a \<times> 'a channel) option" where
  "recv c = (case ch_items c of [] \<Rightarrow> None | v # vs \<Rightarrow> Some (v, c\<lparr>ch_items := vs\<rparr>))"

definition drop_receiver :: "'a channel \<Rightarrow> 'a channel" where
  "drop_receiver c = c\<lparr>ch_open := False, ch_items := []\<rparr>"

definition channel_with_flag :: "nat \<Rightarrow> bool \<Rightarrow> 'a channel" where
  "channel_with_flag capacity failed =
     \<lparr>ch_items = [], ch_capacity = capacity, ch_open = True, ch_failed = failed\<rparr>"

definition channel_new :: "'a channel" where
  "channel_new = channel_with_flag CAPACITY False"

definition send_q :: "'a channel \<Rightarrow> 'a \<Rightarrow> ('a try_send_error + unit) \<times> 'a channel" where
  "send_q c v =
     (if ch_failed c then (Inl (Disconnected v), c)
      else case try_send c v of
             (Inl e, c') \<Rightarrow> (Inl e, c'\<lparr>ch_failed := True\<rparr>)
           | (Inr u, c') \<Rightarrow> (Inr u, c'))"

section \<open>Sequences of calls\<close>

datatype 'a queue_call = Send 'a "'a try_send_error + unit" | Recv 'a | DropReceiver | FailShared

text \<open>One call on the channel; \<open>FailShared\<close> is another holder of the flag setting it.\<close>

inductive queue_step :: "'a channel \<Rightarrow> 'a queue_call \<Rightarrow> 'a channel \<Rightarrow> bool" where
  q_send: "send_q c v = (r, c') \<Longrightarrow> queue_step c (Send v r) c'"
| q_recv: "recv c = Some (v, c') \<Longrightarrow> queue_step c (Recv v) c'"
| q_drop: "queue_step c DropReceiver (drop_receiver c)"
| q_fail: "queue_step c FailShared (c\<lparr>ch_failed := True\<rparr>)"

inductive_cases queue_stepE: "queue_step c l c'"

fun accepted :: "'a queue_call list \<Rightarrow> 'a list" where
  "accepted [] = []"
| "accepted (Send v (Inr _) # ls) = v # accepted ls"
| "accepted (_ # ls) = accepted ls"

fun received :: "'a queue_call list \<Rightarrow> 'a list" where
  "received [] = []"
| "received (Recv v # ls) = v # received ls"
| "received (_ # ls) = received ls"

fun attempted :: "'a queue_call list \<Rightarrow> 'a list" where
  "attempted [] = []"
| "attempted (Send v _ # ls) = v # attempted ls"
| "attempted (_ # ls) = attempted ls"

definition channel_ok :: "'a channel \<Rightarrow> bool" where
  "channel_ok c \<longleftrightarrow> length (ch_items c) \<le> ch_capacity c \<and> (\<not> ch_open c \<longrightarrow> ch_items c = [])"

lemma send_q_cases:
  obtains (failed) "ch_failed c" "send_q c v = (Inl (Disconnected v), c)"
  | (dropped) "\<not> ch_failed c" "\<not> ch_open c" "send_q c v = (Inl (Disconnected v), c\<lparr>ch_failed := True\<rparr>)"
  | (full) "\<not> ch_failed c" "ch_open c" "ch_capacity c \<le> length (ch_items c)"
      "send_q c v = (Inl (Full v), c\<lparr>ch_failed := True\<rparr>)"
  | (sent) "\<not> ch_failed c" "ch_open c" "length (ch_items c) < ch_capacity c"
      "send_q c v = (Inr (), c\<lparr>ch_items := ch_items c @ [v]\<rparr>)"
  by (cases "ch_failed c"; cases "ch_open c"; cases "length (ch_items c) < ch_capacity c")
    (auto simp: send_q_def try_send_def not_less)

interpretation mailbox: invariant_system "\<lambda>c. \<exists>n f. c = channel_with_flag n f" queue_step channel_ok
proof
  show "channel_ok s" if "\<exists>n f. s = channel_with_flag n f" for s :: "'a channel"
    using that by (auto simp: channel_ok_def channel_with_flag_def)
  show "channel_ok t" if "channel_ok s" "queue_step s l t" for s t :: "'a channel" and l
    using that(2)
  proof (cases rule: queue_step.cases)
    case (q_send v r)
    then show ?thesis using that(1) by (cases rule: send_q_cases [of s v]) (auto simp: channel_ok_def)
  qed (use that(1) in \<open>auto simp: channel_ok_def recv_def drop_receiver_def split: list.splits\<close>)
qed

text \<open>What one call does to the flag, the buffer and the two ghost sequences.\<close>

lemma queue_step_fifo:
  assumes "queue_step c l c'" "l \<noteq> DropReceiver"
  shows "received [l] @ ch_items c' = ch_items c @ accepted [l]"
  using assms
proof (cases rule: queue_step.cases)
  case (q_send v r)
  then show ?thesis by (cases rule: send_q_cases [of c v]) auto
qed (auto simp: recv_def split: list.splits)

lemma queue_step_flag:
  assumes "queue_step c l c'"
  shows "ch_failed c \<Longrightarrow> ch_failed c'" "ch_failed c \<Longrightarrow> accepted [l] = []"
    "\<not> ch_failed c' \<Longrightarrow> accepted [l] = attempted [l]"
proof -
  have "(ch_failed c \<longrightarrow> ch_failed c' \<and> accepted [l] = []) \<and> (\<not> ch_failed c' \<longrightarrow> accepted [l] = attempted [l])"
    using assms
  proof (cases rule: queue_step.cases)
    case (q_send v r)
    then show ?thesis by (cases rule: send_q_cases [of c v]) auto
  qed (auto simp: recv_def drop_receiver_def split: list.splits)
  then show "ch_failed c \<Longrightarrow> ch_failed c'" "ch_failed c \<Longrightarrow> accepted [l] = []"
    "\<not> ch_failed c' \<Longrightarrow> accepted [l] = attempted [l]" by blast+
qed

lemma trace_Cons:
  "accepted (l # ls) = accepted [l] @ accepted ls" "received (l # ls) = received [l] @ received ls"
  "attempted (l # ls) = attempted [l] @ attempted ls"
  by (cases l rule: queue_call.exhaust; (simp; cases "case l of Send v r \<Rightarrow> r | _ \<Rightarrow> Inr ()"; simp)?; simp)+

lemma queue_step_capacity:
  assumes "queue_step c l c'"
  shows "ch_capacity c' = ch_capacity c"
  using assms
proof (cases rule: queue_step.cases)
  case (q_send v r)
  then show ?thesis by (cases rule: send_q_cases [of c v]) auto
qed (auto simp: recv_def drop_receiver_def split: list.splits)

lemma run_capacity: "run queue_step c ls c' \<Longrightarrow> ch_capacity c' = ch_capacity c"
  by (induction rule: run.induct) (auto dest: queue_step_capacity)

lemma run_fifo:
  assumes "run queue_step c ls c'" "DropReceiver \<notin> set ls"
  shows "received ls @ ch_items c' = ch_items c @ accepted ls"
  using assms
proof (induction rule: run.induct)
  case (run_cons c l t ls u)
  then have "received [l] @ ch_items t = ch_items c @ accepted [l]" "received ls @ ch_items u = ch_items t @ accepted ls"
    using queue_step_fifo [OF run_cons(1)] by auto
  then show ?case unfolding trace_Cons(1,2) [of l ls] by (metis append.assoc)
qed simp

lemma run_refuses: "run queue_step c ls c' \<Longrightarrow> ch_failed c \<Longrightarrow> accepted ls = []"
proof (induction rule: run.induct)
  case (run_cons c l t ls u)
  then show ?case using queue_step_flag [OF run_cons(1)] unfolding trace_Cons(1) [of l ls] by simp
qed simp

lemma run_lossless:
  assumes "run queue_step c ls c'"
  shows "\<exists>lost. attempted ls = accepted ls @ lost \<and> (lost \<noteq> [] \<longrightarrow> ch_failed c')"
  using assms
proof (induction rule: run.induct)
  case (run_cons c l t ls u)
  obtain lost where i: "attempted ls = accepted ls @ lost" "lost \<noteq> [] \<longrightarrow> ch_failed u" using run_cons.IH by blast
  have mono: "ch_failed u" if "ch_failed t"
    using run_cons(2) that by (induction rule: run.induct) (auto dest: queue_step_flag(1))
  show ?case
  proof (cases "ch_failed t")
    case True
    then have "accepted ls = []" by (rule run_refuses [OF run_cons(2)])
    moreover have "\<exists>x. attempted [l] = accepted [l] @ x"
      by (cases l rule: queue_call.exhaust) (simp, cases "case l of Send v r \<Rightarrow> r | _ \<Rightarrow> Inr ()", auto)
    ultimately show ?thesis using True mono unfolding trace_Cons(1,3) [of l ls] by auto
  next
    case False
    then show ?thesis using queue_step_flag(3) [OF run_cons(1)] i unfolding trace_Cons(1,3) [of l ls] by simp
  qed
qed simp

section \<open>Properties\<close>

text \<open>
  C16. A queue is bounded, first-in first-out and fails closed: in every sequence of calls, each one step, on a fresh
  channel, the buffer never exceeds its capacity; while the receiver is kept, the values received are, in
  order, a prefix of the values accepted and the rest is buffered; the accepted values are a prefix of the
  attempted ones, and if anything was refused the failure flag is set, after which nothing more is accepted.
\<close>

theorem queue_fifo_fails_closed:
  assumes "run queue_step (channel_with_flag n False) ls c"
  shows "length (ch_items c) \<le> n \<and>
    (DropReceiver \<in> set ls \<or> accepted ls = received ls @ ch_items c) \<and>
    (\<exists>lost. attempted ls = accepted ls @ lost \<and> (lost = [] \<or> ch_failed c)) \<and>
    (\<forall>ms c'. ch_failed c \<longrightarrow> run queue_step c ms c' \<longrightarrow> accepted ms = [])"
proof -
  have "channel_ok c" using mailbox.reachable_inv [OF _ assms] by blast
  moreover have "ch_capacity c = n"
    using run_capacity [OF assms] by (simp add: channel_with_flag_def)
  ultimately have "length (ch_items c) \<le> n" by (simp add: channel_ok_def)
  moreover have "DropReceiver \<in> set ls \<or> accepted ls = received ls @ ch_items c"
    using run_fifo [OF assms] by (cases "DropReceiver \<in> set ls") (simp_all add: channel_with_flag_def)
  ultimately show ?thesis using run_lossless [OF assms] run_refuses by blast
qed

theorem queue_fifo_fails_closed_witness:
  "\<exists>c. run queue_step (channel_with_flag 1 False) [Send (5 :: int) (Inr ()), Send 6 (Inl (Full 6)), Recv 5] c \<and>
     ch_failed c \<and> length (ch_items c) \<le> 1"
proof -
  let ?c = "\<lparr>ch_items = [], ch_capacity = 1, ch_open = True, ch_failed = True\<rparr> :: int channel"
  have r: "run queue_step (channel_with_flag 1 False) [Send (5 :: int) (Inr ()), Send 6 (Inl (Full 6)), Recv 5] ?c"
    by (intro run_cons run_nil queue_step.intros)
      (auto simp: send_q_def try_send_def recv_def channel_with_flag_def)
  have "length (ch_items ?c) \<le> 1" using queue_fifo_fails_closed [OF r] by blast
  then show ?thesis using r by (intro exI [of _ ?c]) simp
qed

end
