(* ===== verification/Frame.thy ===== *)
theory Frame
  imports Text
begin

text \<open>
  FIX tag=value framing (\<open>src/fix/frame.rs\<close>): the incremental \<open>FrameReader\<close>, the parser of one complete
  wire message, and the serializer. A byte is a \<^typ>\<open>char\<close>. The stream behind a reader is the list of
  results its \<open>read\<close> calls will give: some bytes, an interruption, or an error; an exhausted list is end of
  file, and a read takes at most the bytes asked for from the first chunk. The sending time is an argument
  of \<open>frame\<close>.
\<close>

definition SOH :: char where "SOH = CHR 0x01"
definition MAX_MESSAGE_SIZE :: nat where "MAX_MESSAGE_SIZE = 1024 * 1024"
definition MAX_PREFIX_SIZE :: nat where "MAX_PREFIX_SIZE = 64"

type_synonym fields = "(nat \<times> string) list"

record fix_message =
  fm_begin :: string
  fm_fields :: fields
  fm_raw :: string

definition fm_get :: "fix_message \<Rightarrow> nat \<Rightarrow> string option" where
  "fm_get m tag = map_of (fm_fields m) tag"

definition fm_msg_type :: "fix_message \<Rightarrow> string option" where
  "fm_msg_type m = fm_get m 35"

definition fm_seq :: "fix_message \<Rightarrow> nat option" where
  "fm_seq m = (case fm_get m 34 of None \<Rightarrow> None | Some v \<Rightarrow> parse_u64 v)"

datatype frame_error =
    ExpectedBeginString | ExpectedBodyLength | BadBodyLength | MessageTooLong | BodyLengthTooSmall
  | HeaderTooLong | NonAscii | Truncated | ExpectedCheckSum | CheckSumMismatch | MsgTypeNotThird
  | BadField | BadTagOrValue | BadTag | ZeroTag | FramingFieldInBody | ReadError

section \<open>Parsing one message\<close>

text \<open>\<open>iter().position(|b| *b == SOH)\<close>\<close>

definition soh_position :: "string \<Rightarrow> nat option" where
  "soh_position s = (if SOH \<in> set s then Some (length (takeWhile (\<lambda>c. c \<noteq> SOH) s)) else None)"

definition parse_field :: "string \<Rightarrow> frame_error + (nat \<times> string)" where
  "parse_field part =
     (case split_once (CHR ''='') part of
        None \<Rightarrow> Inl BadField
      | Some (tag, value) \<Rightarrow>
          if tag = [] \<or> \<not> all_digits tag \<or> value = [] then Inl BadTagOrValue
          else case parse_u32 tag of
                 None \<Rightarrow> Inl BadTag
               | Some t \<Rightarrow> if t = 0 then Inl ZeroTag else Inr (t, value))"

fun parse_parts :: "string list \<Rightarrow> frame_error + fields" where
  "parse_parts [] = Inr []"
| "parse_parts (p # ps) =
     (case parse_field p of
        Inl e \<Rightarrow> Inl e
      | Inr f \<Rightarrow> (case parse_parts ps of Inl e \<Rightarrow> Inl e | Inr fs \<Rightarrow> Inr (f # fs)))"

definition strip_soh :: "string \<Rightarrow> string" where
  "strip_soh s = (if ends_with_char SOH s then butlast s else s)"

definition parse_fields :: "string \<Rightarrow> frame_error + fields" where
  "parse_fields body = parse_parts (split_char SOH (strip_soh body))"

definition wire_char :: "char \<Rightarrow> bool" where
  "wire_char c \<longleftrightarrow> c = SOH \<or> 32 \<le> (of_char c :: nat) \<and> (of_char c :: nat) \<le> 126"

definition checksum_u8 :: "string \<Rightarrow> nat" where
  "checksum_u8 s = foldl (\<lambda>acc c. (acc + of_char c) mod 256) 0 s"

definition parse_wire :: "string \<Rightarrow> frame_error + fix_message" where
  "parse_wire wire =
     (if \<not> list_all wire_char wire then Inl NonAscii
      else case soh_position wire of
        None \<Rightarrow> Inl Truncated
      | Some begin_end \<Rightarrow>
        (case soh_position (drop (begin_end + 1) wire) of
           None \<Rightarrow> Inl Truncated
         | Some rel \<Rightarrow>
           let length_end = begin_end + 1 + rel;
               checksum_start = length wire - 7;
               trailer = drop checksum_start wire
           in if take 3 trailer \<noteq> ''10='' \<or> trailer ! 6 \<noteq> SOH \<or> \<not> all_digits (take 3 (drop 3 trailer))
              then Inl ExpectedCheckSum
              else if digits_val (take 3 (drop 3 trailer)) \<noteq> checksum_u8 (take checksum_start wire)
              then Inl CheckSumMismatch
              else let body = take (checksum_start - (length_end + 1)) (drop (length_end + 1) wire)
                   in if \<not> starts_with ''35='' body \<or> \<not> ends_with_char SOH body then Inl MsgTypeNotThird
                      else case parse_fields body of
                             Inl e \<Rightarrow> Inl e
                           | Inr fs \<Rightarrow>
                               if \<exists>f \<in> set fs. fst f \<in> {8, 9, 10} then Inl FramingFieldInBody
                               else Inr \<lparr>fm_begin = take (begin_end - 2) (drop 2 wire), fm_fields = fs, fm_raw = wire\<rparr>))"

section \<open>The incremental reader\<close>

text \<open>The total length of the frame, once the two header fields are complete.\<close>

definition header_total :: "string \<Rightarrow> frame_error + nat option" where
  "header_total pending =
     (case soh_position pending of
        None \<Rightarrow> if MAX_PREFIX_SIZE \<le> length pending then Inl HeaderTooLong else Inr None
      | Some first_end \<Rightarrow>
        (case soh_position (drop (first_end + 1) pending) of
           None \<Rightarrow> if MAX_PREFIX_SIZE \<le> length pending then Inl HeaderTooLong else Inr None
         | Some rel \<Rightarrow>
           let second_end = first_end + 1 + rel;
               begin = take first_end pending;
               len = take rel (drop (first_end + 1) pending)
           in if \<not> starts_with ''8='' begin \<or> length begin \<le> 2 then Inl ExpectedBeginString
              else if \<not> starts_with ''9='' len \<or> length len \<le> 2 \<or> \<not> all_digits (drop 2 len) then Inl ExpectedBodyLength
              else case parse_u64 (drop 2 len) of
                     None \<Rightarrow> Inl BadBodyLength
                   | Some body_len \<Rightarrow>
                       let n = second_end + 1 + body_len + 7
                       in if MAX_MESSAGE_SIZE < n then Inl MessageTooLong
                          else if body_len < 5 then Inl BodyLengthTooSmall
                          else Inr (Some n)))"

datatype read_result = Data string | Interrupted | Failed

record frame_reader =
  fr_input :: "read_result list"
  fr_pending :: string
  fr_total :: "nat option"

definition frame_reader_new :: "read_result list \<Rightarrow> frame_reader" where
  "frame_reader_new input = \<lparr>fr_input = input, fr_pending = [], fr_total = None\<rparr>"

text \<open>One \<open>read\<close> of at most \<open>want\<close> bytes: the result and the stream after it.\<close>

fun read_some :: "nat \<Rightarrow> read_result list \<Rightarrow> read_result \<times> read_result list" where
  "read_some want [] = (Data [], [])"
| "read_some want (Data bs # es) =
     (Data (take want bs), if length bs \<le> want then es else Data (drop want bs) # es)"
| "read_some want (e # es) = (e, es)"

definition want_bytes :: "string \<Rightarrow> nat option \<Rightarrow> nat" where
  "want_bytes pending tot = (case tot of None \<Rightarrow> 1 | Some n \<Rightarrow> min (n - length pending) 8192)"

definition stream_size :: "read_result list \<Rightarrow> nat" where
  "stream_size es = sum_list (map (\<lambda>e. case e of Data bs \<Rightarrow> length bs + 1 | _ \<Rightarrow> 1) es)"

lemma stream_size_simps [simp]:
  "stream_size [] = 0" "stream_size (e # es) = (case e of Data bs \<Rightarrow> length bs + 1 | _ \<Rightarrow> 1) + stream_size es"
  by (simp_all add: stream_size_def)

lemma read_some_size:
  assumes "read_some want es = (r, es')" "r \<noteq> Data []"
  shows "stream_size es' < stream_size es"
  using assms by (cases "(want, es)" rule: read_some.cases) (auto split: if_splits)

text \<open>
  The loop of \<open>read_message\<close>. It ends because every turn that goes on takes bytes or an interruption from
  the stream.
\<close>

function read_loop ::
  "read_result list \<Rightarrow> string \<Rightarrow> nat option \<Rightarrow> (frame_error + fix_message option) \<times> frame_reader" where
  "read_loop input pending tot =
     (case (case tot of None \<Rightarrow> header_total pending | Some n \<Rightarrow> Inr (Some n)) of
        Inl e \<Rightarrow> (Inl e, \<lparr>fr_input = input, fr_pending = pending, fr_total = None\<rparr>)
      | Inr tot \<Rightarrow>
          if tot = Some (length pending)
          then (case parse_wire pending of
                  Inl e \<Rightarrow> (Inl e, \<lparr>fr_input = input, fr_pending = pending, fr_total = tot\<rparr>)
                | Inr message \<Rightarrow> (Inr (Some message), \<lparr>fr_input = input, fr_pending = [], fr_total = None\<rparr>))
          else (case read_some (want_bytes pending tot) input of
                  (Failed, input') \<Rightarrow> (Inl ReadError, \<lparr>fr_input = input', fr_pending = pending, fr_total = tot\<rparr>)
                | (Interrupted, input') \<Rightarrow> read_loop input' pending tot
                | (Data bs, input') \<Rightarrow>
                    if bs = [] then
                      (if pending = [] then Inr None else Inl Truncated,
                       \<lparr>fr_input = input', fr_pending = pending, fr_total = tot\<rparr>)
                    else read_loop input' (pending @ bs) tot))"
  by pat_completeness auto
termination
proof (relation "measure (\<lambda>(input, pending, tot). stream_size input)", goal_cases)
  case (2 input pending tot t' x y)
  then show ?case using read_some_size [OF 2(3) [symmetric]] by simp
next
  case (3 input pending tot t' x y)
  then show ?case using read_some_size [OF 3(3) [symmetric]] by simp
qed simp

declare read_loop.simps [simp del]

definition read_message :: "frame_reader \<Rightarrow> (frame_error + fix_message option) \<times> frame_reader" where
  "read_message r = read_loop (fr_input r) (fr_pending r) (fr_total r)"

section \<open>Serializing\<close>

definition field_text :: "nat \<times> string \<Rightarrow> string" where
  "field_text f = show_nat (fst f) @ CHR ''='' # snd f @ [SOH]"

definition header_fields :: "string \<Rightarrow> nat \<Rightarrow> string \<Rightarrow> string \<Rightarrow> string \<Rightarrow> fields" where
  "header_fields msg_type seq sender target timestamp =
     [(35, msg_type), (34, show_nat seq), (49, sender), (56, target), (52, timestamp)]"

definition frame :: "string \<Rightarrow> string \<Rightarrow> string \<Rightarrow> nat \<Rightarrow> string \<Rightarrow> string \<Rightarrow> fields \<Rightarrow> string" where
  "frame timestamp begin_string msg_type seq sender target fs =
     (let body = concat (map field_text (header_fields msg_type seq sender target timestamp @ fs));
          message = field_text (8, begin_string) @ field_text (9, show_nat (length body)) @ body;
          checksum = (sum_list (map of_char message) mod 4294967296) mod 256
      in message @ field_text (10, show_pad3 checksum))"

end
