(* ===== verification/Frame_Properties.thy ===== *)
theory Frame_Properties
  imports Frame
begin

text \<open>
  Framing is lossless: what \<open>frame\<close> writes, \<open>parse_wire\<close> reads back, and the incremental reader delivers the
  same message however the transport cuts the bytes into chunks, leaving exactly the bytes after it. What
  the parser accepts is intact: printable, with the declared checksum, and made of the fields it returns.
\<close>

section \<open>Fields\<close>

definition plain_value :: "string \<Rightarrow> bool" where
  "plain_value v \<longleftrightarrow> v \<noteq> [] \<and> list_all wire_char v \<and> SOH \<notin> set v"

definition plain_field :: "nat \<times> string \<Rightarrow> bool" where
  "plain_field f \<longleftrightarrow> 0 < fst f \<and> fst f \<le> u32_max \<and> plain_value (snd f)"

lemma soh_code: "(of_char SOH :: nat) = 1"
  by (simp add: SOH_def)

lemma digit_not_soh: "is_ascii_digit c \<Longrightarrow> c \<noteq> SOH"
  using soh_code by (auto simp: is_ascii_digit_def)

lemma digit_not_equals: "is_ascii_digit c \<Longrightarrow> c \<noteq> CHR ''=''"
  by (auto simp: is_ascii_digit_def)

lemma digit_wire: "is_ascii_digit c \<Longrightarrow> wire_char c"
  by (auto simp: is_ascii_digit_def wire_char_def)

lemma show_nat_chars: "SOH \<notin> set (show_nat n)" "CHR ''='' \<notin> set (show_nat n)" "list_all wire_char (show_nat n)"
  using show_nat_digits [of n] digit_not_soh digit_not_equals digit_wire by (auto simp: list_all_iff)

lemma equals_not_soh: "CHR ''='' \<noteq> SOH" "SOH \<noteq> CHR ''=''"
  by (simp_all add: SOH_def)

definition field_part :: "nat \<times> string \<Rightarrow> string" where
  "field_part f = show_nat (fst f) @ CHR ''='' # snd f"

lemma field_text_part: "field_text f = field_part f @ [SOH]"
  by (simp add: field_text_def field_part_def)

lemma field_part_soh: "plain_value (snd f) \<Longrightarrow> SOH \<notin> set (field_part f)"
  using show_nat_chars(1) equals_not_soh by (auto simp: field_part_def plain_value_def)

lemma parse_field_part: "plain_field f \<Longrightarrow> parse_field (field_part f) = Inr f"
  using split_once_append [OF show_nat_chars(2), of "fst f" "snd f"]
  by (cases f) (simp add: parse_field_def field_part_def plain_field_def plain_value_def)

lemma parse_parts_map: "list_all plain_field fs \<Longrightarrow> parse_parts (map field_part fs) = Inr fs"
  by (induction fs) (simp_all add: parse_field_part)

lemma split_fields:
  assumes "fs \<noteq> []" "list_all plain_field fs"
  shows "split_char SOH (butlast (concat (map field_text fs))) = map field_part fs"
  using assms
proof (induction fs)
  case (Cons f fs)
  have f: "SOH \<notin> set (field_part f)" using Cons.prems by (simp add: plain_field_def field_part_soh)
  show ?case
  proof (cases "fs = []")
    case True
    then show ?thesis using f by (simp add: field_text_part split_char_none)
  next
    case False
    then have ne: "concat (map field_text fs) \<noteq> []" by (cases fs) (simp_all add: field_text_part)
    then have "butlast (concat (map field_text (f # fs))) = field_part f @ SOH # butlast (concat (map field_text fs))"
      by (simp add: field_text_part butlast_append)
    then show ?thesis using Cons False split_char_append [OF f] by simp
  qed
qed simp

lemma fields_end: "fs \<noteq> [] \<Longrightarrow> ends_with_char SOH (concat (map field_text fs))"
proof (induction fs)
  case (Cons f fs)
  then show ?case by (cases "fs = []") (auto simp: ends_with_char_def field_text_part)
qed simp

lemma parse_fields_text:
  assumes "fs \<noteq> []" "list_all plain_field fs"
  shows "parse_fields (concat (map field_text fs)) = Inr fs"
  using fields_end [OF assms(1)] split_fields [OF assms] parse_parts_map [OF assms(2)]
  by (simp add: parse_fields_def strip_soh_def)

section \<open>Checksum\<close>

lemma checksum_foldl: "foldl (\<lambda>acc c. (acc + of_char c) mod 256) a s = (a + sum_list (map of_char s)) mod (256 :: nat)"
  if "a < 256"
  using that
proof (induction s arbitrary: a)
  case (Cons c s)
  then have "foldl (\<lambda>acc c. (acc + of_char c) mod 256) ((a + of_char c) mod 256) s =
      ((a + of_char c) mod 256 + sum_list (map of_char s)) mod 256" by simp
  then show ?case by (simp add: mod_add_left_eq add.assoc)
qed simp

lemma checksum_u8_sum: "checksum_u8 s = sum_list (map of_char s) mod 256"
  by (simp add: checksum_u8_def checksum_foldl)

lemma show_nat_length: "n < 1000 \<Longrightarrow> length (show_nat n) \<le> 3"
proof -
  assume "n < 1000"
  then have "n div 10 < 100" "n div 10 div 10 < 10" by simp_all
  then show ?thesis
    by (subst show_nat.simps) (simp, subst show_nat.simps, simp, subst show_nat.simps, simp)
qed

lemma digits_val_zeros: "digits_val (replicate k (CHR ''0'') @ s) = digits_val s"
  by (induction k) (simp_all add: digits_val_def digit_val_def)

lemma show_pad3_props:
  assumes "n < 1000"
  shows "length (show_pad3 n) = 3" "all_digits (show_pad3 n)" "digits_val (show_pad3 n) = n"
proof -
  show "length (show_pad3 n) = 3" using show_nat_length [OF assms] by (simp add: show_pad3_def)
  have "is_ascii_digit (CHR ''0'')" by (simp add: is_ascii_digit_def)
  then show "all_digits (show_pad3 n)"
    using all_digits_show_nat [of n] by (auto simp: show_pad3_def all_digits_def list_all_iff)
  show "digits_val (show_pad3 n) = n" by (simp add: show_pad3_def digits_val_zeros)
qed

section \<open>One frame\<close>

lemma soh_position_append: "SOH \<notin> set p \<Longrightarrow> soh_position (p @ SOH # s) = Some (length p)"
  by (induction p) (auto simp: soh_position_def)

lemma soh_position_none: "SOH \<notin> set p \<Longrightarrow> soh_position p = None"
  by (simp add: soh_position_def)

text \<open>The shape of every frame: two header parts, a body of fields, the trailer.\<close>

definition frame_head :: "string \<Rightarrow> string \<Rightarrow> string" where
  "frame_head begin_string body = field_text (8, begin_string) @ field_text (9, show_nat (length body))"

definition frame_tail :: "string \<Rightarrow> string" where
  "frame_tail message = field_text (10, show_pad3 (sum_list (map of_char message) mod 256))"

lemma frame_shape:
  "frame ts bs mt seq sender target fs =
     (let body = concat (map field_text (header_fields mt seq sender target ts @ fs))
      in frame_head bs body @ body @ frame_tail (frame_head bs body @ body))"
proof -
  have "(n :: nat) mod 4294967296 mod 256 = n mod 256" for n by (rule mod_mod_cancel) simp
  then show ?thesis by (simp add: frame_def frame_head_def frame_tail_def Let_def)
qed

lemma show_8_9_10: "show_nat 8 = ''8''" "show_nat 9 = ''9''" "show_nat 10 = ''10''" "show_nat 35 = ''35''"
  by (simp_all add: show_nat.simps digit_char_def char_of_def bit_0)

lemma frame_head_parts:
  "frame_head bs body = (''8='' @ bs) @ SOH # (''9='' @ show_nat (length body)) @ [SOH]"
  by (simp add: frame_head_def field_text_def show_8_9_10)

lemma frame_tail_parts:
  "frame_tail msg = ''10='' @ show_pad3 (checksum_u8 msg) @ [SOH]" "length (frame_tail msg) = 7"
proof -
  have "checksum_u8 msg < 1000" by (simp add: checksum_u8_sum less_trans [OF mod_less_divisor])
  then show "frame_tail msg = ''10='' @ show_pad3 (checksum_u8 msg) @ [SOH]" "length (frame_tail msg) = 7"
    by (simp_all add: frame_tail_def field_text_def show_8_9_10 checksum_u8_sum [symmetric] show_pad3_props)
qed

lemma wire_chars:
  "wire_char SOH" "list_all wire_char ''8=''" "list_all wire_char ''9=''" "list_all wire_char ''10=''"
  by (simp_all add: wire_char_def)

lemma field_text_wire: "plain_value (snd f) \<Longrightarrow> list_all wire_char (field_text f)"
  using show_nat_chars(3) by (simp add: field_text_def plain_value_def wire_char_def)

lemma body_wire: "list_all plain_field fs \<Longrightarrow> list_all wire_char (concat (map field_text fs))"
  by (induction fs) (simp_all add: field_text_wire plain_field_def)

lemma all_digits_wire: "all_digits s \<Longrightarrow> list_all wire_char s"
  by (simp add: all_digits_def list_all_iff digit_wire)

lemma head_no_soh:
  assumes "plain_value bs"
  shows "SOH \<notin> set (''8='' @ bs)" "SOH \<notin> set (''9='' @ show_nat n)"
  using assms show_nat_chars(1) by (simp_all add: plain_value_def SOH_def)

lemma parse_wire_shape:
  assumes bs: "plain_value bs" and fs: "fs \<noteq> []" "list_all plain_field fs" "\<forall>f \<in> set fs. fst f \<notin> {8, 9, 10}"
    and body: "body = concat (map field_text fs)" "starts_with ''35='' body"
  shows "parse_wire (frame_head bs body @ body @ frame_tail (frame_head bs body @ body)) =
    Inr \<lparr>fm_begin = bs, fm_fields = fs, fm_raw = frame_head bs body @ body @ frame_tail (frame_head bs body @ body)\<rparr>"
proof -
  let ?a = "''8='' @ bs" and ?b = "''9='' @ show_nat (length body)" and ?h = "frame_head bs body"
  let ?msg = "?h @ body" and ?wire = "?h @ body @ frame_tail (?h @ body)"
  have h: "?h = ?a @ SOH # ?b @ [SOH]" by (rule frame_head_parts)
  have t3: "length (show_pad3 (checksum_u8 ?msg)) = 3" "all_digits (show_pad3 (checksum_u8 ?msg))"
    "digits_val (show_pad3 (checksum_u8 ?msg)) = checksum_u8 ?msg"
    using show_pad3_props [of "checksum_u8 ?msg"] by (simp_all add: checksum_u8_sum less_trans [OF mod_less_divisor])
  have "list_all wire_char ?h" "list_all wire_char (frame_tail ?msg)" "list_all wire_char body"
    using bs all_digits_wire [OF t3(2)] show_nat_chars(3) wire_chars body_wire [OF fs(2)]
    unfolding frame_tail_parts(1) body(1) by (simp_all add: frame_head_parts plain_value_def)
  then have all: "list_all wire_char ?wire" by simp
  have w: "?wire = ?a @ SOH # (?b @ SOH # body @ frame_tail ?msg)" by (simp add: h)
  have p1: "soh_position ?wire = Some (length ?a)"
    by (subst w) (rule soh_position_append [OF head_no_soh(1) [OF bs]])
  have d1: "drop (length ?a + 1) ?wire = ?b @ SOH # body @ frame_tail ?msg" unfolding h by simp
  have p2: "soh_position (drop (length ?a + 1) ?wire) = Some (length ?b)"
    unfolding d1 by (rule soh_position_append [OF head_no_soh(2) [OF bs]])
  have cs: "length ?wire - 7 = length ?msg" by (simp add: frame_tail_parts(2))
  have dt: "drop (length ?msg) ?wire = frame_tail ?msg" "take (length ?msg) ?wire = ?msg" by simp_all
  have tr: "take 3 (frame_tail ?msg) = ''10=''" "frame_tail ?msg ! 6 = SOH"
    "take 3 (drop 3 (frame_tail ?msg)) = show_pad3 (checksum_u8 ?msg)"
    unfolding frame_tail_parts(1) using t3(1) by (simp_all add: nth_append)
  have le: "length ?a + 1 + length ?b + 1 = length ?h" unfolding h by simp
  have bd: "take (length ?msg - length ?h) (drop (length ?h) ?wire) = body" by simp
  have be: "take (length ?a - 2) (drop 2 ?wire) = bs" unfolding h by simp
  have pf: "parse_fields body = Inr fs" unfolding body(1) by (rule parse_fields_text [OF fs(1,2)])
  have eb: "ends_with_char SOH body" unfolding body(1) by (rule fields_end [OF fs(1)])
  show ?thesis
    unfolding parse_wire_def p1 option.case p2 Let_def cs dt le bd be pf tr t3(3)
    using all t3(2) body(2) eb fs(3) by simp
qed

section \<open>The reader\<close>

lemma header_total_complete:
  assumes bs: "plain_value bs" and len: "length (frame_head bs body) + length body + 7 \<le> MAX_MESSAGE_SIZE"
    "5 \<le> length body"
  shows "header_total (frame_head bs body @ rest) = Inr (Some (length (frame_head bs body) + length body + 7))"
proof -
  let ?a = "''8='' @ bs" and ?b = "''9='' @ show_nat (length body)"
  have w: "frame_head bs body @ rest = ?a @ SOH # (?b @ SOH # rest)" by (simp add: frame_head_parts)
  have p1: "soh_position (?a @ SOH # (?b @ SOH # rest)) = Some (length ?a)"
    by (rule soh_position_append [OF head_no_soh(1) [OF bs]])
  have d: "drop (length ?a + 1) (?a @ SOH # (?b @ SOH # rest)) = ?b @ SOH # rest" by simp
  have p2: "soh_position (?b @ SOH # rest) = Some (length ?b)"
    by (rule soh_position_append [OF head_no_soh(2) [OF bs]])
  have t: "take (length ?a) (?a @ SOH # (?b @ SOH # rest)) = ?a" "take (length ?b) (?b @ SOH # rest) = ?b"
    by simp_all
  have d2: "drop 2 ?b = show_nat (length body)" by simp
  have small: "length body \<le> u64_max" using len(1) by (simp add: MAX_MESSAGE_SIZE_def)
  have hl: "length (frame_head bs body) = length ?a + 1 + length ?b + 1" by (simp add: frame_head_parts)
  show ?thesis
    unfolding w header_total_def p1 option.case d p2 Let_def t d2 parse_uint_show_nat [OF small] hl [symmetric]
    using bs len by (simp add: starts_with_def plain_value_def)
qed

lemma take_inner: "j \<le> length ys \<Longrightarrow> take (length xs + 1 + j) (xs @ x # ys @ zs) = xs @ x # take j ys"
  by simp

lemma header_total_partial:
  assumes bs: "plain_value bs" and k: "k < length (frame_head bs body)" "length (frame_head bs body) \<le> MAX_PREFIX_SIZE"
  shows "header_total (take k (frame_head bs body)) = Inr None"
proof -
  let ?a = "''8='' @ bs" and ?b = "''9='' @ show_nat (length body)"
  note na = head_no_soh(1) [OF bs] and nb = head_no_soh(2) [OF bs, of "length body"]
  have short: "\<not> MAX_PREFIX_SIZE \<le> length (take k (frame_head bs body))" using k by simp
  show ?thesis
  proof (cases "k \<le> length ?a")
    case True
    then have "take k (frame_head bs body) = take k ?a" by (simp only: frame_head_parts take_append) simp
    then have "SOH \<notin> set (take k (frame_head bs body))" using na in_set_takeD by metis
    then show ?thesis using short by (simp add: header_total_def soh_position_none)
  next
    case False
    then obtain j where j: "k = length ?a + 1 + j" "j \<le> length ?b"
      using k(1) by (auto simp: frame_head_parts dest!: not_le_imp_less less_imp_Suc_add)
    have w: "take k (frame_head bs body) = ?a @ SOH # take j ?b"
      unfolding frame_head_parts j(1) by (rule take_inner [OF j(2)])
    have "SOH \<notin> set (take j ?b)" using nb by (auto dest: in_set_takeD)
    then have "soh_position (drop (length ?a + 1) (?a @ SOH # take j ?b)) = None"
      by (simp add: soh_position_none)
    then show ?thesis
      using short unfolding w header_total_def soh_position_append [OF na] option.case by simp
  qed
qed

text \<open>The bytes a stream still holds, and a stream that only delays them.\<close>

definition stream_bytes :: "read_result list \<Rightarrow> string" where
  "stream_bytes es = concat (map (\<lambda>e. case e of Data bs \<Rightarrow> bs | _ \<Rightarrow> []) es)"

definition steady :: "read_result list \<Rightarrow> bool" where
  "steady es \<longleftrightarrow> (\<forall>e \<in> set es. e \<noteq> Failed \<and> e \<noteq> Data [])"

lemma steady_Cons [simp]: "steady (e # es) \<longleftrightarrow> e \<noteq> Failed \<and> e \<noteq> Data [] \<and> steady es"
  by (auto simp: steady_def)

lemma stream_bytes_simps [simp]:
  "stream_bytes [] = []" "stream_bytes (e # es) = (case e of Data bs \<Rightarrow> bs | _ \<Rightarrow> []) @ stream_bytes es"
  by (simp_all add: stream_bytes_def)

lemma read_some_steady:
  assumes "steady es" "stream_bytes es \<noteq> []" "0 < want"
  obtains (interrupted) es' where "read_some want es = (Interrupted, es')" "steady es'" "stream_bytes es' = stream_bytes es"
  | (data) bs es' where "read_some want es = (Data bs, es')" "steady es'" "bs \<noteq> []" "length bs \<le> want"
      "stream_bytes es = bs @ stream_bytes es'"
proof (cases es)
  case (Cons e es1)
  show thesis
  proof (cases e)
    case (Data bs)
    let ?es = "if length bs \<le> want then es1 else Data (drop want bs) # es1"
    have "read_some want es = (Data (take want bs), ?es)" by (simp add: Cons Data)
    moreover have "steady ?es" using assms(1) by (simp add: Cons Data)
    moreover have "take want bs \<noteq> []" using assms(1,3) by (simp add: Cons Data)
    moreover have "stream_bytes es = take want bs @ stream_bytes ?es" by (simp add: Cons Data)
    ultimately show thesis using data by simp
  qed (use assms(1) Cons interrupted in auto)
qed (use assms(2) in simp)

lemma read_loop_delivers:
  fixes wire rest :: string and hd_len :: nat
  assumes partial: "\<And>k. k < hd_len \<Longrightarrow> header_total (take k wire) = Inr None"
    and complete: "header_total (take hd_len wire) = Inr (Some (length wire))"
    and hd: "hd_len < length wire" and parsed: "parse_wire wire = Inr m"
    and "steady es" "stream_bytes es = drop k wire @ rest" "k \<le> length wire"
    and "t = None \<and> k \<le> hd_len \<or> t = Some (length wire)"
  shows "\<exists>es'. read_loop es (take k wire) t =
      (Inr (Some m), \<lparr>fr_input = es', fr_pending = [], fr_total = None\<rparr>) \<and> steady es' \<and> stream_bytes es' = rest"
  using assms(5-8)
proof (induction "stream_size es" arbitrary: es k t rule: less_induct)
  case less
  define t' where "t' = (if t = None \<and> k < hd_len then None else Some (length wire))"
  have tot: "(case t of None \<Rightarrow> header_total (take k wire) | Some n \<Rightarrow> Inr (Some n)) = Inr t'"
    using less.prems(4) partial complete by (auto simp: t'_def)
  show ?case
  proof (cases "k = length wire")
    case True
    then have "t' = Some (length wire)" using hd by (simp add: t'_def)
    then show ?thesis
      using tot True parsed less.prems by (subst read_loop.simps) (simp del: header_total_def)
  next
    case False
    let ?want = "want_bytes (take k wire) t'"
    have ne: "t' \<noteq> Some (length (take k wire))" using False less.prems(3) by (auto simp: t'_def)
    have want: "0 < ?want" "?want \<le> length wire - k" "t' = None \<Longrightarrow> ?want = 1"
      using False less.prems(3) hd by (auto simp: want_bytes_def t'_def)
    have "stream_bytes es \<noteq> []" using less.prems(2,3) False by simp
    from less.prems(1) this want(1) show ?thesis
    proof (cases rule: read_some_steady)
      case (interrupted es')
      have "stream_size es' < stream_size es" using read_some_size [OF interrupted(1)] by simp
      from less.hyps [OF this interrupted(2), of k t'] show ?thesis
        using tot ne interrupted less.prems by (subst read_loop.simps) (auto simp: t'_def)
    next
      case (data bs es')
      have sz: "stream_size es' < stream_size es" using read_some_size [OF data(1)] data(3) by simp
      have le: "length bs \<le> length wire - k" using data(4) want(2) by simp
      have split: "bs @ stream_bytes es' = drop k wire @ rest" using data(5) less.prems(2) by simp
      have bs: "bs = take (length bs) (drop k wire)"
        using arg_cong [OF split, of "take (length bs)"] le by simp
      have rest: "stream_bytes es' = drop (k + length bs) wire @ rest"
        using arg_cong [OF split, of "drop (length bs)"] le by (simp add: add.commute)
      have pend: "take k wire @ bs = take (k + length bs) wire"
        by (subst (1) bs) (simp add: take_add)
      have ok: "t' = None \<and> k + length bs \<le> hd_len \<or> t' = Some (length wire)"
        using want(3) data(4) by (auto simp: t'_def)
      from less.hyps [OF sz data(2) rest _ ok] le less.prems(3) show ?thesis
        using tot ne data(1,3) pend by (subst read_loop.simps) simp
    qed
  qed
qed

section \<open>Properties\<close>

text \<open>What is sent fits the limits of the reader and is made of plain fields.\<close>

definition sendable :: "string \<Rightarrow> string \<Rightarrow> string \<Rightarrow> string \<Rightarrow> string \<Rightarrow> fields \<Rightarrow> bool" where
  "sendable ts bs mt sender target fs \<longleftrightarrow>
     list_all plain_value [ts, bs, mt, sender, target] \<and> list_all plain_field fs \<and>
     (\<forall>f \<in> set fs. fst f \<notin> {8, 9, 10}) \<and> length bs \<le> 32"

lemma frame_body_starts: "starts_with ''35='' (concat (map field_text (header_fields mt seq sender target ts @ fs)))"
  by (simp add: header_fields_def field_text_def show_8_9_10 starts_with_def)

lemma frame_parses:
  assumes "sendable ts bs mt sender target fs"
  shows "parse_wire (frame ts bs mt seq sender target fs) =
    Inr \<lparr>fm_begin = bs, fm_fields = header_fields mt seq sender target ts @ fs,
         fm_raw = frame ts bs mt seq sender target fs\<rparr>"
proof -
  let ?fs = "header_fields mt seq sender target ts @ fs"
  have "plain_value (show_nat seq)" using show_nat_chars by (simp add: plain_value_def)
  then have "list_all plain_field ?fs" "?fs \<noteq> []" "\<forall>f \<in> set ?fs. fst f \<notin> {8, 9, 10}" "plain_value bs"
    using assms by (auto simp: sendable_def header_fields_def plain_field_def)
  then show ?thesis
    unfolding frame_shape Let_def by (intro parse_wire_shape frame_body_starts) simp_all
qed

lemma show_nat_length_7: "n < 10000000 \<Longrightarrow> length (show_nat n) \<le> 7"
proof -
  have step: "length (show_nat n) \<le> Suc k" if "length (show_nat (n div 10)) \<le> k" "0 < k" for n k
    using that by (subst show_nat.simps) simp
  assume "n < 10000000"
  then have "length (show_nat (n div 10 div 10 div 10 div 10)) \<le> 3" by (intro show_nat_length) simp
  from step [OF step [OF step [OF step [OF this]]]] show ?thesis by simp
qed

lemma frame_delivers:
  assumes "sendable ts bs mt sender target fs"
    "length (frame ts bs mt seq sender target fs) \<le> MAX_MESSAGE_SIZE"
    "steady es" "stream_bytes es = frame ts bs mt seq sender target fs @ rest"
  shows "\<exists>r. read_message (frame_reader_new es) =
      (Inr (Some \<lparr>fm_begin = bs, fm_fields = header_fields mt seq sender target ts @ fs,
                  fm_raw = frame ts bs mt seq sender target fs\<rparr>), r) \<and>
    fr_pending r = [] \<and> fr_total r = None \<and> steady (fr_input r) \<and> stream_bytes (fr_input r) = rest"
proof -
  define body where "body = concat (map field_text (header_fields mt seq sender target ts @ fs))"
  let ?wire = "frame ts bs mt seq sender target fs" and ?h = "frame_head bs body"
  have w: "?wire = ?h @ body @ frame_tail (?h @ body)" by (simp add: frame_shape Let_def body_def)
  have bs: "plain_value bs" "length bs \<le> 32" using assms(1) by (simp_all add: sendable_def)
  have len: "length ?wire = length ?h + length body + 7" by (simp add: w frame_tail_parts(2))
  have b5: "5 \<le> length body" by (simp add: body_def header_fields_def field_text_def)
  have "length body < 10000000" using assms(2) len by (simp add: MAX_MESSAGE_SIZE_def)
  then have "length (show_nat (length body)) \<le> 7" by (rule show_nat_length_7)
  then have hl: "length ?h \<le> MAX_PREFIX_SIZE" using bs(2) by (simp add: frame_head_parts MAX_PREFIX_SIZE_def)
  have partial: "header_total (take k ?wire) = Inr None" if "k < length ?h" for k
  proof -
    have "take k ?wire = take k ?h" using that by (simp add: w)
    then show ?thesis using header_total_partial [OF bs(1) that hl] by simp
  qed
  have "header_total ?h = Inr (Some (length ?wire))"
    using header_total_complete [OF bs(1) _ b5, of "[]"] assms(2) len by simp
  then have complete: "header_total (take (length ?h) ?wire) = Inr (Some (length ?wire))" by (simp add: w)
  have "length ?h < length ?wire" by (simp add: len)
  from read_loop_delivers [OF partial complete this frame_parses [OF assms(1)] assms(3), of 0 rest None] assms(4)
  show ?thesis by (auto simp: read_message_def frame_reader_new_def)
qed

text \<open>
  C19. Framing is lossless under any transport: for plain fields within the size limit, a reader that gets
  the bytes of \<open>frame\<close> followed by anything else, in chunks of any sizes and with any interruptions,
  returns exactly the message that was framed (header fields first, then the given fields, in order, with
  the wire text), is ready for the next frame, and has consumed exactly the bytes of the frame.
\<close>

theorem frame_read_roundtrip:
  assumes "sendable ts bs mt sender target fs"
    "length (frame ts bs mt seq sender target fs) \<le> MAX_MESSAGE_SIZE"
    "steady es" "stream_bytes es = frame ts bs mt seq sender target fs @ rest"
  shows "\<exists>r. read_message (frame_reader_new es) =
      (Inr (Some \<lparr>fm_begin = bs, fm_fields = header_fields mt seq sender target ts @ fs,
                  fm_raw = frame ts bs mt seq sender target fs\<rparr>), r) \<and>
    fr_pending r = [] \<and> fr_total r = None \<and> steady (fr_input r) \<and> stream_bytes (fr_input r) = rest"
  using assms by (rule frame_delivers)

definition sample_time :: string where "sample_time = ''20260912-19:24:59.056''"

lemma show_header:
  "show_nat 35 = ''35''" "show_nat 34 = ''34''" "show_nat 49 = ''49''" "show_nat 56 = ''56''" "show_nat 52 = ''52''"
  "show_nat 7 = ''7''" "show_nat 45 = ''45''"
  by (simp_all add: show_nat.simps digit_char_def char_of_def bit_0)

theorem frame_read_roundtrip_witness:
  "\<exists>r. read_message (frame_reader_new
       [Data (take 9 (frame sample_time ''FIX.4.2'' ''0'' 7 ''A'' ''B'' [])), Interrupted,
        Data (drop 9 (frame sample_time ''FIX.4.2'' ''0'' 7 ''A'' ''B'' []))]) =
      (Inr (Some \<lparr>fm_begin = ''FIX.4.2'', fm_fields = header_fields ''0'' 7 ''A'' ''B'' sample_time,
         fm_raw = frame sample_time ''FIX.4.2'' ''0'' 7 ''A'' ''B'' []\<rparr>), r)"
proof -
  let ?w = "frame sample_time ''FIX.4.2'' ''0'' 7 ''A'' ''B'' []"
  have s: "sendable sample_time ''FIX.4.2'' ''0'' ''A'' ''B'' []"
    by (simp add: sendable_def plain_value_def wire_char_def SOH_def sample_time_def)
  let ?b = "concat (map field_text (header_fields ''0'' 7 ''A'' ''B'' sample_time))"
  have b: "length ?b = 45" by (simp add: header_fields_def field_text_def show_header sample_time_def)
  have "length ?w = length (frame_head ''FIX.4.2'' ?b) + length ?b + 7"
    by (simp add: frame_shape Let_def frame_tail_parts(2))
  then have l: "length ?w \<le> MAX_MESSAGE_SIZE" "9 < length ?w"
    by (simp_all add: b frame_head_parts show_header MAX_MESSAGE_SIZE_def)
  have "steady [Data (take 9 ?w), Interrupted, Data (drop 9 ?w)]"
    "stream_bytes [Data (take 9 ?w), Interrupted, Data (drop 9 ?w)] = ?w @ []"
    using l(2) by (auto simp: steady_def)
  from frame_read_roundtrip [OF s l(1) this] show ?thesis by auto
qed

end
