(* ===== verification/Codec.thy ===== *)
theory Codec
  imports Frame Engine
begin

text \<open>
  Encoding and decoding of the FIX messages (\<open>src/fix/codec.rs\<close>): the field maps, one builder per message,
  the validation of a message against the supported profile (field shapes, scopes, duplicates, required
  fields, enumerations) and the decoder. The wall clock and the process-wide counter behind
  \<open>transact_time\<close> and \<open>message_identifier\<close> are arguments of the builders that use them, and the date
  parser of \<open>chrono\<close>, not part of the repository, is the argument \<open>chrono value format\<close>. Decoding an
  execution report adds two decimals with the panicking operator, so \<open>decode\<close> returns an option.
\<close>

section \<open>The question mark operator\<close>

definition and_then :: "'e + 'a \<Rightarrow> ('a \<Rightarrow> 'e + 'b) \<Rightarrow> 'e + 'b" where
  "and_then r f = (case r of Inl e \<Rightarrow> Inl e | Inr x \<Rightarrow> f x)"

lemma and_then_simps [simp]: "and_then (Inl e) f = Inl e" "and_then (Inr x) f = f x"
  by (simp_all add: and_then_def)

lemma and_then_Inr [rust_bind]: "and_then r f = Inr z \<longleftrightarrow> (\<exists>x. r = Inr x \<and> f x = Inr z)"
  by (cases r) simp_all

lemma if_eq_Inr [rust_bind]: "(if c then Inl e else y) = Inr z \<longleftrightarrow> \<not> c \<and> y = Inr z"
  by simp

definition ok_or :: "'a option \<Rightarrow> 'e \<Rightarrow> 'e + 'a" where
  "ok_or r e = (case r of None \<Rightarrow> Inl e | Some x \<Rightarrow> Inr x)"

lemma ok_or_simps [simp]: "ok_or None e = Inl e" "ok_or (Some x) e = Inr x"
  by (simp_all add: ok_or_def)

lemma ok_or_Inr [rust_bind]: "ok_or r e = Inr z \<longleftrightarrow> r = Some z"
  by (cases r) simp_all

section \<open>Field maps\<close>

datatype codec_error =
    InvalidDecimal string | BadDecimal string | UnsupportedSide string | UnsupportedStatus string
  | TimestampLength | InvalidTimestamp | LengthDataField nat | RepeatingGroup nat
  | HeaderAfterBody nat | MissingDelimiter nat | MissingLastDelimiter | UnsupportedTag nat string nat | GroupOutOfOrder
  | DuplicateTag nat | EmptyTag nat | InvalidEnumeration nat | MissingRequired nat string
  | OnlyHandlInst1 | OnlyDay | MissingMsgType | MissingTag nat | NotPositive nat | InvalidInteger nat
  | InvalidBoolean nat | UnsupportedOrdType | OnlyEncryptMethod0 | InvalidHeartBtInt | ZeroHeartBtInt
  | InvalidResendRange | ZeroNewSeqNo | InvalidCxlRejResponseTo | OnlySingleQuote | InvalidQuoteResponseLevel
  | NegativeQuote nat | OnlySecurityList | InvalidSecurityId | OnlyNewExecution | UnsupportedExecType
  | MissingOrigClOrdId | NegativeAggregate | InvalidQuoteStatus

definition fix_decimal :: "decimal_ops \<Rightarrow> rat \<Rightarrow> string" where
  "fix_decimal D d = dec_show D d"

definition fix_decimal_char :: "char \<Rightarrow> bool" where
  "fix_decimal_char c \<longleftrightarrow> is_ascii_digit c \<or> c = CHR ''.''"

definition strip_minus :: "string \<Rightarrow> string" where
  "strip_minus s = (case s of [] \<Rightarrow> [] | c # r \<Rightarrow> if c = CHR ''-'' then r else s)"

definition fix_decimal_syntax :: "string \<Rightarrow> bool" where
  "fix_decimal_syntax s \<longleftrightarrow>
     (let digits = strip_minus s
      in digits \<noteq> [] \<and> list_ex is_ascii_digit digits \<and> length (filter (\<lambda>c. c = CHR ''.'') digits) \<le> 1 \<and>
         list_all fix_decimal_char digits)"

definition parse_decimal :: "decimal_ops \<Rightarrow> string \<Rightarrow> codec_error + rat" where
  "parse_decimal D s = (if \<not> fix_decimal_syntax s then Inl (InvalidDecimal s) else ok_or (dec_parse D s) (BadDecimal s))"

fun side_to_fix :: "side \<Rightarrow> string" where
  "side_to_fix Buy = ''1''"
| "side_to_fix Sell = ''2''"

definition side_from_fix :: "string \<Rightarrow> codec_error + side" where
  "side_from_fix s = (if s = ''1'' then Inr Buy else if s = ''2'' then Inr Sell else Inl (UnsupportedSide s))"

fun ord_status_to_fix :: "order_state \<Rightarrow> string" where
  "ord_status_to_fix Booked = ''0''"
| "ord_status_to_fix New = ''0''"
| "ord_status_to_fix PartialFill = ''1''"
| "ord_status_to_fix Filled = ''2''"
| "ord_status_to_fix Cancelled = ''4''"
| "ord_status_to_fix Rejected = ''8''"
| "ord_status_to_fix Expired = ''C''"

definition ord_status_from_fix :: "string \<Rightarrow> codec_error + order_state" where
  "ord_status_from_fix s =
     (if s = ''0'' \<or> s = ''5'' then Inr Booked
      else if s = ''1'' then Inr PartialFill
      else if s = ''2'' then Inr Filled
      else if s = ''4'' then Inr Cancelled
      else if s = ''8'' then Inr Rejected
      else if s = ''C'' then Inr Expired
      else Inl (UnsupportedStatus s))"

text \<open>\<open>message_identifier\<close> with the time in microseconds and the counter as arguments.\<close>

definition message_identifier :: "int \<Rightarrow> nat \<Rightarrow> string \<Rightarrow> string" where
  "message_identifier micros n prefix = prefix @ ''-'' @ show_int micros @ ''-'' @ show_nat n"

section \<open>Builders\<close>

definition build_logon :: "nat \<Rightarrow> fields" where
  "build_logon heart_bt_int = [(98, ''0''), (108, show_nat heart_bt_int)]"

definition build_logout :: fields where
  "build_logout = []"

definition build_heartbeat :: "string option \<Rightarrow> fields" where
  "build_heartbeat test_req_id = (case test_req_id of Some i \<Rightarrow> [(112, i)] | None \<Rightarrow> [])"

definition build_test_request :: "string \<Rightarrow> fields" where
  "build_test_request req_id = [(112, req_id)]"

fun order_type_to_fix :: "order_type \<Rightarrow> string" where
  "order_type_to_fix Limit = ''2''"
| "order_type_to_fix Market = ''1''"

definition build_new_order_single ::
  "decimal_ops \<Rightarrow> string \<Rightarrow> string \<Rightarrow> string \<Rightarrow> side \<Rightarrow> order_type \<Rightarrow> rat \<Rightarrow> rat \<Rightarrow> fields" where
  "build_new_order_single D time cl_ord_id symbol sd ty price quantity =
     [(11, cl_ord_id), (21, ''1''), (55, symbol), (54, side_to_fix sd), (60, time),
      (40, order_type_to_fix ty), (38, fix_decimal D quantity)] @
     (if ty = Limit then [(44, fix_decimal D price)] else [])"

definition build_cancel_request :: "string \<Rightarrow> string \<Rightarrow> string \<Rightarrow> string \<Rightarrow> side \<Rightarrow> fields" where
  "build_cancel_request time orig_cl_ord_id cl_ord_id symbol sd =
     [(41, orig_cl_ord_id), (11, cl_ord_id), (55, symbol), (54, side_to_fix sd), (60, time)]"

definition build_cancel_replace ::
  "decimal_ops \<Rightarrow> string \<Rightarrow> string \<Rightarrow> string \<Rightarrow> string \<Rightarrow> side \<Rightarrow> rat \<Rightarrow> rat \<Rightarrow> fields" where
  "build_cancel_replace D time orig_cl_ord_id cl_ord_id symbol sd price quantity =
     [(41, orig_cl_ord_id), (11, cl_ord_id), (21, ''1''), (55, symbol), (54, side_to_fix sd), (60, time),
      (40, ''2''), (38, fix_decimal D quantity), (44, fix_decimal D price)]"

definition build_mass_quote :: "decimal_ops \<Rightarrow> string \<Rightarrow> string \<Rightarrow> rat \<Rightarrow> rat \<Rightarrow> rat \<Rightarrow> rat \<Rightarrow> fields" where
  "build_mass_quote D ident symbol bid_price bid_quantity ask_price ask_quantity =
     [(117, ident), (296, ''1''), (302, ''1''), (311, symbol), (304, ''1''), (295, ''1''), (299, symbol), (55, symbol),
      (132, fix_decimal D bid_price), (133, fix_decimal D ask_price),
      (134, fix_decimal D bid_quantity), (135, fix_decimal D ask_quantity)]"

fun exec_type_to_fix :: "exec_type \<Rightarrow> string" where
  "exec_type_to_fix ExecNew = ''0''"
| "exec_type_to_fix ExecPartialFill = ''1''"
| "exec_type_to_fix ExecFill = ''2''"
| "exec_type_to_fix ExecCancelled = ''4''"
| "exec_type_to_fix ExecReplaced = ''5''"
| "exec_type_to_fix ExecRejected = ''8''"
| "exec_type_to_fix ExecExpired = ''C''"

text \<open>The event, client order identifier and fill a report stands for.\<close>

definition report_event :: "report \<Rightarrow> exec_type" where
  "report_event r =
     (case r of
        Status _ _ _ _ ty _ \<Rightarrow> ty
      | Fill ord _ _ _ _ _ \<Rightarrow> if o_remaining ord = 0 then ExecFill else ExecPartialFill)"

definition report_cl_ord_id :: "report \<Rightarrow> order_id" where
  "report_cl_ord_id r = (case r of Status _ _ c _ _ _ \<Rightarrow> c | Fill ord _ _ _ _ _ \<Rightarrow> o_id ord)"

definition report_fill :: "report \<Rightarrow> rat \<times> rat" where
  "report_fill r = (case r of Status _ _ _ _ _ _ \<Rightarrow> (0, 0) | Fill _ _ p q _ _ \<Rightarrow> (p, q))"

definition report_status :: "report \<Rightarrow> string" where
  "report_status r =
     (if exec_type_to_fix (report_event r) = ''5'' \<and> o_cum (rp_order r) = 0 then ''5''
      else ord_status_to_fix (o_state (rp_order r)))"

definition build_execution_report :: "decimal_ops \<Rightarrow> string \<Rightarrow> report \<Rightarrow> fields" where
  "build_execution_report D time r =
     (let ord = rp_order r;
          event = exec_type_to_fix (report_event r);
          status = report_status r
      in [(37, o_exchange_id ord), (17, rp_exec_id r), (20, ''0''), (150, event), (39, status), (55, rp_symbol r),
          (54, side_to_fix (o_side ord)), (38, fix_decimal D (o_quantity ord)),
          (40, if o_type ord = Market then ''1'' else ''2''),
          (151, fix_decimal D (if is_active (o_state ord) then o_remaining ord else 0)),
          (14, fix_decimal D (o_cum ord)), (6, fix_decimal D (o_avg ord)), (60, time)] @
         (if report_cl_ord_id r \<noteq> 0 then [(11, show_int (report_cl_ord_id r))] else []) @
         (case rp_orig r of Some orig \<Rightarrow> [(41, show_int orig)] | None \<Rightarrow> []) @
         (if o_type ord = Limit then [(44, fix_decimal D (o_price ord))] else []) @
         [(31, fix_decimal D (fst (report_fill r))), (32, fix_decimal D (snd (report_fill r)))])"

definition build_security_definition :: "string \<Rightarrow> string \<Rightarrow> string \<Rightarrow> int \<Rightarrow> fields" where
  "build_security_definition ident req_id symbol instrument_id =
     [(320, req_id), (322, ident), (393, ''1''), (323, ''4''), (55, symbol), (48, show_int instrument_id), (22, ''8'')]"

definition build_mass_quote_ack :: "string \<Rightarrow> fields" where
  "build_mass_quote_ack quote_id = [(297, ''0''), (117, quote_id)]"

section \<open>Decoded messages\<close>

record exec_report_data =
  er_exchange_id :: string
  er_cl_ord_id :: string
  er_orig_cl_ord_id :: "string option"
  er_symbol :: string
  er_state :: order_state
  er_is_fill :: bool
  er_side :: side
  er_price :: rat
  er_quantity :: rat
  er_remaining :: rat
  er_last_price :: rat
  er_last_quantity :: rat

datatype inbound =
    Logon nat
  | Logout
  | Heartbeat
  | TestRequest string
  | ResendRequest
  | SequenceReset nat bool
  | SessionReject string
  | NewOrderSingle string string side order_type rat rat
  | CancelRequest string string string side
  | CancelReplace string string string side order_type rat rat
  | CancelReject string string order_state string
  | MassQuote string nat string rat rat rat rat
  | QuoteAcknowledgement "string option" string string
  | SecurityDefinition string string int
  | BusinessReject string
  | ExecutionReport exec_report_data
  | Unsupported string

definition validate_timestamp :: "(string \<Rightarrow> string \<Rightarrow> bool) \<Rightarrow> string \<Rightarrow> codec_error + unit" where
  "validate_timestamp chrono value =
     (if length value \<noteq> 17 \<and> length value \<noteq> 21 then Inl TimestampLength
      else if chrono value (if length value = 17 then ''%Y%m%d-%H:%M:%S'' else ''%Y%m%d-%H:%M:%S%.3f'') then Inr ()
      else Inl InvalidTimestamp)"

section \<open>The profile\<close>

definition scalar_fields :: "string \<Rightarrow> nat list" where
  "scalar_fields kind =
     (if kind = ''A'' then [98, 108, 141, 383]
      else if kind = ''0'' \<or> kind = ''1'' then [112]
      else if kind = ''2'' then [7, 16]
      else if kind = ''3'' then [45, 371, 372, 373, 58]
      else if kind = ''4'' then [123, 36]
      else if kind = ''5'' then [58]
      else if kind = ''D'' then
        [11, 109, 76, 1, 63, 64, 21, 18, 110, 111, 100, 81, 55, 65, 48, 22, 167, 200, 205, 201,
         202, 206, 231, 223, 207, 106, 107, 140, 54, 114, 60, 38, 152, 40, 44, 99, 15, 376, 377,
         23, 117, 59, 168, 432, 126, 427, 12, 13, 47, 121, 120, 58, 193, 192, 77, 203, 204, 210,
         211, 388, 389, 439, 440]
      else if kind = ''F'' then
        [41, 37, 11, 66, 1, 109, 76, 55, 65, 48, 22, 167, 200, 205, 201, 202, 206, 231, 223,
         207, 106, 107, 54, 60, 38, 152, 376, 377, 58]
      else if kind = ''G'' then
        [37, 109, 76, 41, 11, 66, 1, 63, 64, 21, 18, 110, 111, 100, 55, 65, 48, 22, 167, 200,
         205, 201, 202, 206, 231, 223, 207, 106, 107, 54, 60, 38, 152, 40, 44, 99, 211, 388,
         389, 376, 377, 15, 59, 168, 432, 126, 427, 12, 13, 47, 121, 120, 58, 193, 192, 77, 203,
         204, 210, 114, 439, 440]
      else if kind = ''8'' then
        [37, 198, 11, 41, 109, 76, 66, 17, 20, 19, 150, 39, 103, 378, 1, 63, 64, 55, 65, 48, 22,
         167, 200, 205, 201, 202, 206, 231, 223, 207, 106, 107, 54, 38, 152, 40, 44, 99, 211,
         388, 389, 15, 376, 377, 59, 168, 432, 126, 18, 47, 32, 31, 194, 195, 30, 336, 29, 151,
         14, 6, 424, 425, 426, 427, 75, 60, 113, 12, 13, 381, 119, 120, 155, 156, 21, 110, 111,
         77, 210, 58, 193, 192, 439, 440, 442]
      else if kind = ''9'' then [37, 198, 11, 41, 39, 109, 76, 66, 1, 60, 434, 102, 58]
      else if kind = ''i'' then [131, 117, 301, 293, 294]
      else if kind = ''b'' then [131, 117, 297, 300, 301, 336, 58]
      else if kind = ''d'' then
        [320, 322, 323, 393, 55, 65, 48, 22, 167, 200, 205, 201, 202, 206, 231, 223, 207, 106,
         107, 15, 336, 58]
      else if kind = ''j'' then [45, 372, 379, 380, 58]
      else [])"

definition HEADER_FIELDS :: "nat list" where
  "HEADER_FIELDS =
     [35, 49, 56, 115, 128, 34, 50, 142, 57, 143, 116, 144, 129, 145, 43, 97, 52, 122, 347, 369, 370]"

definition QUOTE_SET_FIELDS :: "nat list" where
  "QUOTE_SET_FIELDS =
     [302, 311, 312, 309, 305, 310, 313, 314, 315, 316, 317, 436, 435, 308, 306, 307, 367, 304, 295]"

definition QUOTE_ENTRY_FIELDS :: "nat list" where
  "QUOTE_ENTRY_FIELDS =
     [299, 55, 65, 48, 22, 167, 200, 205, 201, 202, 206, 231, 223, 207, 106, 107, 132, 133, 134, 135,
      62, 188, 190, 189, 191, 60, 336, 64, 40, 193, 192, 15]"

definition validate_field_shape :: "nat \<Rightarrow> string \<Rightarrow> codec_error + unit" where
  "validate_field_shape tag kind =
     (if tag \<in> {89, 90, 91, 93, 95, 96, 212, 213, 445, 446} \<or> 348 \<le> tag \<and> tag \<le> 365 then Inl (LengthDataField tag)
      else if tag \<in> {33, 73, 78, 124, 136, 146, 199, 215, 267, 268, 295, 296, 382, 384, 386, 398, 420, 428} \<and>
              \<not> (kind = ''i'' \<and> tag \<in> {295, 296})
      then Inl (RepeatingGroup tag)
      else Inr ())"

text \<open>\<open>scope.iter().position(..)\<close>\<close>

fun position_of :: "nat \<Rightarrow> nat list \<Rightarrow> nat option" where
  "position_of t [] = None"
| "position_of t (x # xs) = (if x = t then Some 0 else map_option Suc (position_of t xs))"

definition quote_scope_fields :: "nat \<Rightarrow> string \<Rightarrow> nat list" where
  "quote_scope_fields quote_scope kind =
     (if quote_scope = 1 then QUOTE_SET_FIELDS
      else if quote_scope = 2 then QUOTE_ENTRY_FIELDS
      else scalar_fields kind)"

record scope_state =
  sc_body_started :: bool
  sc_quote_scope :: nat
  sc_previous :: "nat option"
  sc_needs_delimiter :: bool

text \<open>One turn of the loop of \<open>validate_field_scopes\<close>.\<close>

definition scope_step :: "string \<Rightarrow> scope_state \<Rightarrow> nat \<Rightarrow> codec_error + scope_state" where
  "scope_step kind st tag =
     and_then (validate_field_shape tag kind) (\<lambda>_.
       if tag \<in> set HEADER_FIELDS then (if sc_body_started st then Inl (HeaderAfterBody tag) else Inr st)
       else
         let st = st\<lparr>sc_body_started := True\<rparr>
         in if kind = ''i'' \<and> tag = 296
            then Inr (st\<lparr>sc_quote_scope := 1, sc_previous := None, sc_needs_delimiter := True\<rparr>)
            else
              let scope = quote_scope_fields (sc_quote_scope st) kind
              in if sc_needs_delimiter st \<and> (scope = [] \<or> tag \<noteq> hd scope) then Inl (MissingDelimiter (hd scope))
                 else
                   let st = st\<lparr>sc_needs_delimiter := False\<rparr>
                   in if 5000 \<le> tag then Inr st
                      else case position_of tag scope of
                             None \<Rightarrow> Inl (UnsupportedTag tag kind (sc_quote_scope st))
                           | Some pos \<Rightarrow>
                               if sc_quote_scope st \<noteq> 0 \<and> (case sc_previous st of None \<Rightarrow> False | Some prev \<Rightarrow> pos \<le> prev)
                               then Inl GroupOutOfOrder
                               else
                                 let st = (if sc_quote_scope st \<noteq> 0 then st\<lparr>sc_previous := Some pos\<rparr> else st)
                                 in if kind = ''i'' \<and> tag = 295
                                    then Inr (st\<lparr>sc_quote_scope := 2, sc_previous := None, sc_needs_delimiter := True\<rparr>)
                                    else Inr st)"

fun scope_loop :: "string \<Rightarrow> scope_state \<Rightarrow> nat list \<Rightarrow> codec_error + scope_state" where
  "scope_loop kind st [] = Inr st"
| "scope_loop kind st (t # ts) = and_then (scope_step kind st t) (\<lambda>st. scope_loop kind st ts)"

definition validate_field_scopes :: "fix_message \<Rightarrow> string \<Rightarrow> codec_error + unit" where
  "validate_field_scopes message kind =
     and_then (scope_loop kind
         \<lparr>sc_body_started = False, sc_quote_scope = 0, sc_previous = None, sc_needs_delimiter = False\<rparr>
         (map fst (fm_fields message)))
       (\<lambda>st. if sc_needs_delimiter st then Inl MissingLastDelimiter else Inr ())"

definition required_fields :: "string \<Rightarrow> nat list option" where
  "required_fields kind =
     (if kind = ''A'' then Some [98, 108]
      else if kind = ''0'' \<or> kind = ''5'' then Some []
      else if kind = ''1'' then Some [112]
      else if kind = ''2'' then Some [7, 16]
      else if kind = ''3'' then Some [45]
      else if kind = ''4'' then Some [36]
      else if kind = ''D'' then Some [11, 21, 55, 54, 60, 40, 38]
      else if kind = ''F'' then Some [11, 41, 55, 54, 60]
      else if kind = ''G'' then Some [11, 41, 21, 55, 54, 60, 40, 38]
      else if kind = ''8'' then Some [37, 17, 20, 150, 39, 55, 54, 151, 14, 6]
      else if kind = ''9'' then Some [37, 11, 41, 39, 434]
      else if kind = ''i'' then Some [117, 296, 302, 311, 304, 295, 299, 55]
      else if kind = ''b'' then Some [297]
      else if kind = ''d'' then Some [320, 322, 323, 393]
      else if kind = ''j'' then Some [372, 380]
      else None)"

definition valid_enumeration :: "nat \<Rightarrow> string \<Rightarrow> bool" where
  "valid_enumeration tag value =
     (if tag = 373 then
        value \<in> {''0'', ''1'', ''2'', ''3'', ''4'', ''5'', ''6'', ''7'', ''8'', ''9'', ''10'', ''11''}
      else if tag = 380 then value \<in> {''0'', ''1'', ''2'', ''3'', ''4'', ''5''}
      else if tag = 102 then value \<in> {''0'', ''1'', ''2'', ''3''}
      else if tag = 300 then value \<in> {''1'', ''2'', ''3'', ''4'', ''5'', ''6'', ''7'', ''8'', ''9''}
      else True)"

fun check_values :: "nat set \<Rightarrow> fields \<Rightarrow> codec_error + nat set" where
  "check_values seen [] = Inr seen"
| "check_values seen ((tag, value) # fs) =
     (if tag \<in> seen then Inl (DuplicateTag tag)
      else if value = [] then Inl (EmptyTag tag)
      else if \<not> valid_enumeration tag value then Inl (InvalidEnumeration tag)
      else check_values (insert tag seen) fs)"

fun check_required :: "string \<Rightarrow> nat set \<Rightarrow> nat list \<Rightarrow> codec_error + unit" where
  "check_required kind seen [] = Inr ()"
| "check_required kind seen (t # ts) =
     (if t \<notin> seen then Inl (MissingRequired t kind) else check_required kind seen ts)"

definition validate_profile ::
  "(string \<Rightarrow> string \<Rightarrow> bool) \<Rightarrow> fix_message \<Rightarrow> string \<Rightarrow> codec_error + unit" where
  "validate_profile chrono message kind =
     (case required_fields kind of
        None \<Rightarrow> Inr ()
      | Some required \<Rightarrow>
          and_then (validate_field_scopes message kind) (\<lambda>_.
          and_then (check_values {} (fm_fields message)) (\<lambda>seen.
          and_then (check_required kind seen required) (\<lambda>_.
          and_then (case fm_get message 60 of None \<Rightarrow> Inr () | Some t \<Rightarrow> validate_timestamp chrono t) (\<lambda>_.
            if kind = ''D'' \<or> kind = ''G'' then
              if fm_get message 21 \<noteq> Some ''1'' then Inl OnlyHandlInst1
              else if (case fm_get message 59 of None \<Rightarrow> ''0'' | Some v \<Rightarrow> v) \<noteq> ''0'' then Inl OnlyDay
              else Inr ()
            else Inr ())))))"

section \<open>The decoder\<close>

text \<open>The closures of \<open>decode\<close>.\<close>

definition need :: "fix_message \<Rightarrow> nat \<Rightarrow> codec_error + string" where
  "need m tag = ok_or (fm_get m tag) (MissingTag tag)"

definition get_or :: "fix_message \<Rightarrow> nat \<Rightarrow> string \<Rightarrow> string" where
  "get_or m tag d = (case fm_get m tag of None \<Rightarrow> d | Some v \<Rightarrow> v)"

definition dec :: "decimal_ops \<Rightarrow> fix_message \<Rightarrow> nat \<Rightarrow> codec_error + rat" where
  "dec D m tag = and_then (need m tag) (parse_decimal D)"

definition positive :: "decimal_ops \<Rightarrow> fix_message \<Rightarrow> nat \<Rightarrow> codec_error + rat" where
  "positive D m tag = and_then (dec D m tag) (\<lambda>value. if value \<le> 0 then Inl (NotPositive tag) else Inr value)"

definition natural :: "fix_message \<Rightarrow> nat \<Rightarrow> codec_error + nat" where
  "natural m tag = and_then (need m tag) (\<lambda>value.
     if \<not> all_digits value then Inl (InvalidInteger tag) else ok_or (parse_u64 value) (InvalidInteger tag))"

definition boolean :: "fix_message \<Rightarrow> nat \<Rightarrow> bool \<Rightarrow> codec_error + bool" where
  "boolean m tag dflt =
     (case fm_get m tag of
        None \<Rightarrow> Inr dflt
      | Some v \<Rightarrow> if v = ''Y'' then Inr True else if v = ''N'' then Inr False else Inl (InvalidBoolean tag))"

definition order_type_of :: "fix_message \<Rightarrow> codec_error + order_type" where
  "order_type_of m = and_then (need m 40) (\<lambda>v.
     if v = ''1'' then Inr Market else if v = ''2'' then Inr Limit else Inl UnsupportedOrdType)"

text \<open>\<open>get(tag).map(parse_decimal).transpose()?.unwrap_or(dflt)\<close>\<close>

definition dec_or :: "decimal_ops \<Rightarrow> fix_message \<Rightarrow> nat \<Rightarrow> rat \<Rightarrow> codec_error + rat" where
  "dec_or D m tag dflt = (case fm_get m tag of None \<Rightarrow> Inr dflt | Some v \<Rightarrow> parse_decimal D v)"

definition order_price :: "decimal_ops \<Rightarrow> fix_message \<Rightarrow> order_type \<Rightarrow> codec_error + rat" where
  "order_price D m ty = (if ty = Limit then positive D m 44 else dec_or D m 44 0)"

definition quote_value :: "decimal_ops \<Rightarrow> fix_message \<Rightarrow> nat \<Rightarrow> codec_error + rat" where
  "quote_value D m tag = and_then (dec_or D m tag 0) (\<lambda>value. if value < 0 then Inl (NegativeQuote tag) else Inr value)"

text \<open>The arms of \<open>decode\<close>.\<close>

definition decode_logon :: "fix_message \<Rightarrow> codec_error + inbound" where
  "decode_logon m =
     and_then (need m 98) (\<lambda>v.
     if v \<noteq> ''0'' then Inl OnlyEncryptMethod0
     else and_then (boolean m 141 False) (\<lambda>_.
          and_then (natural m 108) (\<lambda>heart.
            if u32_max < heart then Inl InvalidHeartBtInt
            else if heart = 0 then Inl ZeroHeartBtInt
            else Inr (Logon heart))))"

definition decode_resend_request :: "fix_message \<Rightarrow> codec_error + inbound" where
  "decode_resend_request m =
     and_then (natural m 7) (\<lambda>start. and_then (natural m 16) (\<lambda>end.
       if start = 0 \<or> (end \<noteq> 0 \<and> end < start) then Inl InvalidResendRange else Inr ResendRequest))"

definition decode_sequence_reset :: "fix_message \<Rightarrow> codec_error + inbound" where
  "decode_sequence_reset m =
     and_then (natural m 36) (\<lambda>n.
       if n = 0 then Inl ZeroNewSeqNo else and_then (boolean m 123 False) (\<lambda>g. Inr (SequenceReset n g)))"

definition decode_new_order :: "decimal_ops \<Rightarrow> fix_message \<Rightarrow> codec_error + inbound" where
  "decode_new_order D m =
     and_then (order_type_of m) (\<lambda>ty. and_then (need m 11) (\<lambda>c. and_then (need m 55) (\<lambda>s.
     and_then (need m 54) (\<lambda>v. and_then (side_from_fix v) (\<lambda>sd. and_then (order_price D m ty) (\<lambda>p.
     and_then (positive D m 38) (\<lambda>q. Inr (NewOrderSingle c s sd ty p q))))))))"

definition decode_cancel_request :: "decimal_ops \<Rightarrow> fix_message \<Rightarrow> codec_error + inbound" where
  "decode_cancel_request D m =
     and_then (if fm_get m 38 \<noteq> None then map_sum id (\<lambda>_. ()) (positive D m 38) else Inr ()) (\<lambda>_.
     and_then (need m 11) (\<lambda>c. and_then (need m 41) (\<lambda>orig. and_then (need m 55) (\<lambda>s.
     and_then (need m 54) (\<lambda>v. and_then (side_from_fix v) (\<lambda>sd. Inr (CancelRequest c orig s sd)))))))"

definition decode_cancel_replace :: "decimal_ops \<Rightarrow> fix_message \<Rightarrow> codec_error + inbound" where
  "decode_cancel_replace D m =
     and_then (order_type_of m) (\<lambda>ty. and_then (need m 11) (\<lambda>c. and_then (need m 41) (\<lambda>orig.
     and_then (need m 55) (\<lambda>s. and_then (need m 54) (\<lambda>v. and_then (side_from_fix v) (\<lambda>sd.
     and_then (order_price D m ty) (\<lambda>p. and_then (positive D m 38) (\<lambda>q.
       Inr (CancelReplace c orig s sd ty p q)))))))))"

definition decode_cancel_reject :: "fix_message \<Rightarrow> codec_error + inbound" where
  "decode_cancel_reject m =
     and_then (need m 434) (\<lambda>v.
     if v \<notin> {''1'', ''2''} then Inl InvalidCxlRejResponseTo
     else and_then (need m 11) (\<lambda>c. and_then (need m 41) (\<lambda>orig.
          and_then (need m 39) (\<lambda>st. and_then (ord_status_from_fix st) (\<lambda>state.
            Inr (CancelReject c orig state (get_or m 58 [])))))))"

definition decode_mass_quote :: "decimal_ops \<Rightarrow> fix_message \<Rightarrow> codec_error + inbound" where
  "decode_mass_quote D m =
     and_then (need m 296) (\<lambda>sets. if sets \<noteq> ''1'' then Inl OnlySingleQuote else
     and_then (need m 295) (\<lambda>entries. if entries \<noteq> ''1'' then Inl OnlySingleQuote else
     and_then (need m 304) (\<lambda>tot. if tot \<noteq> ''1'' then Inl OnlySingleQuote else
     and_then (let v = get_or m 301 ''0''
               in if v = ''0'' then Inr 0 else if v = ''1'' then Inr 1 else if v = ''2'' then Inr 2
                  else Inl InvalidQuoteResponseLevel) (\<lambda>level.
     and_then (need m 117) (\<lambda>i. and_then (need m 55) (\<lambda>s.
     and_then (quote_value D m 132) (\<lambda>bp. and_then (quote_value D m 134) (\<lambda>bq.
     and_then (quote_value D m 133) (\<lambda>op. and_then (quote_value D m 135) (\<lambda>oq.
       Inr (MassQuote i level s bp bq op oq)))))))))))"

definition decode_security_definition :: "fix_message \<Rightarrow> codec_error + inbound" where
  "decode_security_definition m =
     and_then (need m 323) (\<lambda>v.
     if v \<noteq> ''4'' then Inl OnlySecurityList
     else and_then (natural m 393) (\<lambda>_. and_then (need m 320) (\<lambda>r. and_then (need m 55) (\<lambda>s.
          and_then (need m 48) (\<lambda>i. and_then (ok_or (parse_i64 i) InvalidSecurityId) (\<lambda>n.
            Inr (SecurityDefinition r s n)))))))"

definition exec_types :: "string set" where
  "exec_types = {''0'', ''1'', ''2'', ''4'', ''5'', ''8'', ''C''}"

text \<open>Everything but the quantity, with the executed and the open quantity.\<close>

definition execution_fields :: "decimal_ops \<Rightarrow> fix_message \<Rightarrow> codec_error + rat \<times> rat \<times> exec_report_data" where
  "execution_fields D m =
     and_then (need m 20) (\<lambda>v. if v \<noteq> ''0'' then Inl OnlyNewExecution else
     and_then (need m 150) (\<lambda>ty. if ty \<notin> exec_types then Inl UnsupportedExecType else
     if ty \<in> {''4'', ''5''} \<and> fm_get m 11 \<noteq> None \<and> fm_get m 41 = None \<and> ty = ''5'' then Inl MissingOrigClOrdId else
     let is_fill = ty \<in> {''1'', ''2''} in
     and_then (dec D m 14) (\<lambda>cum. and_then (dec D m 151) (\<lambda>remaining. and_then (dec D m 6) (\<lambda>avg.
     if cum < 0 \<or> remaining < 0 \<or> avg < 0 then Inl NegativeAggregate else
     and_then (if is_fill then positive D m 31 else dec_or D m 31 0) (\<lambda>last_price.
     and_then (if is_fill then positive D m 32 else dec_or D m 32 0) (\<lambda>last_quantity.
     and_then (need m 37) (\<lambda>exchange_id. and_then (need m 55) (\<lambda>s.
     and_then (need m 39) (\<lambda>st. and_then (ord_status_from_fix st) (\<lambda>state.
     and_then (need m 54) (\<lambda>sv. and_then (side_from_fix sv) (\<lambda>sd.
     and_then (dec_or D m 44 0) (\<lambda>price.
       Inr (cum, remaining,
         \<lparr>er_exchange_id = exchange_id, er_cl_ord_id = get_or m 11 [], er_orig_cl_ord_id = fm_get m 41,
          er_symbol = s, er_state = state, er_is_fill = is_fill, er_side = sd, er_price = price,
          er_quantity = 0, er_remaining = remaining, er_last_price = last_price,
          er_last_quantity = last_quantity\<rparr>)))))))))))))))"

text \<open>
  The quantity is by default \<open>cum + remaining\<close>. That sum is evaluated whether or not it is needed, and
  the addition panics on overflow.
\<close>

definition decode_execution_report :: "decimal_ops \<Rightarrow> fix_message \<Rightarrow> (codec_error + inbound) option" where
  "decode_execution_report D m =
     (case execution_fields D m of
        Inl e \<Rightarrow> Some (Inl e)
      | Inr (cum, remaining, data) \<Rightarrow>
          (case (case fm_get m 38 of None \<Rightarrow> Inr None | Some v \<Rightarrow> map_sum id Some (parse_decimal D v)) of
             Inl e \<Rightarrow> Some (Inl e)
           | Inr given \<Rightarrow>
               map_option
                 (\<lambda>sum_q. Inr (ExecutionReport (data\<lparr>er_quantity := (case given of None \<Rightarrow> sum_q | Some q \<Rightarrow> q)\<rparr>)))
                 (dec_add D cum remaining)))"

definition decode_quote_ack :: "fix_message \<Rightarrow> codec_error + inbound" where
  "decode_quote_ack m =
     and_then (need m 297) (\<lambda>st.
     if st \<notin> {''0'', ''1'', ''2'', ''3'', ''4'', ''5''} then Inl InvalidQuoteStatus
     else Inr (QuoteAcknowledgement (fm_get m 117) st (get_or m 58 [])))"

definition decode_kind :: "decimal_ops \<Rightarrow> fix_message \<Rightarrow> string \<Rightarrow> (codec_error + inbound) option" where
  "decode_kind D m kind =
     (if kind = ''A'' then Some (decode_logon m)
      else if kind = ''0'' then Some (Inr Heartbeat)
      else if kind = ''1'' then Some (and_then (need m 112) (\<lambda>t. Inr (TestRequest t)))
      else if kind = ''2'' then Some (decode_resend_request m)
      else if kind = ''3'' then Some (and_then (natural m 45) (\<lambda>_. Inr (SessionReject (get_or m 58 []))))
      else if kind = ''4'' then Some (decode_sequence_reset m)
      else if kind = ''5'' then Some (Inr Logout)
      else if kind = ''D'' then Some (decode_new_order D m)
      else if kind = ''F'' then Some (decode_cancel_request D m)
      else if kind = ''G'' then Some (decode_cancel_replace D m)
      else if kind = ''9'' then Some (decode_cancel_reject m)
      else if kind = ''i'' then Some (decode_mass_quote D m)
      else if kind = ''d'' then Some (decode_security_definition m)
      else if kind = ''8'' then decode_execution_report D m
      else if kind = ''j'' then Some (and_then (natural m 380) (\<lambda>_. Inr (BusinessReject (get_or m 58 []))))
      else if kind = ''b'' then Some (decode_quote_ack m)
      else Some (Inr (Unsupported kind)))"

definition decode ::
  "decimal_ops \<Rightarrow> (string \<Rightarrow> string \<Rightarrow> bool) \<Rightarrow> fix_message \<Rightarrow> (codec_error + inbound) option" where
  "decode D chrono message =
     (case fm_msg_type message of
        None \<Rightarrow> Some (Inl MissingMsgType)
      | Some kind \<Rightarrow>
          (case validate_profile chrono message kind of
             Inl e \<Rightarrow> Some (Inl e)
           | Inr _ \<Rightarrow> decode_kind D message kind))"

end
