(* ===== verification/Codec_Lemmas.thy ===== *)
theory Codec_Lemmas
  imports Codec Frame_Properties
begin

text \<open>
  Facts about the codec: exact characterizations of the profile checks and the evaluation of
  \<open>decode\<close> on messages whose tags are known.
\<close>

lemma fm_get_simps [simp]:
  "fm_get \<lparr>fm_begin = b, fm_fields = (t, v) # fs, fm_raw = r\<rparr> k =
     (if t = k then Some v else fm_get \<lparr>fm_begin = b, fm_fields = fs, fm_raw = r\<rparr> k)"
  "fm_get \<lparr>fm_begin = b, fm_fields = [], fm_raw = r\<rparr> k = None"
  by (simp_all add: fm_get_def)

lemma check_values_Inr:
  "check_values seen fs = Inr s \<longleftrightarrow>
     distinct (map fst fs) \<and> fst ` set fs \<inter> seen = {} \<and> s = seen \<union> fst ` set fs \<and>
     (\<forall>(t, v) \<in> set fs. v \<noteq> [] \<and> valid_enumeration t v)"
  by (induction seen fs rule: check_values.induct) auto

lemma check_required_Inr: "check_required kind seen ts = Inr u \<longleftrightarrow> set ts \<subseteq> seen"
  by (induction ts) auto

lemma validate_profile_Inr:
  assumes "required_fields kind = Some req"
  shows "validate_profile chrono m kind = Inr u \<longleftrightarrow>
    validate_field_scopes m kind = Inr () \<and> distinct (map fst (fm_fields m)) \<and> set req \<subseteq> fst ` set (fm_fields m) \<and>
    (\<forall>(t, v) \<in> set (fm_fields m). v \<noteq> [] \<and> valid_enumeration t v) \<and>
    (\<forall>t. fm_get m 60 = Some t \<longrightarrow> validate_timestamp chrono t = Inr ()) \<and>
    (kind = ''D'' \<or> kind = ''G'' \<longrightarrow> fm_get m 21 = Some ''1'' \<and> fm_get m 59 \<in> {None, Some ''0''})"
  using assms unfolding validate_profile_def
  by (auto simp: rust_bind check_values_Inr check_required_Inr split: option.splits)


definition scopes_ok :: "string \<Rightarrow> nat list \<Rightarrow> bool" where
  "scopes_ok kind ts =
     (case scope_loop kind
         \<lparr>sc_body_started = False, sc_quote_scope = 0, sc_previous = None, sc_needs_delimiter = False\<rparr> ts of
        Inl _ \<Rightarrow> False
      | Inr st \<Rightarrow> \<not> sc_needs_delimiter st)"

lemma validate_field_scopes_Inr: "validate_field_scopes m kind = Inr u \<longleftrightarrow> scopes_ok kind (map fst (fm_fields m))"
  by (auto simp: validate_field_scopes_def scopes_ok_def rust_bind split: sum.splits)

lemma position_of_None [simp]: "position_of t xs = None \<longleftrightarrow> t \<notin> set xs"
  by (induction xs) auto

lemma position_of_mem: "position_of t xs = Some k \<Longrightarrow> t \<in> set xs"
  using position_of_None [of t xs] by (metis option.distinct(1))

text \<open>Outside the quote group the scopes are: header fields first, then known or user-defined body fields.\<close>

abbreviation scalar_state :: "bool \<Rightarrow> scope_state" where
  "scalar_state body \<equiv>
     \<lparr>sc_body_started = body, sc_quote_scope = 0, sc_previous = None, sc_needs_delimiter = False\<rparr>"

definition body_tag :: "string \<Rightarrow> nat \<Rightarrow> bool" where
  "body_tag kind t \<longleftrightarrow> t \<notin> set HEADER_FIELDS \<and> (5000 \<le> t \<or> t \<in> set (scalar_fields kind))"

lemma scope_step_scalar:
  assumes "kind \<noteq> ''i''"
  shows "scope_step kind (scalar_state body) t = Inr st \<longleftrightarrow>
    validate_field_shape t kind = Inr () \<and>
    (t \<in> set HEADER_FIELDS \<and> \<not> body \<and> st = scalar_state False \<or> body_tag kind t \<and> st = scalar_state True)"
  using assms
  by (auto simp: scope_step_def rust_bind Let_def body_tag_def quote_scope_fields_def position_of_mem
      split: option.splits)

lemma scope_loop_scalar:
  assumes "kind \<noteq> ''i''"
  shows "(\<exists>st. scope_loop kind (scalar_state body) ts = Inr st) \<longleftrightarrow>
    (\<forall>t \<in> set ts. validate_field_shape t kind = Inr ()) \<and>
    (\<forall>t \<in> set (if body then ts else dropWhile (\<lambda>t. t \<in> set HEADER_FIELDS) ts). body_tag kind t)"
proof (induction ts arbitrary: body)
  case (Cons t ts)
  have h: "body_tag kind t \<Longrightarrow> t \<notin> set HEADER_FIELDS" by (simp add: body_tag_def)
  show ?case
    using Cons [of True] Cons [of False] h
    by (cases body; cases "t \<in> set HEADER_FIELDS") (auto simp: rust_bind scope_step_scalar [OF assms])
qed simp

lemma scope_loop_delimiter:
  assumes "kind \<noteq> ''i''" "scope_loop kind (scalar_state body) ts = Inr st"
  shows "\<not> sc_needs_delimiter st"
  using assms(2)
proof (induction ts arbitrary: body)
  case (Cons t ts)
  then show ?case by (auto simp: rust_bind scope_step_scalar [OF assms(1)])
qed auto

lemma scopes_scalar:
  assumes "kind \<noteq> ''i''"
  shows "scopes_ok kind ts \<longleftrightarrow> (\<forall>t \<in> set ts. validate_field_shape t kind = Inr ()) \<and>
    (\<forall>t \<in> set (dropWhile (\<lambda>t. t \<in> set HEADER_FIELDS) ts). body_tag kind t)"
  using scope_loop_scalar [OF assms, of False ts] scope_loop_delimiter [OF assms, of False ts]
  by (auto simp: scopes_ok_def split: sum.splits)

text \<open>What \<open>frame\<close> writes: the five header fields and a body of allowed fields.\<close>

abbreviation "header_tags \<equiv> [35, 34, 49, 56, 52 :: nat]"

lemma scopes_header_body:
  assumes "kind \<noteq> ''i''" "\<forall>t \<in> set ts. body_tag kind t \<and> validate_field_shape t kind = Inr ()"
  shows "scopes_ok kind (header_tags @ ts)"
proof -
  have h: "\<forall>t \<in> set header_tags. t \<in> set HEADER_FIELDS \<and> validate_field_shape t kind = Inr ()"
    by (simp add: HEADER_FIELDS_def validate_field_shape_def)
  then have "dropWhile (\<lambda>t. t \<in> set HEADER_FIELDS) (header_tags @ ts) = dropWhile (\<lambda>t. t \<in> set HEADER_FIELDS) ts"
    by (intro dropWhile_append2) blast
  then show ?thesis
    using assms(2) h unfolding scopes_scalar [OF assms(1)] by (simp del: dropWhile.simps add: ball_Un) (auto dest: set_dropWhileD)
qed

definition body_ok :: "string \<Rightarrow> nat \<Rightarrow> bool" where
  "body_ok kind t \<longleftrightarrow> body_tag kind t \<and> validate_field_shape t kind = Inr ()"

lemmas body_ok_eval = body_ok_def body_tag_def HEADER_FIELDS_def scalar_fields_def validate_field_shape_def

lemma scopes_body_ok: "kind \<noteq> ''i'' \<Longrightarrow> list_all (body_ok kind) ts \<Longrightarrow> scopes_ok kind (header_tags @ ts)"
  by (rule scopes_header_body) (simp_all add: list_all_iff body_ok_def)

lemma body_ok_built:
  "list_all (body_ok ''A'') [98, 108]"
  "list_all (body_ok ''0'') [112]"
  "list_all (body_ok ''1'') [112]"
  "list_all (body_ok ''D'') [11, 21, 55, 54, 60, 40, 38, 44]"
  "list_all (body_ok ''F'') [41, 11, 55, 54, 60]"
  "list_all (body_ok ''G'') [41, 11, 21, 55, 54, 60, 40, 38, 44]"
  "list_all (body_ok ''d'') [320, 322, 393, 323, 55, 48, 22]"
  "list_all (body_ok ''b'') [297, 117]"
  "list_all (body_ok ''8'') [37, 17, 20, 150, 39, 55, 54, 38, 40, 151, 14, 6, 60, 11, 41, 44, 31, 32]"
  by (simp_all add: body_ok_eval)

lemma scopes_built_quote:
  "scopes_ok ''i'' [35, 34, 49, 56, 52, 117, 296, 302, 311, 304, 295, 299, 55, 132, 133, 134, 135]"
  by (simp add: scopes_ok_def scope_step_def validate_field_shape_def Let_def quote_scope_fields_def
      QUOTE_SET_FIELDS_def QUOTE_ENTRY_FIELDS_def scalar_fields_def HEADER_FIELDS_def)

end
