(* ===== verification/Codec_Roundtrip.thy ===== *)
theory Codec_Roundtrip
  imports Codec_Lemmas
begin

text \<open>
  Requests survive the wire: what a builder and \<open>frame\<close> write, the reader and \<open>decode\<close> give back.
\<close>

definition wire_exact :: "decimal_ops \<Rightarrow> rat \<Rightarrow> bool" where
  "wire_exact D x \<longleftrightarrow> fix_decimal_syntax (dec_show D x) \<and> dec_parse D (dec_show D x) = Some x"

text \<open>
  The requests and replies with a builder, the type and body it gives them, and the numbers for which the
  receiver gives the same request back: exactly representable, and within what \<open>decode\<close> accepts.
\<close>

inductive encodes :: "decimal_ops \<Rightarrow> string \<Rightarrow> string \<Rightarrow> inbound \<Rightarrow> string \<Rightarrow> fields \<Rightarrow> bool"
  for D :: decimal_ops and time ident :: string where
  logon: "0 < n \<Longrightarrow> n \<le> u32_max \<Longrightarrow> encodes D time ident (Logon n) ''A'' (build_logon n)"
| logout: "encodes D time ident Logout ''5'' build_logout"
| heartbeat: "encodes D time ident Heartbeat ''0'' (build_heartbeat t)"
| test_request: "encodes D time ident (TestRequest t) ''1'' (build_test_request t)"
| limit_order: "wire_exact D p \<Longrightarrow> 0 < p \<Longrightarrow> wire_exact D q \<Longrightarrow> 0 < q \<Longrightarrow>
    encodes D time ident (NewOrderSingle c s sd Limit p q) ''D'' (build_new_order_single D time c s sd Limit p q)"
| market_order: "wire_exact D q \<Longrightarrow> 0 < q \<Longrightarrow>
    encodes D time ident (NewOrderSingle c s sd Market 0 q) ''D'' (build_new_order_single D time c s sd Market p q)"
| cancel: "encodes D time ident (CancelRequest c orig s sd) ''F'' (build_cancel_request time orig c s sd)"
| cancel_replace: "wire_exact D p \<Longrightarrow> 0 < p \<Longrightarrow> wire_exact D q \<Longrightarrow> 0 < q \<Longrightarrow>
    encodes D time ident (CancelReplace c orig s sd Limit p q) ''G'' (build_cancel_replace D time orig c s sd p q)"
| mass_quote: "\<forall>x \<in> {bp, bq, ap, aq}. wire_exact D x \<and> 0 \<le> x \<Longrightarrow>
    encodes D time ident (MassQuote ident 0 s bp bq ap aq) ''i'' (build_mass_quote D ident s bp bq ap aq)"
| security_definition: "i64_min \<le> n \<Longrightarrow> n \<le> i64_max \<Longrightarrow>
    encodes D time ident (SecurityDefinition i s n) ''d'' (build_security_definition ident i s n)"
| quote_ack: "encodes D time ident (QuoteAcknowledgement (Some q) ''0'' []) ''b'' (build_mass_quote_ack q)"

lemma parse_decimal_exact [simp]: "wire_exact D x \<Longrightarrow> parse_decimal D (fix_decimal D x) = Inr x"
  by (simp add: wire_exact_def parse_decimal_def fix_decimal_def)

lemma side_from_to [simp]: "side_from_fix (side_to_fix sd) = Inr sd"
  by (cases sd) (simp_all add: side_from_fix_def)

lemma wire_exact_nonempty: "wire_exact D x \<Longrightarrow> fix_decimal D x \<noteq> []"
  by (auto simp: wire_exact_def fix_decimal_def fix_decimal_syntax_def strip_minus_def)

text \<open>A message as the reader delivers it.\<close>

abbreviation wire_message :: "string \<Rightarrow> string \<Rightarrow> nat \<Rightarrow> string \<Rightarrow> string \<Rightarrow> string \<Rightarrow> fields \<Rightarrow> string \<Rightarrow> fix_message" where
  "wire_message bs mt seq sender target ts fs raw \<equiv>
     \<lparr>fm_begin = bs, fm_fields = header_fields mt seq sender target ts @ fs, fm_raw = raw\<rparr>"

lemmas decode_eval = header_fields_def fm_get_simps need_def get_or_def dec_def positive_def natural_def boolean_def
  order_type_of_def dec_or_def order_price_def quote_value_def

definition values_ok :: "fields \<Rightarrow> bool" where
  "values_ok fs \<longleftrightarrow> (\<forall>(t, v) \<in> set fs. v \<noteq> [])"

lemma valid_enumeration_other [simp]: "t \<notin> {373, 380, 102, 300} \<Longrightarrow> valid_enumeration t v"
  by (simp add: valid_enumeration_def)

lemma built_profile:
  assumes "required_fields kind = Some req" "scopes_ok kind (header_tags @ map fst fs)" "distinct (header_tags @ map fst fs)"
    "set req \<subseteq> set (map fst fs)" "mt = kind"
    "\<forall>v \<in> {mt, sender, target, ts}. v \<noteq> []" "values_ok fs"
    "set (map fst fs) \<inter> {373, 380, 102, 300} = {}"
    "\<forall>t. map_of fs 60 = Some t \<longrightarrow> validate_timestamp chrono t = Inr ()"
    "kind = ''D'' \<or> kind = ''G'' \<Longrightarrow> map_of fs 21 = Some ''1'' \<and> map_of fs 59 \<in> {None, Some ''0''}"
  shows "decode D chrono (wire_message bs mt seq sender target ts fs raw) =
    decode_kind D (wire_message bs mt seq sender target ts fs raw) kind"
proof -
  let ?m = "wire_message bs mt seq sender target ts fs raw"
  have g: "fm_get ?m t = map_of fs t" if "t \<in> {60, 21, 59}" for t
    using that by (auto simp: fm_get_def header_fields_def)
  have tags: "map fst (fm_fields ?m) = header_tags @ map fst fs" by (simp add: header_fields_def)
  have enum: "valid_enumeration t v" if "(t, v) \<in> set fs" for t v
  proof -
    have "t \<in> set (map fst fs)" using that by force
    then have "t \<notin> {373, 380, 102, 300}" using assms(8) by blast
    then show ?thesis by simp
  qed
  have "\<forall>(t, v) \<in> set (fm_fields ?m). v \<noteq> [] \<and> valid_enumeration t v"
    using assms(6,7) enum by (auto simp: header_fields_def values_ok_def)
  moreover have "fst ` set (fm_fields ?m) = set (header_tags @ map fst fs)"
    by (subst tags [symmetric]) (simp only: set_map)
  ultimately have "validate_profile chrono ?m kind = Inr ()"
    using assms(2,3,4,9,10)
    unfolding validate_profile_Inr [OF assms(1)] validate_field_scopes_Inr tags by (auto simp: g)
  then show ?thesis by (simp add: decode_def fm_msg_type_def header_fields_def assms(5))
qed


lemma scopes_built:
  assumes "list_all (body_ok kind) us" "kind \<noteq> ''i''" "set ts \<subseteq> set us"
  shows "scopes_ok kind (header_tags @ ts)"
  using scopes_body_ok [OF assms(2), of ts] assms(1,3) by (auto simp: list_all_iff)

lemmas built_scopes = body_ok_built [THEN scopes_built]

lemmas build_defs = build_logon_def build_logout_def build_heartbeat_def build_test_request_def
  build_new_order_single_def build_cancel_request_def build_cancel_replace_def build_mass_quote_def
  build_security_definition_def build_mass_quote_ack_def

definition built_ok :: "string \<Rightarrow> string \<Rightarrow> fields \<Rightarrow> bool" where
  "built_ok time kind fs \<longleftrightarrow>
     (\<exists>req. required_fields kind = Some req \<and> set req \<subseteq> set (map fst fs)) \<and>
     distinct (header_tags @ map fst fs) \<and> set (map fst fs) \<inter> {373, 380, 102, 300} = {} \<and>
     map_of fs 60 \<in> {None, Some time} \<and>
     (kind = ''D'' \<or> kind = ''G'' \<longrightarrow> map_of fs 21 = Some ''1'' \<and> map_of fs 59 \<in> {None, Some ''0''})"

lemma encodes_built_ok: "encodes D time ident r kind fs \<Longrightarrow> built_ok time kind fs"
  by (induction rule: encodes.induct)
    (simp_all add: built_ok_def build_defs required_fields_def split: option.split)

lemma encodes_scopes:
  assumes "encodes D time ident r kind fs"
  shows "scopes_ok kind (header_tags @ map fst fs)"
  using assms
proof cases
  case heartbeat
  then show ?thesis using built_scopes(2) [of "map fst fs"] by (auto simp: build_defs split: option.splits)
next
  case mass_quote
  then show ?thesis using scopes_built_quote by (simp add: build_defs)
next
  case logout
  then show ?thesis using scopes_body_ok [of "''5''" "[]"] by (simp add: build_defs)
qed (use built_scopes [of "map fst fs"] in \<open>simp_all add: build_defs\<close>)

lemmas decode_arms = decode_kind_def decode_logon_def decode_new_order_def decode_cancel_request_def
  decode_cancel_replace_def decode_mass_quote_def decode_security_definition_def decode_quote_ack_def

lemma natural_one [simp]: "all_digits ''1''" "parse_u64 ''1'' = Some 1"
  by (simp_all add: all_digits_def is_ascii_digit_def parse_uint_def strip_plus_def digits_val_def digit_val_def)

lemma decode_kind_encodes:
  assumes "encodes D time ident r kind fs"
  shows "decode_kind D (wire_message bs kind seq sender target ts fs raw) kind = Some (Inr r)"
  using assms
proof cases
  case (heartbeat t)
  then show ?thesis by (simp add: decode_kind_def)
next
  case (mass_quote bp bq ap aq s)
  then have "\<not> bp < 0" "\<not> bq < 0" "\<not> ap < 0" "\<not> aq < 0" by auto
  then show ?thesis using mass_quote by (simp add: decode_arms build_defs decode_eval)
qed (simp_all add: decode_arms build_defs decode_eval parse_sint_show_int)

lemma decode_encodes:
  assumes "encodes D time ident r kind fs" "values_ok (header_fields kind seq sender target ts @ fs)"
    "validate_timestamp chrono time = Inr ()"
  shows "decode D chrono (wire_message bs kind seq sender target ts fs raw) = Some (Inr r)"
proof -
  from encodes_built_ok [OF assms(1)] obtain req where req: "required_fields kind = Some req" "set req \<subseteq> set (map fst fs)"
    unfolding built_ok_def by (elim conjE exE) (rule that)
  from encodes_built_ok [OF assms(1)] have b: "distinct (header_tags @ map fst fs)"
    "set (map fst fs) \<inter> {373, 380, 102, 300} = {}" "map_of fs 60 \<in> {None, Some time}"
    "kind = ''D'' \<or> kind = ''G'' \<Longrightarrow> map_of fs 21 = Some ''1'' \<and> map_of fs 59 \<in> {None, Some ''0''}"
    unfolding built_ok_def by (elim conjE, simp only:)+
  have v: "\<forall>v \<in> {kind, sender, target, ts}. v \<noteq> []" "values_ok fs"
    using assms(2) by (auto simp: values_ok_def header_fields_def)
  have t: "\<forall>t. map_of fs 60 = Some t \<longrightarrow> validate_timestamp chrono t = Inr ()"
    using b(3) assms(3) by auto
  show ?thesis
    using built_profile [OF req(1) encodes_scopes [OF assms(1)] b(1) req(2) refl v b(2) t b(4)]
      decode_kind_encodes [OF assms(1)] by simp
qed

end
