(* ===== verification/Codec_Report.thy ===== *)
theory Codec_Report
  imports Codec_Roundtrip
begin

text \<open>
  Execution reports survive the wire: the fields a report carries are the fields its receiver decodes.
\<close>

text \<open>The status a report shows, and the data its receiver must see.\<close>

definition wire_state :: "report \<Rightarrow> order_state" where
  "wire_state r =
     (if report_event r = ExecReplaced \<and> o_cum (rp_order r) = 0 \<or> o_state (rp_order r) = New then Booked
      else o_state (rp_order r))"

definition open_quantity :: "order \<Rightarrow> rat" where
  "open_quantity ord = (if is_active (o_state ord) then o_remaining ord else 0)"

text \<open>
  A session may have its own identifiers in place of the keys of the engine, so the fields and the data
  are stated for any client order identifiers.
\<close>

definition report_data_for :: "report \<Rightarrow> string option \<Rightarrow> string option \<Rightarrow> exec_report_data" where
  "report_data_for r cl orig =
     \<lparr>er_exchange_id = o_exchange_id (rp_order r),
      er_cl_ord_id = (case cl of None \<Rightarrow> [] | Some c \<Rightarrow> c), er_orig_cl_ord_id = orig, er_symbol = rp_symbol r, er_state = wire_state r,
      er_is_fill = (report_event r \<in> {ExecPartialFill, ExecFill}), er_side = o_side (rp_order r),
      er_price = (if o_type (rp_order r) = Limit then o_price (rp_order r) else 0),
      er_quantity = o_quantity (rp_order r), er_remaining = open_quantity (rp_order r),
      er_last_price = fst (report_fill r), er_last_quantity = snd (report_fill r)\<rparr>"

definition engine_cl :: "report \<Rightarrow> string option" where
  "engine_cl r = (if report_cl_ord_id r = 0 then None else Some (show_int (report_cl_ord_id r)))"

definition report_data :: "report \<Rightarrow> exec_report_data" where
  "report_data r = report_data_for r (engine_cl r) (map_option show_int (rp_orig r))"

definition exec_fields :: "decimal_ops \<Rightarrow> string \<Rightarrow> report \<Rightarrow> string option \<Rightarrow> string option \<Rightarrow> fields" where
  "exec_fields D time r cl orig =
     (let ord = rp_order r
      in [(37, o_exchange_id ord), (17, rp_exec_id r), (20, ''0''), (150, exec_type_to_fix (report_event r)),
          (39, report_status r), (55, rp_symbol r), (54, side_to_fix (o_side ord)), (38, fix_decimal D (o_quantity ord)),
          (40, if o_type ord = Market then ''1'' else ''2''), (151, fix_decimal D (open_quantity ord)),
          (14, fix_decimal D (o_cum ord)), (6, fix_decimal D (o_avg ord)), (60, time)] @
         (case cl of None \<Rightarrow> [] | Some c \<Rightarrow> [(11, c)]) @ (case orig of None \<Rightarrow> [] | Some c \<Rightarrow> [(41, c)]) @
         (if o_type ord = Limit then [(44, fix_decimal D (o_price ord))] else []) @
         [(31, fix_decimal D (fst (report_fill r))), (32, fix_decimal D (snd (report_fill r)))])"

lemma build_exec_fields: "build_execution_report D time r = exec_fields D time r (engine_cl r) (map_option show_int (rp_orig r))"
  by (simp add: build_execution_report_def exec_fields_def open_quantity_def engine_cl_def Let_def split: option.split)

text \<open>What the engine guarantees of a report, and the decimal library of its numbers.\<close>

definition report_ok :: "decimal_ops \<Rightarrow> report \<Rightarrow> bool" where
  "report_ok D r \<longleftrightarrow>
     (\<forall>x \<in> {o_quantity (rp_order r), open_quantity (rp_order r), o_cum (rp_order r), o_avg (rp_order r),
             o_price (rp_order r), fst (report_fill r), snd (report_fill r)}. wire_exact D x) \<and>
     0 \<le> open_quantity (rp_order r) \<and> 0 \<le> o_cum (rp_order r) \<and> 0 \<le> o_avg (rp_order r) \<and>
     (report_event r \<in> {ExecPartialFill, ExecFill} \<longrightarrow> 0 < fst (report_fill r) \<and> 0 < snd (report_fill r)) \<and>
     (report_event r = ExecReplaced \<longrightarrow> rp_orig r \<noteq> None)"

lemma ord_status_from_to: "ord_status_from_fix (ord_status_to_fix st) = Inr (if st = New then Booked else st)"
  by (cases st) (simp_all add: ord_status_from_fix_def)

lemma exec_type_eq_5: "exec_type_to_fix ev = ''5'' \<longleftrightarrow> ev = ExecReplaced"
  by (cases ev) simp_all

lemma status_from_to: "ord_status_from_fix (report_status r) = Inr (wire_state r)"
proof -
  have "ord_status_from_fix ''5'' = Inr Booked" by (simp add: ord_status_from_fix_def)
  then show ?thesis using ord_status_from_to [of "o_state (rp_order r)"]
    by (simp only: report_status_def exec_type_eq_5 wire_state_def if_distrib [of ord_status_from_fix]) simp
qed

lemma exec_type_to_fix_simps:
  "exec_type_to_fix ev \<in> exec_types" "exec_type_to_fix ev \<in> {''1'', ''2''} \<longleftrightarrow> ev \<in> {ExecPartialFill, ExecFill}"
  by (cases ev; simp add: exec_types_def)+

text \<open>The fields of a built report, one by one.\<close>

abbreviation report_message ::
  "decimal_ops \<Rightarrow> string \<Rightarrow> string \<Rightarrow> nat \<Rightarrow> string \<Rightarrow> string \<Rightarrow> string \<Rightarrow> string \<Rightarrow> report \<Rightarrow> string option \<Rightarrow> string option \<Rightarrow> fix_message" where
  "report_message D time bs seq sender target ts raw r cl orig \<equiv>
     wire_message bs ''8'' seq sender target ts (exec_fields D time r cl orig) raw"

lemma report_get:
  fixes r :: report and D :: decimal_ops and time bs sender target ts raw :: string and seq :: nat and cl orig :: "string option"
  defines "m \<equiv> report_message D time bs seq sender target ts raw r cl orig" and "ord \<equiv> rp_order r"
  shows "fm_get m 20 = Some ''0''" "fm_get m 150 = Some (exec_type_to_fix (report_event r))"
    "fm_get m 14 = Some (fix_decimal D (o_cum ord))" "fm_get m 151 = Some (fix_decimal D (open_quantity ord))"
    "fm_get m 6 = Some (fix_decimal D (o_avg ord))" "fm_get m 37 = Some (o_exchange_id ord)"
    "fm_get m 55 = Some (rp_symbol r)" "fm_get m 54 = Some (side_to_fix (o_side ord))"
    "fm_get m 38 = Some (fix_decimal D (o_quantity ord))"
    "fm_get m 39 = Some (report_status r)"
    "fm_get m 11 = cl" "fm_get m 41 = orig"
    "fm_get m 44 = (if o_type ord = Limit then Some (fix_decimal D (o_price ord)) else None)"
    "fm_get m 31 = Some (fix_decimal D (fst (report_fill r)))" "fm_get m 32 = Some (fix_decimal D (snd (report_fill r)))"
  unfolding m_def ord_def exec_fields_def header_fields_def fm_get_def Let_def
  by (simp_all split: option.split)

lemma decode_execution_report_built:
  assumes "report_ok D r" "report_event r = ExecReplaced \<Longrightarrow> orig \<noteq> None"
  shows "decode_execution_report D (report_message D time bs seq sender target ts raw r cl orig) =
    map_option (\<lambda>_. Inr (ExecutionReport (report_data_for r cl orig))) (dec_add D (o_cum (rp_order r)) (open_quantity (rp_order r)))"
proof -
  let ?m = "report_message D time bs seq sender target ts raw r cl orig" and ?ord = "rp_order r"
  have ex: "wire_exact D (o_quantity ?ord)" "wire_exact D (open_quantity ?ord)" "wire_exact D (o_cum ?ord)"
    "wire_exact D (o_avg ?ord)" "wire_exact D (o_price ?ord)" "wire_exact D (fst (report_fill r))"
    "wire_exact D (snd (report_fill r))"
    using assms(1) by (simp_all add: report_ok_def)
  have sgn: "\<not> open_quantity ?ord < 0" "\<not> o_cum ?ord < 0" "\<not> o_avg ?ord < 0"
    using assms(1) by (simp_all add: report_ok_def not_less)
  note repl = assms(2)
  have pos: "positive D ?m 31 = Inr (fst (report_fill r))" "positive D ?m 32 = Inr (snd (report_fill r))"
    if "report_event r = ExecPartialFill \<or> report_event r = ExecFill"
    using assms(1) ex that by (auto simp: report_ok_def positive_def dec_def need_def report_get)
  have opt: "dec_or D ?m 31 0 = Inr (fst (report_fill r))" "dec_or D ?m 32 0 = Inr (snd (report_fill r))"
    "dec_or D ?m 44 0 = Inr (if o_type ?ord = Limit then o_price ?ord else 0)"
    using ex by (simp_all add: dec_or_def report_get)
  have agg: "dec D ?m 14 = Inr (o_cum ?ord)" "dec D ?m 151 = Inr (open_quantity ?ord)" "dec D ?m 6 = Inr (o_avg ?ord)"
    using ex by (simp_all add: dec_def need_def report_get)
  note eval = decode_execution_report_def execution_fields_def need_def report_get agg opt pos ex sgn status_from_to Let_def report_data_for_def
    get_or_def exec_types_def
  show ?thesis
    using repl by (cases "report_event r"; cases "dec_add D (o_cum ?ord) (open_quantity ?ord)") (simp_all add: eval)
qed


lemma report_scopes: "scopes_ok ''8'' (header_tags @ map fst (exec_fields D time r cl orig))"
  by (rule built_scopes(9)) (auto simp: exec_fields_def Let_def split: option.splits)

lemma report_tags:
  "distinct (header_tags @ map fst (exec_fields D time r cl orig))"
  "set (map fst (exec_fields D time r cl orig)) \<inter> {373, 380, 102, 300} = {}"
  "map_of (exec_fields D time r cl orig) 60 = Some time"
  "set [37, 17, 20, 150, 39, 55, 54, 151, 14, 6] \<subseteq> set (map fst (exec_fields D time r cl orig))"
  by (auto simp: exec_fields_def Let_def split: option.splits)

lemma decode_exec_fields:
  assumes "report_ok D r" "report_event r = ExecReplaced \<Longrightarrow> orig \<noteq> None" "validate_timestamp chrono time = Inr ()"
    "values_ok (header_fields ''8'' seq sender target ts @ exec_fields D time r cl orig)"
  shows "decode D chrono (report_message D time bs seq sender target ts raw r cl orig) =
    map_option (\<lambda>_. Inr (ExecutionReport (report_data_for r cl orig)))
      (dec_add D (o_cum (rp_order r)) (open_quantity (rp_order r)))"
proof -
  let ?m = "report_message D time bs seq sender target ts raw r cl orig"
  have "required_fields ''8'' = Some [37, 17, 20, 150, 39, 55, 54, 151, 14, 6]" by (simp add: required_fields_def)
  moreover have "\<forall>v \<in> {''8'', sender, target, ts}. v \<noteq> []" "values_ok (exec_fields D time r cl orig)"
    using assms(4) by (auto simp: values_ok_def header_fields_def)
  ultimately have "decode D chrono ?m = decode_kind D ?m ''8''"
    using report_tags(3) assms(3)
    by (intro built_profile [OF _ report_scopes report_tags(1,4) refl _ _ report_tags(2)]) simp_all
  also have "\<dots> = decode_execution_report D ?m" by (simp add: decode_kind_def)
  finally show ?thesis
    using decode_execution_report_built [of D r orig, OF assms(1,2)] by simp
qed

lemma decode_built_report:
  assumes "report_ok D r" "validate_timestamp chrono time = Inr ()"
    "values_ok (header_fields ''8'' seq sender target ts @ build_execution_report D time r)"
  shows "decode D chrono (wire_message bs ''8'' seq sender target ts (build_execution_report D time r) raw) =
    map_option (\<lambda>_. Inr (ExecutionReport (report_data r))) (dec_add D (o_cum (rp_order r)) (open_quantity (rp_order r)))"
  using assms unfolding build_exec_fields report_data_def
  by (intro decode_exec_fields) (simp_all add: report_ok_def)

end
