(* ===== verification/Codec_Properties.thy ===== *)
theory Codec_Properties
  imports Codec_Report Engine_Ops
begin

text \<open>
  Properties of the codec: requests and execution reports survive framing, transport and decoding; every
  decoded message is within its contract; and the one case in which the decoder panics.
\<close>

section \<open>A decimal library with text, for examples\<close>

definition sample_codec :: decimal_ops where
  "sample_codec = sample_decimal
     \<lparr>dec_parse := \<lambda>s. if s \<noteq> [] \<and> all_digits s then Some (of_nat (digits_val s)) else None,
      dec_show := \<lambda>d. show_nat (nat \<lfloor>d\<rfloor>)\<rparr>"

definition sample_chrono :: "string \<Rightarrow> string \<Rightarrow> bool" where
  "sample_chrono value format = (length value = 17 \<or> length value = 21)"

lemma show_nat_no_dot: "CHR ''.'' \<notin> set (show_nat n)"
  using show_nat_digits [of n] by (auto simp: list_all_iff is_ascii_digit_def)

lemma strip_minus_show_nat: "strip_minus (show_nat n) = show_nat n"
  using show_nat_not_minus by (auto simp: strip_minus_def split: list.splits)

lemma show_nat_syntax: "fix_decimal_syntax (show_nat n)"
proof -
  have "filter (\<lambda>c. c = CHR ''.'') (show_nat n) = []" using show_nat_no_dot by (auto simp: filter_empty_conv)
  moreover have "list_ex is_ascii_digit (show_nat n)"
    using show_nat_digits [of n] show_nat_nonempty [of n] by (cases "show_nat n") auto
  moreover have "list_all fix_decimal_char (show_nat n)"
    using show_nat_digits [of n] by (auto simp: list_all_iff fix_decimal_char_def)
  ultimately show ?thesis by (simp add: fix_decimal_syntax_def strip_minus_show_nat Let_def)
qed

lemma sample_codec_exact: "wire_exact sample_codec (of_nat n)"
  using show_nat_syntax by (simp add: wire_exact_def sample_codec_def)

lemmas sample_exact = sample_codec_exact [of 0, simplified] sample_codec_exact [of 1, simplified]
  sample_codec_exact [of "numeral k" for k, simplified]

text \<open>The size of a frame of short fields.\<close>

definition wire_size :: "fields \<Rightarrow> nat" where
  "wire_size fs = sum_list (map (\<lambda>f. length (snd f) + 5) fs)"

lemma body_size: "\<forall>f \<in> set fs. fst f < 1000 \<Longrightarrow> length (concat (map field_text fs)) \<le> wire_size fs"
proof (induction fs)
  case (Cons f fs)
  then have "length (show_nat (fst f)) \<le> 3" by (intro show_nat_length) simp
  then show ?case using Cons by (simp add: wire_size_def field_text_def)
qed (simp add: wire_size_def)

lemma frame_size:
  assumes "\<forall>f \<in> set fs. fst f < 1000" "length bs \<le> 32" "wire_size (header_fields mt seq sender target ts @ fs) < 1000"
  shows "length (frame ts bs mt seq sender target fs) \<le> MAX_MESSAGE_SIZE"
proof -
  let ?b = "concat (map field_text (header_fields mt seq sender target ts @ fs))"
  have b: "length ?b \<le> wire_size (header_fields mt seq sender target ts @ fs)"
    by (rule body_size) (use assms(1) in \<open>simp add: header_fields_def\<close>)
  then have "length (show_nat (length ?b)) \<le> 3" using assms(3) by (intro show_nat_length) linarith
  moreover have "length (frame ts bs mt seq sender target fs) = length (frame_head bs ?b) + length ?b + 7"
    by (simp add: frame_shape Let_def frame_tail_parts(2))
  moreover have "length (frame_head bs ?b) = length bs + length (show_nat (length ?b)) + 6"
    by (simp add: frame_head_parts)
  ultimately have "length (frame ts bs mt seq sender target fs) \<le> 1048"
    using b assms(2,3) by linarith
  then show ?thesis by (simp add: MAX_MESSAGE_SIZE_def)
qed

lemma plain_show_nat: "plain_value (show_nat n)"
  using show_nat_chars by (simp add: plain_value_def)

lemma sample_show [simp]: "fix_decimal sample_codec (numeral k) = show_nat (numeral k)" "fix_decimal sample_codec 0 = show_nat 0"
  by (simp_all add: fix_decimal_def sample_codec_def)

lemmas sample_plain = plain_value_def wire_char_def SOH_def

section \<open>Requests\<close>

lemma sendable_values: "sendable ts bs mt sender target fs \<Longrightarrow> values_ok (header_fields mt seq sender target ts @ fs)"
  by (auto simp: sendable_def values_ok_def header_fields_def plain_value_def plain_field_def list_all_iff)

text \<open>
  C20. Every request a session sends and the reply messages with a builder survive the wire: framed with any
  sequence number and header, delivered in any chunks with any interruptions, the reader returns one message,
  consumes exactly its bytes, and decoding it gives back exactly the request that was encoded, whatever
  comes after it in the stream.
\<close>

theorem request_wire_roundtrip:
  assumes "encodes D time ident req kind fs" "sendable ts bs kind sender target fs"
    "validate_timestamp chrono time = Inr ()"
    "length (frame ts bs kind seq sender target fs) \<le> MAX_MESSAGE_SIZE"
    "steady es" "stream_bytes es = frame ts bs kind seq sender target fs @ rest"
  shows "\<exists>m r. read_message (frame_reader_new es) = (Inr (Some m), r) \<and>
    decode D chrono m = Some (Inr req) \<and> fm_seq m = (if seq \<le> u64_max then Some seq else None) \<and>
    stream_bytes (fr_input r) = rest"
proof -
  let ?m = "wire_message bs kind seq sender target ts fs (frame ts bs kind seq sender target fs)"
  have "decode D chrono ?m = Some (Inr req)"
    by (rule decode_encodes [OF assms(1) sendable_values [OF assms(2)] assms(3)])
  moreover have "fm_seq ?m = (if seq \<le> u64_max then Some seq else None)"
    by (simp add: fm_seq_def header_fields_def parse_uint_def strip_plus_digits)
  ultimately show ?thesis using frame_delivers [OF assms(2,4,5,6)] by metis
qed

theorem request_wire_roundtrip_witness:
  "\<exists>m r. read_message (frame_reader_new
      [Data (frame sample_time ''FIX.4.2'' ''D'' 7 ''A'' ''B''
        (build_new_order_single sample_codec sample_time ''1'' ''IBM'' Buy Limit 100 5))]) = (Inr (Some m), r) \<and>
    decode sample_codec sample_chrono m = Some (Inr (NewOrderSingle ''1'' ''IBM'' Buy Limit 100 5))"
proof -
  let ?fs = "build_new_order_single sample_codec sample_time ''1'' ''IBM'' Buy Limit 100 5"
  let ?w = "frame sample_time ''FIX.4.2'' ''D'' 7 ''A'' ''B'' ?fs"
  have e: "encodes sample_codec sample_time ''q'' (NewOrderSingle ''1'' ''IBM'' Buy Limit 100 5) ''D'' ?fs"
    by (rule limit_order) (simp_all add: sample_exact)
  have t: "validate_timestamp sample_chrono sample_time = Inr ()"
    by (simp add: validate_timestamp_def sample_chrono_def sample_time_def)
  have s: "sendable sample_time ''FIX.4.2'' ''D'' ''A'' ''B'' ?fs"
    using plain_show_nat [of 100] plain_show_nat [of 5]
    by (simp add: sendable_def build_new_order_single_def plain_field_def) (simp add: sample_plain sample_time_def)
  have l: "length ?w \<le> MAX_MESSAGE_SIZE"
    using show_nat_length [of 100] show_nat_length [of 5] show_nat_length [of 7]
    by (intro frame_size) (simp_all add: build_new_order_single_def wire_size_def header_fields_def sample_time_def)
  have "?w \<noteq> []" by (simp add: frame_shape frame_head_parts Let_def)
  then have "steady [Data ?w]" "stream_bytes [Data ?w] = ?w @ []" by (simp_all add: steady_def)
  from request_wire_roundtrip [OF e s t l this] show ?thesis by metis
qed

text \<open>
  C21. An execution report survives the wire: whatever the engine reports is what the client decodes, field by
  field (identifiers, state, side, price, quantity, open quantity and the last fill), with the open quantity
  of a closed order shown as zero and a new order shown as booked.
\<close>

theorem report_wire_roundtrip:
  assumes "report_ok D r" "dec_add D (o_cum (rp_order r)) (open_quantity (rp_order r)) = Some tot_q" "sendable ts bs ''8'' sender target (build_execution_report D time r)"
    "validate_timestamp chrono time = Inr ()"
    "length (frame ts bs ''8'' seq sender target (build_execution_report D time r)) \<le> MAX_MESSAGE_SIZE"
    "steady es" "stream_bytes es = frame ts bs ''8'' seq sender target (build_execution_report D time r) @ rest"
  shows "\<exists>m rd. read_message (frame_reader_new es) = (Inr (Some m), rd) \<and>
    decode D chrono m = Some (Inr (ExecutionReport (report_data r))) \<and> stream_bytes (fr_input rd) = rest"
  using decode_built_report [OF assms(1,4) sendable_values [OF assms(3)]] frame_delivers [OF assms(3,5,6,7)] assms(2)
  by (metis option.simps(9))


definition sample_report :: report where
  "sample_report = Fill ((order_limit ''A'' 1 1 Buy 100 5 0)
      \<lparr>o_exchange_id := ''x1'', o_remaining := 3, o_cum := 2, o_avg := 100, o_state := PartialFill\<rparr>) ''IBM'' 100 2 ''exec.1'' None"

theorem report_wire_roundtrip_witness:
  "\<exists>m rd. read_message (frame_reader_new
      [Data (frame sample_time ''FIX.4.2'' ''8'' 7 ''A'' ''B''
        (build_execution_report sample_codec sample_time sample_report))]) = (Inr (Some m), rd) \<and>
    decode sample_codec sample_chrono m = Some (Inr (ExecutionReport (report_data sample_report)))"
proof -
  let ?fs = "build_execution_report sample_codec sample_time sample_report"
  let ?w = "frame sample_time ''FIX.4.2'' ''8'' 7 ''A'' ''B'' ?fs"
  have fs: "?fs = [(37, ''x1''), (17, ''exec.1''), (20, ''0''), (150, ''1''), (39, ''1''), (55, ''IBM''), (54, ''1''),
      (38, show_nat 5), (40, ''2''), (151, show_nat 3), (14, show_nat 2), (6, show_nat 100), (60, sample_time),
      (11, show_int 1), (44, show_nat 100), (31, show_nat 100), (32, show_nat 2)]"
    by (simp add: build_execution_report_def sample_report_def report_event_def report_status_def order_limit_def
        report_cl_ord_id_def report_fill_def Let_def)
  have one: "show_int 1 = show_nat 1" by (simp add: show_int_def)
  have e: "report_ok sample_codec sample_report"
    by (simp add: report_ok_def sample_report_def open_quantity_def order_limit_def report_event_def report_fill_def
        sample_exact)
  have a: "dec_add sample_codec (o_cum (rp_order sample_report)) (open_quantity (rp_order sample_report)) = Some 5"
    by (simp add: sample_report_def open_quantity_def sample_codec_def sample_decimal_def checked_dec_def dec_limit_def)
  have t: "validate_timestamp sample_chrono sample_time = Inr ()"
    by (simp add: validate_timestamp_def sample_chrono_def sample_time_def)
  have s: "sendable sample_time ''FIX.4.2'' ''8'' ''A'' ''B'' ?fs"
    unfolding fs one
    by (simp add: sendable_def plain_field_def plain_show_nat) (simp add: sample_plain sample_time_def)
  have l: "length ?w \<le> MAX_MESSAGE_SIZE"
    using show_nat_length [of 100] show_nat_length [of 5] show_nat_length [of 3] show_nat_length [of 2]
      show_nat_length [of 1] show_nat_length [of 7] unfolding fs one
    by (intro frame_size) (simp_all add: wire_size_def header_fields_def sample_time_def)
  have "?w \<noteq> []" by (simp add: frame_shape frame_head_parts Let_def)
  then have "steady [Data ?w]" "stream_bytes [Data ?w] = ?w @ []" by (simp_all add: steady_def)
  from report_wire_roundtrip [OF e a s t l this] show ?thesis by metis
qed


section \<open>Decoded messages\<close>

definition inbound_ok :: "inbound \<Rightarrow> bool" where
  "inbound_ok r =
     (case r of
        Logon n \<Rightarrow> 0 < n \<and> n \<le> u32_max
      | TestRequest t \<Rightarrow> t \<noteq> []
      | SequenceReset n g \<Rightarrow> 0 < n \<and> n \<le> u64_max
      | NewOrderSingle c s sd ty p q \<Rightarrow> c \<noteq> [] \<and> s \<noteq> [] \<and> 0 < q \<and> (ty = Limit \<longrightarrow> 0 < p)
      | CancelRequest c orig s sd \<Rightarrow> c \<noteq> [] \<and> orig \<noteq> [] \<and> s \<noteq> []
      | CancelReplace c orig s sd ty p q \<Rightarrow> c \<noteq> [] \<and> orig \<noteq> [] \<and> s \<noteq> [] \<and> 0 < q \<and> (ty = Limit \<longrightarrow> 0 < p)
      | CancelReject c orig st why \<Rightarrow> c \<noteq> [] \<and> orig \<noteq> []
      | MassQuote i level s bp bq ap aq \<Rightarrow> i \<noteq> [] \<and> level \<le> 2 \<and> s \<noteq> [] \<and> 0 \<le> bp \<and> 0 \<le> bq \<and> 0 \<le> ap \<and> 0 \<le> aq
      | SecurityDefinition i s n \<Rightarrow> i \<noteq> [] \<and> s \<noteq> [] \<and> i64_min \<le> n \<and> n \<le> i64_max
      | ExecutionReport d \<Rightarrow> er_exchange_id d \<noteq> [] \<and> er_symbol d \<noteq> [] \<and> 0 \<le> er_remaining d \<and>
          (er_is_fill d \<longrightarrow> 0 < er_last_price d \<and> 0 < er_last_quantity d)
      | Unsupported k \<Rightarrow> required_fields k = None
      | _ \<Rightarrow> True)"

lemma positive_pos: "positive D m t = Inr x \<Longrightarrow> 0 < x"
  by (auto simp: positive_def rust_bind)

lemma quote_value_nonneg: "quote_value D m t = Inr x \<Longrightarrow> 0 \<le> x"
  by (auto simp: quote_value_def rust_bind)

lemma natural_bound: "natural m t = Inr n \<Longrightarrow> n \<le> u64_max"
  by (auto simp: natural_def rust_bind dest: parse_uint_bound)

lemma parse_sint_bounds: "parse_sint lo hi s = Some i \<Longrightarrow> lo \<le> i \<and> i \<le> hi"
  by (auto simp: parse_sint_def Let_def split: if_splits)

definition filled_in :: "fix_message \<Rightarrow> bool" where
  "filled_in m \<longleftrightarrow> (\<forall>(t, v) \<in> set (fm_fields m). v \<noteq> [])"

lemma need_filled: "filled_in m \<Longrightarrow> need m t = Inr v \<Longrightarrow> v \<noteq> []"
  by (auto simp: filled_in_def need_def rust_bind fm_get_def dest: map_of_SomeD)

lemma order_price_pos: "order_price D m Limit = Inr p \<Longrightarrow> 0 < p"
  by (simp add: order_price_def positive_pos)

lemma decode_arm_sound:
  assumes "filled_in m"
  shows "decode_logon m = Inr r \<Longrightarrow> inbound_ok r"
    "decode_sequence_reset m = Inr r \<Longrightarrow> inbound_ok r"
    "decode_resend_request m = Inr r \<Longrightarrow> inbound_ok r"
    "decode_new_order D m = Inr r \<Longrightarrow> inbound_ok r"
    "decode_cancel_request D m = Inr r \<Longrightarrow> inbound_ok r"
    "decode_cancel_replace D m = Inr r \<Longrightarrow> inbound_ok r"
    "decode_cancel_reject m = Inr r \<Longrightarrow> inbound_ok r"
    "decode_security_definition m = Inr r \<Longrightarrow> inbound_ok r"
    "decode_quote_ack m = Inr r \<Longrightarrow> inbound_ok r"
  using need_filled [OF assms] positive_pos order_price_pos parse_sint_bounds [of i64_min i64_max] natural_bound
  by (auto simp: inbound_ok_def rust_bind decode_logon_def decode_sequence_reset_def decode_resend_request_def
      decode_new_order_def decode_cancel_request_def decode_cancel_replace_def decode_cancel_reject_def
      decode_security_definition_def decode_quote_ack_def)

lemma decode_mass_quote_sound:
  assumes "filled_in m" "decode_mass_quote D m = Inr r"
  shows "inbound_ok r"
proof -
  have "(let v = get_or m 301 ''0'' in if v = ''0'' then Inr 0 else if v = ''1'' then Inr 1 else if v = ''2'' then Inr 2
      else Inl InvalidQuoteResponseLevel) = Inr level \<Longrightarrow> level \<le> (2 :: nat)" for level
    by (auto simp: Let_def split: if_splits)
  then show ?thesis
    using assms(2) need_filled [OF assms(1)]
    by (simp add: decode_mass_quote_def rust_bind)
      (elim exE conjE, hypsubst, unfold inbound_ok_def inbound.case, auto dest: quote_value_nonneg)
qed

lemma execution_fields_sound:
  assumes "filled_in m" "execution_fields D m = Inr (cum, remaining, d)"
  shows "inbound_ok (ExecutionReport (d\<lparr>er_quantity := q\<rparr>))" "dec D m 14 = Inr cum" "dec D m 151 = Inr remaining"
proof -
  have fill: "c \<Longrightarrow> 0 < x" if "(if c then positive D m t else dec_or D m t 0) = Inr x" for c t x
    using that positive_pos by (cases c) simp_all
  show "dec D m 14 = Inr cum" "dec D m 151 = Inr remaining"
    using assms(2) by (auto simp: execution_fields_def rust_bind Let_def)
  show "inbound_ok (ExecutionReport (d\<lparr>er_quantity := q\<rparr>))"
    using assms(2) need_filled [OF assms(1)]
    by (simp add: execution_fields_def rust_bind Let_def)
      (elim exE conjE, hypsubst, unfold inbound_ok_def inbound.case, auto dest: fill)
qed


lemma inbound_ok_plain:
  "inbound_ok Heartbeat" "inbound_ok Logout" "inbound_ok (SessionReject why)" "inbound_ok (BusinessReject why)"
  "inbound_ok (TestRequest t) \<longleftrightarrow> t \<noteq> []"
  by (simp_all add: inbound_ok_def)

lemma decode_kind_sound:
  assumes "filled_in m" "decode_kind D m kind = Some (Inr r)"
  shows "inbound_ok r \<and> (required_fields kind = None \<longrightarrow> r = Unsupported kind)"
proof (cases "kind = ''8''")
  case True
  then have "decode_execution_report D m = Some (Inr r)" using assms(2) by (simp add: decode_kind_def)
  then show ?thesis
    using execution_fields_sound(1) [OF assms(1)] True
    by (auto simp: decode_execution_report_def required_fields_def split: sum.splits)
next
  case False
  show ?thesis
  proof (cases "required_fields kind")
    case None
    then have "r = Unsupported kind" using assms(2) by (auto simp: decode_kind_def required_fields_def split: if_splits)
    then show ?thesis using None by (simp add: inbound_ok_def)
  next
    case (Some req)
    then have "kind \<in> {''A'', ''0'', ''1'', ''2'', ''3'', ''4'', ''5'', ''D'', ''F'', ''G'', ''9'', ''i'', ''d'', ''j'', ''b''}"
      using False by (auto simp: required_fields_def split: if_splits)
    then have "inbound_ok r"
      using assms(2)
      by (elim insertE emptyE)
        (auto simp: decode_kind_def rust_bind inbound_ok_plain dest: need_filled [OF assms(1)]
          intro: decode_arm_sound [OF assms(1)] decode_mass_quote_sound [OF assms(1)])
    then show ?thesis using Some by simp
  qed
qed


lemma header_then_body:
  assumes "kind \<noteq> ''i''" "scopes_ok kind ts"
  shows "\<exists>hs bs. ts = hs @ bs \<and> set hs \<subseteq> set HEADER_FIELDS \<and> (\<forall>t \<in> set bs. body_tag kind t)"
proof (intro exI conjI)
  let ?P = "\<lambda>t. t \<in> set HEADER_FIELDS"
  show "ts = takeWhile ?P ts @ dropWhile ?P ts" by simp
  show "set (takeWhile ?P ts) \<subseteq> set HEADER_FIELDS" by (auto dest: set_takeWhileD)
  show "\<forall>t \<in> set (dropWhile ?P ts). body_tag kind t" using assms by (simp add: scopes_scalar)
qed

lemma profile_filled: "validate_profile chrono m kind = Inr u \<Longrightarrow> required_fields kind = Some req \<Longrightarrow> filled_in m"
  by (auto simp: validate_profile_Inr filled_in_def)

lemma decode_Some:
  assumes "decode D chrono m = Some (Inr r)"
  obtains kind where "fm_msg_type m = Some kind" "validate_profile chrono m kind = Inr ()"
    "decode_kind D m kind = Some (Inr r)"
  using assms by (auto simp: decode_def split: option.splits sum.splits)

lemma dec_other_add:
  "parse_decimal (D\<lparr>dec_add := f\<rparr>) = parse_decimal D" "dec (D\<lparr>dec_add := f\<rparr>) = dec D"
  "dec_or (D\<lparr>dec_add := f\<rparr>) = dec_or D" "positive (D\<lparr>dec_add := f\<rparr>) = positive D"
proof -
  show p: "parse_decimal (D\<lparr>dec_add := f\<rparr>) = parse_decimal D" by (rule ext) (simp add: parse_decimal_def)
  show d: "dec (D\<lparr>dec_add := f\<rparr>) = dec D" by (intro ext) (simp add: dec_def p)
  show "dec_or (D\<lparr>dec_add := f\<rparr>) = dec_or D" by (intro ext) (simp add: dec_or_def p cong: option.case_cong)
  show "positive (D\<lparr>dec_add := f\<rparr>) = positive D" by (intro ext) (simp add: positive_def d)
qed

text \<open>What the engine's own check of the figures of a decoded request still refuses.\<close>

definition figures_checked :: "inbound \<Rightarrow> bool" where
  "figures_checked r \<longleftrightarrow>
     (case r of
        NewOrderSingle c s sd ty p q \<Rightarrow> (\<forall>i. validate_order_id i = Inr () \<longrightarrow>
          validate_order_input i ty p q = (if ty = Market \<and> p < 0 then Inl InvalidPrice else Inr ()))
      | CancelReplace c orig s sd ty p q \<Rightarrow> (\<forall>i. validate_order_id i = Inr () \<longrightarrow>
          validate_order_input i ty p q = (if ty = Market \<and> p < 0 then Inl InvalidPrice else Inr ()))
      | MassQuote i level s bp bq ap aq \<Rightarrow> (\<forall>D e session inst err e'.
          en_policy e = Real_Fill \<and> get_by_id (en_instruments e) inst \<noteq> None \<and> bt_get (en_sessions e) session \<noteq> None \<longrightarrow>
          quote D e session inst bp bq ap aq = Some (Inl err, e') \<longleftrightarrow>
          (bp \<noteq> 0 \<and> bq = 0 \<or> ap \<noteq> 0 \<and> aq = 0) \<and> err = InvalidQuantity \<and> e' = e)
      | _ \<Rightarrow> True)"

lemma inbound_figures:
  assumes "inbound_ok r"
  shows "figures_checked r"
proof -
  have order: "validate_order_input i ty p q = (if ty = Market \<and> p < 0 then Inl InvalidPrice else Inr ())"
    if "0 < q" "ty = Limit \<longrightarrow> 0 < p" "validate_order_id i = Inr ()" for i ty p q
    using that by (cases ty) (auto simp: validate_order_input_def)
  have "quote D e session inst bp bq ap aq = Some (Inl err, e') \<longleftrightarrow>
      (bp \<noteq> 0 \<and> bq = 0 \<or> ap \<noteq> 0 \<and> aq = 0) \<and> err = InvalidQuantity \<and> e' = e"
    if "0 \<le> bp" "0 \<le> bq" "0 \<le> ap" "0 \<le> aq" "en_policy e = Real_Fill" "get_by_id (en_instruments e) inst \<noteq> None"
      "bt_get (en_sessions e) session \<noteq> None" for D e session inst bp bq ap aq err e'
    using that by (auto simp: quote_def rust_bind Let_def)
  then show ?thesis
    using assms order by (cases r) (simp_all add: inbound_ok_def figures_checked_def)
qed

text \<open>
  C22. Every message the decoder accepts is within its contract: it has a message type; a type outside the
  supported profile is reported as unsupported; otherwise no tag is repeated, no value is empty, every required
  tag is there, outside quotes the header fields come first and every body field belongs to the message, and
  the decoded value is sound (positive quantities and limit prices, non-negative quotes and open quantities,
  positive fills, heartbeat interval and sequence numbers in range, non-empty identifiers). What the decoder
  leaves to the engine is exactly this: of the figures of a decoded order or replacement the engine's check refuses only the negative
  price of a market order, and of a decoded quote only a side with a price and no size.
\<close>

theorem decode_contract:
  assumes "decode D chrono m = Some (Inr r)"
  shows "\<exists>kind. fm_msg_type m = Some kind \<and>
    (case required_fields kind of
       None \<Rightarrow> r = Unsupported kind
     | Some req \<Rightarrow> inbound_ok r \<and> figures_checked r \<and>
         set req \<subseteq> fst ` set (fm_fields m) \<and> distinct (map fst (fm_fields m)) \<and>
         (\<forall>(t, v) \<in> set (fm_fields m). v \<noteq> []) \<and>
         (kind \<noteq> ''i'' \<longrightarrow> (\<exists>hs bs. map fst (fm_fields m) = hs @ bs \<and> set hs \<subseteq> set HEADER_FIELDS \<and>
            (\<forall>t \<in> set bs. body_tag kind t))))"
proof -
  obtain kind where k: "fm_msg_type m = Some kind" "validate_profile chrono m kind = Inr ()"
    "decode_kind D m kind = Some (Inr r)"
    using assms by (rule decode_Some)
  show ?thesis
  proof (cases "required_fields kind")
    case None
    then have "r = Unsupported kind" using k(3) by (auto simp: decode_kind_def required_fields_def split: if_splits)
    then show ?thesis using k(1) None by (intro exI [of _ kind]) simp
  next
    case (Some req)
    have f: "filled_in m" by (rule profile_filled [OF k(2) Some])
    have "scopes_ok kind (map fst (fm_fields m))" "set req \<subseteq> fst ` set (fm_fields m)" "distinct (map fst (fm_fields m))"
      using k(2) by (simp_all only: validate_profile_Inr [OF Some] validate_field_scopes_Inr)
    moreover have "inbound_ok r" using decode_kind_sound [OF f k(3)] by blast
    ultimately show ?thesis
      using k(1) Some f header_then_body [of kind] inbound_figures unfolding filled_in_def by (intro exI [of _ kind]) simp
  qed
qed

definition sample_order_message :: fix_message where
  "sample_order_message = wire_message ''FIX.4.2'' ''D'' 7 ''A'' ''B'' sample_time
     (build_new_order_single sample_codec sample_time ''1'' ''IBM'' Buy Limit 100 5) []"

lemma sample_order_decodes:
  "decode sample_codec sample_chrono sample_order_message = Some (Inr (NewOrderSingle ''1'' ''IBM'' Buy Limit 100 5))"
  unfolding sample_order_message_def
proof (rule decode_encodes)
  show "encodes sample_codec sample_time ''q'' (NewOrderSingle ''1'' ''IBM'' Buy Limit 100 5) ''D''
      (build_new_order_single sample_codec sample_time ''1'' ''IBM'' Buy Limit 100 5)"
    by (rule limit_order) (simp_all add: sample_exact)
  show "values_ok (header_fields ''D'' 7 ''A'' ''B'' sample_time @
      build_new_order_single sample_codec sample_time ''1'' ''IBM'' Buy Limit 100 5)"
    by (simp add: values_ok_def header_fields_def build_new_order_single_def sample_time_def show_nat_nonempty)
  show "validate_timestamp sample_chrono sample_time = Inr ()"
    by (simp add: validate_timestamp_def sample_chrono_def sample_time_def)
qed

theorem decode_contract_witness:
  "decode sample_codec sample_chrono sample_order_message = Some (Inr (NewOrderSingle ''1'' ''IBM'' Buy Limit 100 5)) \<and>
   distinct (map fst (fm_fields sample_order_message)) \<and> validate_order_input 1 Limit 100 5 = Inr ()"
proof -
  have "fm_msg_type sample_order_message = Some ''D''" by (simp add: sample_order_message_def fm_msg_type_def header_fields_def)
  moreover have "required_fields ''D'' \<noteq> None" by (simp add: required_fields_def)
  ultimately have "figures_checked (NewOrderSingle ''1'' ''IBM'' Buy Limit 100 5)" "distinct (map fst (fm_fields sample_order_message))"
    using decode_contract [OF sample_order_decodes] by auto
  moreover have "validate_order_id 1 = Inr ()" by (simp add: validate_order_id_def QUOTE_ORDER_ID_def)
  ultimately show ?thesis using sample_order_decodes by (simp add: figures_checked_def)
qed

text \<open>
  C23. The decoder panics on one kind of message only: an execution report whose executed quantity (tag 14) and open
  quantity (tag 151) are two non-negative decimals with a sum the decimal type cannot hold, and which is
  otherwise acceptable, in that a library whose addition never overflows would decode it. The order quantity in
  tag 38, which makes the sum superfluous, does not prevent the panic: the message of the witness has one.
\<close>

theorem decode_panics_iff:
  "decode D chrono m = None \<longleftrightarrow>
     fm_msg_type m = Some ''8'' \<and>
     (\<exists>cum remaining. dec D m 14 = Inr cum \<and> dec D m 151 = Inr remaining \<and> 0 \<le> cum \<and> 0 \<le> remaining \<and>
        dec_add D cum remaining = None) \<and>
     (\<exists>r. decode (D\<lparr>dec_add := \<lambda>a b. Some (a + b)\<rparr>) chrono m = Some (Inr r))"
    (is "_ \<longleftrightarrow> _ \<and> ?sum \<and> (\<exists>r. decode ?D chrono m = _)")
proof -
  have k: "decode_kind E m kind = None \<longleftrightarrow> kind = ''8'' \<and> decode_execution_report E m = None" for E kind
    by (simp add: decode_kind_def)
  have e: "execution_fields ?D m = execution_fields D m" "parse_decimal ?D = parse_decimal D"
    by (simp_all only: execution_fields_def dec_other_add)
  have "decode_execution_report D m = None \<longleftrightarrow> ?sum \<and> (\<exists>r. decode_execution_report ?D m = Some (Inr r))"
  proof (cases "execution_fields D m")
    case (Inl err)
    then show ?thesis by (simp add: decode_execution_report_def e)
  next
    case (Inr x)
    obtain cum remaining d where x: "execution_fields D m = Inr (cum, remaining, d)" using Inr by (cases x) auto
    have "dec D m 14 = Inr cum" "dec D m 151 = Inr remaining" "0 \<le> cum" "0 \<le> remaining"
      using x by (auto simp: execution_fields_def rust_bind Let_def)
    then show ?thesis by (auto simp: decode_execution_report_def x e split: option.splits sum.splits)
  qed
  then show ?thesis by (auto simp: decode_def k decode_kind_def split: option.splits sum.splits)
qed

definition overflow_report :: report where
  "overflow_report = Status ((order_limit ''A'' 1 1 Buy 100 5 0)
      \<lparr>o_exchange_id := ''x1'', o_remaining := 1, o_cum := 79228162514264337593543950335, o_state := PartialFill\<rparr>)
      ''IBM'' 1 ''exec.1'' ExecNew None"

theorem decode_panics_iff_witness:
  "decode sample_codec sample_chrono (wire_message ''FIX.4.2'' ''8'' 7 ''A'' ''B'' sample_time
      (build_execution_report sample_codec sample_time overflow_report) []) = None \<and>
   (\<exists>r. decode (sample_codec\<lparr>dec_add := \<lambda>a b. Some (a + b)\<rparr>) sample_chrono (wire_message ''FIX.4.2'' ''8'' 7 ''A'' ''B'' sample_time
      (build_execution_report sample_codec sample_time overflow_report) []) = Some (Inr r))"
proof -
  let ?fs = "build_execution_report sample_codec sample_time overflow_report"
  have fs: "?fs = [(37, ''x1''), (17, ''exec.1''), (20, ''0''), (150, ''0''), (39, ''1''), (55, ''IBM''), (54, ''1''),
      (38, show_nat 5), (40, ''2''), (151, show_nat 1), (14, show_nat 79228162514264337593543950335), (6, show_nat 0),
      (60, sample_time), (11, show_int 1), (44, show_nat 100), (31, show_nat 0), (32, show_nat 0)]"
    by (simp add: build_execution_report_def overflow_report_def report_event_def report_status_def order_limit_def
        report_cl_ord_id_def report_fill_def Let_def)
      (simp add: fix_decimal_def sample_codec_def)
  have "report_ok sample_codec overflow_report"
    by (simp add: report_ok_def overflow_report_def open_quantity_def order_limit_def report_event_def report_fill_def
        sample_exact)
  moreover have "validate_timestamp sample_chrono sample_time = Inr ()"
    by (simp add: validate_timestamp_def sample_chrono_def sample_time_def)
  moreover have "values_ok (header_fields ''8'' 7 ''A'' ''B'' sample_time @ ?fs)"
    unfolding fs by (simp add: values_ok_def header_fields_def sample_time_def show_int_def)
  moreover have "dec_add sample_codec (o_cum (rp_order overflow_report)) (open_quantity (rp_order overflow_report)) = None"
    by (simp add: overflow_report_def open_quantity_def sample_codec_def sample_decimal_def checked_dec_def dec_limit_def)
  ultimately have "decode sample_codec sample_chrono (wire_message ''FIX.4.2'' ''8'' 7 ''A'' ''B'' sample_time ?fs []) = None"
    by (simp add: decode_built_report)
  then show ?thesis using decode_panics_iff by blast
qed

end
