(* ===== verification/Wire_Ids.thy ===== *)
theory Wire_Ids
  imports Engine
begin

text \<open>
  Client order identifiers (\<open>WireIdMap\<close> of \<open>src/fix/session.rs\<close>). A ClOrdID is text on the wire and a
  32-bit key in the engine; each connection keeps a map between the two. The locale \<open>id_translation\<close> is the
  contract the writer and the business handler rely on: the two directions are inverse, keys are positive, and
  interning keeps what was there. The interpretation proves it for \<open>intern\<close>.
\<close>

record wire_id_map =
  wi_internal :: "string \<Rightarrow> order_id option"
  wi_wire :: "order_id \<Rightarrow> string option"
  wi_next :: order_id

datatype wire_id_error = EmptyClOrdId | TooManyClOrdIds | DuplicateClOrdId

definition wire_ids_new :: wire_id_map where
  "wire_ids_new = \<lparr>wi_internal = Map.empty, wi_wire = Map.empty, wi_next = 1\<rparr>"

text \<open>The search loop of \<open>intern\<close>: the first free key, or nothing once the 32-bit range is exhausted.\<close>

function find_free :: "(order_id \<Rightarrow> string option) \<Rightarrow> order_id \<Rightarrow> order_id option" where
  "find_free used c =
     (if 0 < c \<and> c \<noteq> QUOTE_ORDER_ID \<and> used c = None then Some c
      else if c < i32_max then find_free used (c + 1)
      else None)"
  by pat_completeness auto
termination by (relation "measure (\<lambda>(used, c). nat (i32_max - c))") auto

declare find_free.simps [simp del]

definition preferred_id :: "string \<Rightarrow> order_id option" where
  "preferred_id wire =
     (case parse_i32 wire of
        None \<Rightarrow> None
      | Some i \<Rightarrow> if 0 < i \<and> i \<noteq> QUOTE_ORDER_ID then Some i else None)"

definition saturating_inc_i32 :: "int \<Rightarrow> int" where
  "saturating_inc_i32 i = (if i < i32_max then i + 1 else i32_max)"

text \<open>The key for a new identifier, and the next key to try.\<close>

definition choose_id :: "wire_id_map \<Rightarrow> string \<Rightarrow> wire_id_error + (order_id \<times> order_id)" where
  "choose_id m wire =
     (let search = (case find_free (wi_wire m) (max (wi_next m) 1) of
                      None \<Rightarrow> Inl TooManyClOrdIds
                    | Some c \<Rightarrow> Inr (c, max (saturating_inc_i32 c) 1))
      in case preferred_id wire of
           None \<Rightarrow> search
         | Some i \<Rightarrow> if wi_wire m i = None then Inr (i, wi_next m) else search)"

definition intern :: "wire_id_map \<Rightarrow> string \<Rightarrow> (wire_id_error + order_id) \<times> wire_id_map" where
  "intern m wire =
     (if wire = [] then (Inl EmptyClOrdId, m)
      else case wi_internal m wire of
             Some i \<Rightarrow> (Inr i, m)
           | None \<Rightarrow>
               (case choose_id m wire of
                  Inl e \<Rightarrow> (Inl e, m)
                | Inr (i, next) \<Rightarrow>
                    (Inr i, \<lparr>wi_internal = (wi_internal m)(wire \<mapsto> i), wi_wire = (wi_wire m)(i \<mapsto> wire),
                             wi_next = next\<rparr>)))"

definition wire_for :: "wire_id_map \<Rightarrow> order_id \<Rightarrow> string option" where
  "wire_for m i = wi_wire m i"

definition fresh_id :: "wire_id_map \<Rightarrow> string \<Rightarrow> (wire_id_error + order_id) \<times> wire_id_map" where
  "fresh_id m wire = (if wi_internal m wire \<noteq> None then (Inl DuplicateClOrdId, m) else intern m wire)"

section \<open>The search\<close>

lemma find_free_Some:
  "find_free used c = Some r \<Longrightarrow> c \<le> r \<and> 0 < r \<and> used r = None \<and> (c \<le> i32_max \<longrightarrow> r \<le> i32_max) \<and> (\<forall>i. 0 < i \<and> c \<le> i \<and> i < r \<longrightarrow> used i \<noteq> None)"
proof (induction used c rule: find_free.induct)
  case (1 used c)
  show ?case
  proof (cases "0 < c \<and> c \<noteq> QUOTE_ORDER_ID \<and> used c = None")
    case True
    then show ?thesis using "1.prems" by (auto simp: find_free.simps [of used c])
  next
    case False
    with "1.prems" have "c < i32_max" "find_free used (c + 1) = Some r"
      by (auto simp: find_free.simps [of used c] split: if_splits)
    from "1.IH" [OF False this] this(1) False show ?thesis
      by (auto simp: QUOTE_ORDER_ID_def) (metis not_less zless_add1_eq linorder_not_le order_antisym_conv)+
  qed
qed

lemma find_free_None:
  "find_free used c = None \<Longrightarrow> 0 < i \<Longrightarrow> c \<le> i \<Longrightarrow> i \<le> i32_max \<Longrightarrow> used i \<noteq> None"
proof (induction used c rule: find_free.induct)
  case (1 used c)
  have n: "\<not> (0 < c \<and> c \<noteq> QUOTE_ORDER_ID \<and> used c = None)" using "1.prems"(1) by (auto simp: find_free.simps [of used c] split: if_splits)
  show ?case
  proof (cases "i = c")
    case True
    then show ?thesis using n "1.prems"(2) by (simp add: QUOTE_ORDER_ID_def)
  next
    case False
    then have "c < i32_max" "c + 1 \<le> i" using "1.prems" by auto
    moreover have "find_free used (c + 1) = None" using "1.prems"(1) n calculation(1) by (simp add: find_free.simps [of used c])
    ultimately show ?thesis using "1.IH" [OF n] "1.prems" by blast
  qed
qed


section \<open>The contract\<close>

definition adds :: "('s \<Rightarrow> string \<Rightarrow> 'r \<times> 's) \<Rightarrow> 's \<Rightarrow> string list \<Rightarrow> 's" where
  "adds add s ws = foldl (\<lambda>s w. snd (add s w)) s ws"

locale id_translation =
  fixes internal :: "'s \<Rightarrow> string \<Rightarrow> order_id option" and wire :: "'s \<Rightarrow> order_id \<Rightarrow> string option"
    and add :: "'s \<Rightarrow> string \<Rightarrow> ('e + order_id) \<times> 's" and inv :: "'s \<Rightarrow> bool"
  assumes inverse: "inv s \<Longrightarrow> internal s w = Some i \<longleftrightarrow> wire s i = Some w"
    and positive: "inv s \<Longrightarrow> wire s i = Some w \<Longrightarrow> 0 < i"
    and add_inv: "inv s \<Longrightarrow> add s w = (r, s') \<Longrightarrow> inv s'"
    and add_known: "inv s \<Longrightarrow> add s w = (Inr i, s') \<Longrightarrow> internal s' w = Some i"
    and add_keeps: "inv s \<Longrightarrow> add s w = (r, s') \<Longrightarrow> internal s v = Some j \<Longrightarrow> internal s' v = Some j"
begin

lemma added_translates: "inv s \<Longrightarrow> add s w = (Inr i, s') \<Longrightarrow> wire s' i = Some w"
  using add_known add_inv inverse by blast

lemma injective: "inv s \<Longrightarrow> wire s i = Some w \<Longrightarrow> wire s j = Some w \<Longrightarrow> i = j"
  using inverse by (metis option.inject)

lemma adds_inv: "inv s \<Longrightarrow> inv (adds add s ws)"
  by (induction ws arbitrary: s) (auto simp: adds_def intro: add_inv [OF _ surjective_pairing])

lemma adds_keeps: "inv s \<Longrightarrow> wire s i = Some w \<Longrightarrow> wire (adds add s ws) i = Some w"
proof (induction ws arbitrary: s)
  case (Cons v ws)
  let ?s = "snd (add s v)"
  have "inv ?s" by (rule add_inv [OF Cons.prems(1) surjective_pairing])
  moreover have "internal ?s w = Some i"
    using add_keeps [OF Cons.prems(1) surjective_pairing] inverse Cons.prems by blast
  ultimately have "wire (adds add ?s ws) i = Some w" using Cons.IH [of ?s] inverse by blast
  then show ?case by (simp add: adds_def)
qed (simp add: adds_def)

end

section \<open>The map is such a translation\<close>

definition wire_ids_ok :: "wire_id_map \<Rightarrow> bool" where
  "wire_ids_ok m \<longleftrightarrow>
     (\<forall>w i. wi_internal m w = Some i \<longleftrightarrow> wi_wire m i = Some w) \<and>
     (\<forall>i w. wi_wire m i = Some w \<longrightarrow> 0 < i \<and> i \<le> i32_max \<and> w \<noteq> []) \<and>
     1 \<le> wi_next m \<and> wi_next m \<le> i32_max \<and> (\<forall>i. 0 < i \<and> i < wi_next m \<longrightarrow> wi_wire m i \<noteq> None)"

lemma preferred_id_bounds: "preferred_id w = Some i \<Longrightarrow> 0 < i \<and> i \<le> i32_max"
  by (auto simp: preferred_id_def parse_sint_def Let_def split: option.splits if_splits)

lemma choose_id_ok:
  assumes "wire_ids_ok m" "choose_id m w = Inr (i, n)"
  shows "wi_wire m i = None" "0 < i" "i \<le> i32_max" "1 \<le> n" "n \<le> i32_max"
    "\<forall>j. 0 < j \<and> j < n \<longrightarrow> wi_wire m j \<noteq> None \<or> j = i"
proof -
  have nx: "max (wi_next m) 1 = wi_next m" "1 \<le> wi_next m" "wi_next m \<le> i32_max"
    "\<forall>j. 0 < j \<and> j < wi_next m \<longrightarrow> wi_wire m j \<noteq> None"
    using assms(1) by (auto simp: wire_ids_ok_def)
  consider (preferred) "preferred_id w = Some i" "wi_wire m i = None" "n = wi_next m"
    | (search) "find_free (wi_wire m) (wi_next m) = Some i" "n = max (saturating_inc_i32 i) 1"
    using assms(2) nx(1) by (auto simp: choose_id_def Let_def split: option.splits if_splits)
  then have "wi_wire m i = None \<and> 0 < i \<and> i \<le> i32_max \<and> 1 \<le> n \<and> n \<le> i32_max \<and>
    (\<forall>j. 0 < j \<and> j < n \<longrightarrow> wi_wire m j \<noteq> None \<or> j = i)"
  proof cases
    case preferred
    then show ?thesis using preferred_id_bounds nx by blast
  next
    case search
    have f: "wi_next m \<le> i" "0 < i" "wi_wire m i = None" "i \<le> i32_max" "\<forall>j. 0 < j \<and> wi_next m \<le> j \<and> j < i \<longrightarrow> wi_wire m j \<noteq> None"
      using find_free_Some [OF search(1)] nx(3) by blast+
    have n: "n \<le> i + 1" "1 \<le> n" "n \<le> i32_max" using search(2) f(2,4) by (auto simp: saturating_inc_i32_def)
    have "wi_wire m j \<noteq> None \<or> j = i" if "0 < j" "j < n" for j
      using that f(5) nx(4) n(1) by (cases "j < wi_next m"; cases "j < i") auto
    then show ?thesis using f n by blast
  qed
  then show "wi_wire m i = None" "0 < i" "i \<le> i32_max" "1 \<le> n" "n \<le> i32_max"
    "\<forall>j. 0 < j \<and> j < n \<longrightarrow> wi_wire m j \<noteq> None \<or> j = i" by blast+
qed

lemma intern_cases:
  obtains (empty) "w = []" "intern m w = (Inl EmptyClOrdId, m)"
  | (known) i where "w \<noteq> []" "wi_internal m w = Some i" "intern m w = (Inr i, m)"
  | (exhausted) e where "w \<noteq> []" "wi_internal m w = None" "choose_id m w = Inl e" "intern m w = (Inl e, m)"
  | (new) i n where "w \<noteq> []" "wi_internal m w = None" "choose_id m w = Inr (i, n)"
      "intern m w = (Inr i, \<lparr>wi_internal = (wi_internal m)(w \<mapsto> i), wi_wire = (wi_wire m)(i \<mapsto> w), wi_next = n\<rparr>)"
  by (cases "w = []"; cases "wi_internal m w"; cases "choose_id m w") (auto simp: intern_def)

lemma intern_ok:
  assumes "wire_ids_ok m" "intern m w = (r, m')"
  shows "wire_ids_ok m'"
proof (cases rule: intern_cases [of w m])
  case (new i n)
  note c = choose_id_ok [OF assms(1) new(3)]
  have m': "m' = \<lparr>wi_internal = (wi_internal m)(w \<mapsto> i), wi_wire = (wi_wire m)(i \<mapsto> w), wi_next = n\<rparr>"
    using assms(2) new(4) by simp
  have "wi_internal m v = Some j \<longleftrightarrow> wi_wire m j = Some v" for v j using assms(1) by (simp add: wire_ids_ok_def)
  then have "wi_internal m' v = Some j \<longleftrightarrow> wi_wire m' j = Some v" for v j
    using c(1) new(2) unfolding m' by (auto split: if_splits) (metis option.distinct(1))
  moreover have "wi_wire m' j = Some v \<Longrightarrow> 0 < j \<and> j \<le> i32_max \<and> v \<noteq> []" for j v
    using assms(1) c(2,3) new(1) unfolding m' by (auto simp: wire_ids_ok_def split: if_splits)
  moreover have "wi_next m' = n" "\<forall>j. 0 < j \<and> j < n \<longrightarrow> wi_wire m' j \<noteq> None" using c(6) unfolding m' by auto
  ultimately show ?thesis using c(4,5) unfolding wire_ids_ok_def by blast
qed (use assms in auto)

interpretation wire_ids: id_translation wi_internal wire_for intern wire_ids_ok
proof
  fix s s' :: wire_id_map and w v :: string and r i j
  assume ok: "wire_ids_ok s"
  show "wi_internal s w = Some i \<longleftrightarrow> wire_for s i = Some w" using ok by (simp add: wire_ids_ok_def wire_for_def)
  show "0 < i" if "wire_for s i = Some w" using ok that by (auto simp: wire_ids_ok_def wire_for_def)
  show "wire_ids_ok s'" if "intern s w = (r, s')" by (rule intern_ok [OF ok that])
  show "wi_internal s' w = Some i" if "intern s w = (Inr i, s')"
    using that by (cases rule: intern_cases [of w s]) auto
  show "wi_internal s' v = Some j" if "intern s w = (r, s')" "wi_internal s v = Some j"
    using that by (cases rule: intern_cases [of w s]) auto
qed

lemma wire_ids_new_ok: "wire_ids_ok wire_ids_new"
  by (simp add: wire_ids_ok_def wire_ids_new_def)

definition interned :: "string list \<Rightarrow> wire_id_map" where
  "interned ws = adds intern wire_ids_new ws"

lemma interned_ok: "wire_ids_ok (interned ws)"
  unfolding interned_def by (rule wire_ids.adds_inv [OF wire_ids_new_ok])

lemma interned_append: "interned (ws @ vs) = adds intern (interned ws) vs"
  by (simp add: interned_def adds_def)

lemma choose_id_exhausted:
  assumes "wire_ids_ok m" "choose_id m w = Inl e" "0 < i" "i \<le> i32_max"
  shows "e = TooManyClOrdIds \<and> wi_wire m i \<noteq> None"
proof -
  have nx: "max (wi_next m) 1 = wi_next m" "\<forall>j. 0 < j \<and> j < wi_next m \<longrightarrow> wi_wire m j \<noteq> None"
    using assms(1) by (auto simp: wire_ids_ok_def)
  have "e = TooManyClOrdIds" "find_free (wi_wire m) (wi_next m) = None"
    using assms(2) nx(1) by (auto simp: choose_id_def Let_def split: option.splits if_splits)
  then show ?thesis using find_free_None [OF _ assms(3) _ assms(4)] nx(2) assms(3) by (metis linorder_not_le)
qed

section \<open>Properties\<close>

text \<open>
  C24. Client order identifiers are translated without loss: whatever texts a session has interned, the two
  directions of the map are inverse, every key is a positive 32-bit number, a translation never changes
  later, a number that is free keeps its value, and interning a new text fails only when all of the
  positive 32-bit keys are taken.
\<close>

theorem wire_ids_bijective:
  "(wi_internal (interned ws) w = Some i \<longleftrightarrow> wire_for (interned ws) i = Some w) \<and>
   (wire_for (interned ws) i = Some w \<longrightarrow> 0 < i \<and> i \<le> i32_max \<and> wire_for (interned (ws @ vs)) i = Some w) \<and>
   (wi_internal (interned ws) w = None \<and> w \<noteq> [] \<and> preferred_id w = Some i \<and> wire_for (interned ws) i = None \<longrightarrow>
      fst (intern (interned ws) w) = Inr i) \<and>
   (fst (intern (interned ws) w) = Inl e \<and> w \<noteq> [] \<and> 0 < i \<and> i \<le> i32_max \<longrightarrow> wire_for (interned ws) i \<noteq> None)"
proof (intro conjI impI)
  note ok = interned_ok [of ws]
  show "wi_internal (interned ws) w = Some i \<longleftrightarrow> wire_for (interned ws) i = Some w" by (rule wire_ids.inverse [OF ok])
  show "wire_for (interned (ws @ vs)) i = Some w" "0 < i" "i \<le> i32_max" if "wire_for (interned ws) i = Some w"
    using that wire_ids.adds_keeps [OF ok that, of vs] ok
    unfolding interned_append by (auto simp: wire_ids_ok_def wire_for_def)
  show "fst (intern (interned ws) w) = Inr i"
    if "wi_internal (interned ws) w = None \<and> w \<noteq> [] \<and> preferred_id w = Some i \<and> wire_for (interned ws) i = None"
    using that by (simp add: intern_def choose_id_def wire_for_def Let_def)
  show "wire_for (interned ws) i \<noteq> None"
    if "fst (intern (interned ws) w) = Inl e \<and> w \<noteq> [] \<and> 0 < i \<and> i \<le> i32_max"
    using that choose_id_exhausted [OF ok, of w _ i]
    by (cases rule: intern_cases [of w "interned ws"]) (auto simp: wire_for_def)
qed

theorem wire_ids_bijective_witness:
  "wire_for (interned [''A7'', ''7'', ''x'']) 1 = Some ''A7'' \<and> wire_for (interned [''A7'', ''7'']) 7 = Some ''7''"
proof -
  have "wire_for (interned [''A7'']) 1 = Some ''A7''" "wire_for (interned [''A7'', ''7'']) 7 = Some ''7''"
    by (simp_all add: interned_def adds_def intern_def choose_id_def wire_ids_new_def preferred_id_def parse_sint_def
        strip_plus_def all_digits_def is_ascii_digit_def digits_val_def digit_val_def find_free.simps QUOTE_ORDER_ID_def
        saturating_inc_i32_def wire_for_def)
  then show ?thesis using wire_ids_bijective [of "[''A7'']" "''A7''" 1 "[''7'', ''x'']"] by simp
qed

end
