(* ===== verification/Sequence.thy ===== *)
theory Sequence
  imports Frame BTree Transition
begin

text \<open>
  Inbound sequence numbers (\<open>SequenceState\<close> of \<open>src/fix/session.rs\<close>): the expected number, the messages
  held back while a gap is recovered, and whether a resend was requested. The lemmas say what \<open>classify\<close> and
  \<open>advance\<close> do to the expected number, and when a set of numbered messages is the one held back.
\<close>

datatype session_error =
    MissingField nat
  | NotAnInteger nat
  | NotPositiveInteger nat
  | EmptyField nat
  | SeqTooLow nat nat
  | QueueOverflow
  | SequenceMismatch nat nat
  | ResetNotAbove nat nat
  | BadTimestampLength nat
  | BadTimestamp nat
  | OrigAfterSending
  | BadPossDup string
  | DuplicateHeader nat
  | UnsupportedBeginString string
  | CompIdMismatch string string
  | NotALogon
  | UnknownTarget string
  | BadEncryptMethod
  | HeartBtIntTooLarge
  | BadEndSeqNo
  | EndBelowBegin nat nat

definition MAX_QUEUED_MESSAGES :: nat where
  "MAX_QUEUED_MESSAGES = 4096"

definition parse_required_u64 :: "fix_message \<Rightarrow> nat \<Rightarrow> session_error + nat" where
  "parse_required_u64 msg tag =
     (case fm_get msg tag of
        None \<Rightarrow> Inl (MissingField tag)
      | Some value \<Rightarrow>
          (case parse_u64 value of
             None \<Rightarrow> Inl (NotAnInteger tag)
           | Some n \<Rightarrow> if n = 0 then Inl (NotPositiveInteger tag) else Inr n))"

definition parse_required_seq :: "fix_message \<Rightarrow> session_error + nat" where
  "parse_required_seq msg = parse_required_u64 msg 34"

record sequence_state =
  sq_expected :: nat
  sq_queued :: "(nat \<times> fix_message) list"
  sq_resend_from :: "nat option"

definition sequence_new :: "nat \<Rightarrow> sequence_state" where
  "sequence_new expected = \<lparr>sq_expected = expected, sq_queued = [], sq_resend_from = None\<rparr>"

definition is_duplicate :: "fix_message \<Rightarrow> bool" where
  "is_duplicate msg \<longleftrightarrow> fm_get msg 43 = Some ''Y''"

datatype sequence_action = Ready fix_message | Gap "nat option" | Duplicate

definition is_reset :: "fix_message \<Rightarrow> bool" where
  "is_reset msg \<longleftrightarrow> fm_msg_type msg = Some ''4''"

text \<open>The part of \<open>classify\<close> after the sequence resets that are ready at once.\<close>

definition classify_seq :: "sequence_state \<Rightarrow> nat \<Rightarrow> fix_message \<Rightarrow> (session_error + sequence_action) \<times> sequence_state" where
  "classify_seq st seq msg =
     (if seq < sq_expected st then
        (if is_duplicate msg then Inr Duplicate else Inl (SeqTooLow (sq_expected st) seq), st)
      else if sq_expected st < seq then
        if MAX_QUEUED_MESSAGES \<le> length (sq_queued st) then (Inl QueueOverflow, st)
        else
          let st = (case bt_get (sq_queued st) seq of
                      None \<Rightarrow> st\<lparr>sq_queued := bt_insert seq msg (sq_queued st)\<rparr>
                    | Some _ \<Rightarrow> st)
          in if sq_resend_from st = None
             then (Inr (Gap (Some (sq_expected st))), st\<lparr>sq_resend_from := Some (sq_expected st)\<rparr>)
             else (Inr (Gap None), st)
      else (Inr (Ready msg), st))"

definition classify :: "sequence_state \<Rightarrow> fix_message \<Rightarrow> (session_error + sequence_action) \<times> sequence_state" where
  "classify st msg =
     (case parse_required_seq msg of
        Inl e \<Rightarrow> (Inl e, st)
      | Inr seq \<Rightarrow>
          if is_reset msg then
            (case parse_required_u64 msg 36 of
               Inl e \<Rightarrow> (Inl e, st)
             | Inr new_seq \<Rightarrow>
                 if fm_get msg 123 \<noteq> Some ''Y'' \<or> (seq < sq_expected st \<and> sq_expected st < new_seq \<and> is_duplicate msg)
                 then (Inr (Ready msg), st)
                 else classify_seq st seq msg)
          else classify_seq st seq msg)"

definition clear_resend :: "sequence_state \<Rightarrow> sequence_state" where
  "clear_resend st =
     (if (case sq_resend_from st of None \<Rightarrow> False | Some from \<Rightarrow> from < sq_expected st)
      then st\<lparr>sq_resend_from := None\<rparr> else st)"

definition advance :: "sequence_state \<Rightarrow> fix_message \<Rightarrow> session_error + sequence_state" where
  "advance st msg =
     (case parse_required_seq msg of
        Inl e \<Rightarrow> Inl e
      | Inr seq \<Rightarrow>
          if seq \<noteq> sq_expected st \<and> \<not> is_reset msg then Inl (SequenceMismatch (sq_expected st) seq)
          else if is_reset msg then
            (case parse_required_u64 msg 36 of
               Inl e \<Rightarrow> Inl e
             | Inr new_seq \<Rightarrow>
                 if new_seq \<le> sq_expected st then Inl (ResetNotAbove new_seq (sq_expected st))
                 else Inr (clear_resend (st\<lparr>sq_expected := new_seq,
                        sq_queued := filter (\<lambda>(n, _). new_seq \<le> n) (sq_queued st)\<rparr>)))
          else Inr (clear_resend (st\<lparr>sq_expected := saturating_inc_u64 (sq_expected st)\<rparr>)))"

definition take_ready :: "sequence_state \<Rightarrow> fix_message option \<times> sequence_state" where
  "take_ready st =
     (bt_get (sq_queued st) (sq_expected st), st\<lparr>sq_queued := bt_remove (sq_expected st) (sq_queued st)\<rparr>)"

section \<open>What one message does\<close>

definition seqno :: "fix_message \<Rightarrow> nat" where
  "seqno m = (case parse_required_seq m of Inl _ \<Rightarrow> 0 | Inr n \<Rightarrow> n)"

lemma clear_resend_expected [simp]: "sq_expected (clear_resend st) = sq_expected st" "sq_queued (clear_resend st) = sq_queued st"
  by (simp_all add: clear_resend_def)

lemma classify_seq_cases:
  assumes "classify_seq st seq m = (Inr a, st')"
  shows "sq_expected st' = sq_expected st \<and> (\<forall>m'. a = Ready m' \<longrightarrow> m' = m \<and> seq = sq_expected st)"
  using assms by (auto simp: classify_seq_def Let_def split: if_splits option.splits)

lemma classify_cases:
  assumes "classify st m = (Inr a, st')"
  shows "sq_expected st' = sq_expected st \<and> (\<forall>m'. a = Ready m' \<longrightarrow> m' = m \<and> (is_reset m \<or> seqno m = sq_expected st))"
  using assms classify_seq_cases [of st "seqno m" m a st']
  by (auto simp: classify_def seqno_def split: sum.splits if_splits)

lemma advance_cases:
  assumes "advance st m = Inr st'"
  shows "is_reset m \<and> sq_expected st < sq_expected st' \<or>
    \<not> is_reset m \<and> seqno m = sq_expected st \<and> sq_expected st' = saturating_inc_u64 (sq_expected st)"
  using assms by (auto simp: advance_def seqno_def split: sum.splits if_splits)

section \<open>Recovery\<close>

text \<open>Of the messages \<open>f k\<close> with the numbers from \<open>e\<close> on, those of \<open>A\<close> have arrived: the state expects the next of them and holds back the later ones.\<close>

definition holds_back :: "(nat \<Rightarrow> fix_message) \<Rightarrow> nat \<Rightarrow> nat \<Rightarrow> nat set \<Rightarrow> sequence_state \<Rightarrow> bool" where
  "holds_back f e n A st \<longleftrightarrow>
     A \<subseteq> {e..<e + n} \<and> {e..<sq_expected st} \<subseteq> A \<and> e \<le> sq_expected st \<and> sq_expected st \<le> e + n \<and>
     bt_sorted (sq_queued st) \<and>
     (\<forall>k. bt_get (sq_queued st) k = (if k \<in> A \<and> sq_expected st \<le> k then Some (f k) else None))"

lemma holds_back_length:
  assumes "holds_back f e n A st" "k \<in> {e..<e + n}" "k \<notin> A"
  shows "length (sq_queued st) < n"
proof -
  have d: "distinct (map fst (sq_queued st))" using assms(1) by (simp add: holds_back_def bt_sorted_distinct)
  have "fst ` set (sq_queued st) = dom (bt_get (sq_queued st))" by (simp add: dom_map_of_conv_image_fst)
  also have "\<dots> \<subseteq> {e..<e + n} - {k}" using assms by (auto simp: holds_back_def split: if_splits)
  finally have "card (fst ` set (sq_queued st)) \<le> card ({e..<e + n} - {k})" by (intro card_mono) simp_all
  then have "length (sq_queued st) \<le> card ({e..<e + n} - {k})" using distinct_card [OF d] by simp
  then show ?thesis using assms(2) by simp arith
qed

lemma holds_back_next:
  assumes "holds_back f e n A st" "sq_expected st < e + n" "e + n \<le> u64_max" "sq_expected st \<in> A \<or> A' = insert (sq_expected st) A"
    "A \<subseteq> A'" "A' \<subseteq> insert (sq_expected st) A"
    "sq_queued st' = bt_remove (sq_expected st) (sq_queued st)" "sq_expected st' = saturating_inc_u64 (sq_expected st)"
  shows "holds_back f e n A' st' \<and> sq_expected st' = Suc (sq_expected st)"
proof -
  have x: "sq_expected st' = Suc (sq_expected st)" using assms(2,3,8) by (simp add: saturating_inc_u64_def)
  have A: "A' = insert (sq_expected st) A" using assms(4,5,6) by auto
  have "bt_get (sq_queued st') k = (if k \<in> A' \<and> sq_expected st' \<le> k then Some (f k) else None)" for k
    using assms(1) unfolding assms(7) x A by (auto simp: holds_back_def)
  moreover have "A' \<subseteq> {e..<e + n}" "{e..<sq_expected st'} \<subseteq> A'"
    using assms(1,2) unfolding A x by (auto simp: holds_back_def atLeastLessThanSuc)
  moreover have "bt_sorted (sq_queued st')" using assms(1) unfolding assms(7) by (simp add: holds_back_def bt_sorted_remove)
  ultimately show ?thesis using assms(1,2) unfolding holds_back_def x by auto
qed

lemma holds_back_insert:
  assumes "holds_back f e n A st" "k \<in> {e..<e + n}" "sq_expected st < k"
    "sq_queued st' = bt_insert k (f k) (sq_queued st)" "sq_expected st' = sq_expected st"
  shows "holds_back f e n (insert k A) st'"
  using assms by (auto simp: holds_back_def bt_sorted_insert)

lemma bt_get_empty: "(\<And>k. bt_get m k = None) \<Longrightarrow> m = []"
  by (cases m) (auto, metis option.distinct(1))

definition sample_message :: "nat \<Rightarrow> fix_message" where
  "sample_message k = \<lparr>fm_begin = ''FIX.4.2'', fm_fields = [(35, ''D''), (34, show_nat k)], fm_raw = []\<rparr>"

end
