(* ===== verification/Session_Messages.thy ===== *)
theory Session_Messages
  imports Codec Sequence Wire_Ids Queue
begin

text \<open>
  The message level of the session layer (\<open>src/fix/session.rs\<close>): validation of headers, Logon messages and
  resend ranges, the rejects, and the writer, which owns the outbound sequence number and frames what the
  mailbox holds. The date parser of \<open>chrono\<close> is the argument \<open>parse_time value format\<close>, which gives a
  comparable time; the wording of an error, which only travels as the text of a message, is an argument too.
\<close>

section \<open>Validation\<close>

definition parse_required_text :: "fix_message \<Rightarrow> nat \<Rightarrow> session_error + string" where
  "parse_required_text msg tag =
     (case fm_get msg tag of
        None \<Rightarrow> Inl (MissingField tag)
      | Some value \<Rightarrow> if value = [] then Inl (EmptyField tag) else Inr value)"

type_synonym time_parser = "string \<Rightarrow> string \<Rightarrow> nat option"

definition parse_fix_timestamp :: "time_parser \<Rightarrow> string \<Rightarrow> nat \<Rightarrow> session_error + nat" where
  "parse_fix_timestamp parse_time value tag =
     (if length value = 17 then ok_or (parse_time value ''%Y%m%d-%H:%M:%S'') (BadTimestamp tag)
      else if length value = 21 then ok_or (parse_time value ''%Y%m%d-%H:%M:%S%.3f'') (BadTimestamp tag)
      else Inl (BadTimestampLength tag))"

definition validate_timestamp_fields :: "time_parser \<Rightarrow> fix_message \<Rightarrow> session_error + unit" where
  "validate_timestamp_fields parse_time msg =
     and_then (parse_required_text msg 52) (\<lambda>v.
     and_then (parse_fix_timestamp parse_time v 52) (\<lambda>sending_time.
       case fm_get msg 43 of
         None \<Rightarrow> Inr ()
       | Some flag \<Rightarrow>
           if flag = ''N'' then Inr ()
           else if flag = ''Y'' then
             and_then (parse_required_text msg 122) (\<lambda>w.
             and_then (parse_fix_timestamp parse_time w 122) (\<lambda>original.
               if sending_time < original then Inl OrigAfterSending else Inr ()))
           else Inl (BadPossDup flag)))"

definition validate_unique_header_tag :: "fix_message \<Rightarrow> nat \<Rightarrow> session_error + string" where
  "validate_unique_header_tag msg tag =
     (case map snd (filter (\<lambda>f. fst f = tag) (fm_fields msg)) of
        [] \<Rightarrow> Inl (MissingField tag)
      | [value] \<Rightarrow> if value = [] then Inl (EmptyField tag) else Inr value
      | _ \<Rightarrow> Inl (DuplicateHeader tag))"

definition validate_header :: "time_parser \<Rightarrow> fix_message \<Rightarrow> string \<Rightarrow> string \<Rightarrow> string \<Rightarrow> session_error + nat" where
  "validate_header parse_time msg begin_string expected_sender expected_target =
     (if fm_begin msg \<noteq> begin_string then Inl (UnsupportedBeginString (fm_begin msg))
      else
        and_then (validate_unique_header_tag msg 35) (\<lambda>_.
        and_then (validate_unique_header_tag msg 49) (\<lambda>sender.
        and_then (validate_unique_header_tag msg 56) (\<lambda>target.
          if sender \<noteq> expected_sender \<or> target \<noteq> expected_target then Inl (CompIdMismatch sender target)
          else
            and_then (validate_unique_header_tag msg 34) (\<lambda>_.
            and_then (validate_unique_header_tag msg 52) (\<lambda>_.
            and_then (validate_timestamp_fields parse_time msg) (\<lambda>_.
              parse_required_seq msg)))))))"

datatype admission = Dynamic | Declared "string list"

record acceptor_config =
  cfg_port :: nat
  cfg_sender :: string
  cfg_begin :: string
  cfg_admission :: admission

definition client_admitted :: "admission \<Rightarrow> string \<Rightarrow> bool" where
  "client_admitted adm client = (case adm of Dynamic \<Rightarrow> True | Declared targets \<Rightarrow> client \<in> set targets)"

definition validate_logon ::
  "time_parser \<Rightarrow> fix_message \<Rightarrow> acceptor_config \<Rightarrow> session_error + (string \<times> nat \<times> nat)" where
  "validate_logon parse_time msg cfg =
     (if fm_begin msg \<noteq> cfg_begin cfg then Inl (UnsupportedBeginString (fm_begin msg))
      else if fm_msg_type msg \<noteq> Some ''A'' then Inl NotALogon
      else
        and_then (validate_unique_header_tag msg 49) (\<lambda>sender.
        and_then (validate_unique_header_tag msg 56) (\<lambda>target.
          if target \<noteq> cfg_sender cfg then Inl (UnknownTarget target)
          else
            and_then (validate_unique_header_tag msg 34) (\<lambda>_.
            and_then (validate_unique_header_tag msg 52) (\<lambda>_.
            and_then (validate_timestamp_fields parse_time msg) (\<lambda>_.
            and_then (parse_required_text msg 98) (\<lambda>method.
              if method \<noteq> ''0'' then Inl BadEncryptMethod
              else
                and_then (parse_required_u64 msg 108) (\<lambda>heart.
                  if u32_max < heart then Inl HeartBtIntTooLarge
                  else and_then (parse_required_seq msg) (\<lambda>seq. Inr (sender, heart, seq)))))))))) "

definition parse_resend_range :: "fix_message \<Rightarrow> session_error + (nat \<times> nat)" where
  "parse_resend_range msg =
     and_then (parse_required_u64 msg 7) (\<lambda>begin_seq.
     and_then (ok_or (fm_get msg 16) (MissingField 16)) (\<lambda>v.
     and_then (ok_or (parse_u64 v) BadEndSeqNo) (\<lambda>end_seq.
       if end_seq \<noteq> 0 \<and> end_seq < begin_seq then Inl (EndBelowBegin end_seq begin_seq)
       else Inr (begin_seq, end_seq))))"

definition valid_component_id :: "string \<Rightarrow> bool" where
  "valid_component_id value \<longleftrightarrow>
     value \<noteq> [] \<and> length value \<le> 64 \<and> list_all is_ascii_char value \<and>
     list_all (\<lambda>c. is_ascii_graphic c \<and> c \<noteq> CHR ''='') value"

datatype acceptor_config_error = OnlySupportedBegin | ZeroPort | InvalidSender | InvalidTargets

definition validate_acceptor_config :: "acceptor_config \<Rightarrow> acceptor_config_error + unit" where
  "validate_acceptor_config cfg =
     (if cfg_begin cfg \<noteq> ''FIX.4.2'' then Inl OnlySupportedBegin
      else if cfg_port cfg = 0 then Inl ZeroPort
      else if \<not> valid_component_id (cfg_sender cfg) then Inl InvalidSender
      else case cfg_admission cfg of
        Dynamic \<Rightarrow> Inr ()
      | Declared targets \<Rightarrow>
          if targets = [] \<or> list_ex (\<lambda>t. \<not> valid_component_id t) targets then Inl InvalidTargets else Inr ())"

record initiator_config =
  ini_sender :: string
  ini_target :: string
  ini_host :: string
  ini_port :: nat
  ini_heart :: nat

datatype initiator_config_error = InvalidComponentIds | MissingHostOrPort | ZeroHeartbeat

definition validate_initiator_config :: "initiator_config \<Rightarrow> initiator_config_error + unit" where
  "validate_initiator_config cfg =
     (if \<not> valid_component_id (ini_sender cfg) \<or> \<not> valid_component_id (ini_target cfg) then Inl InvalidComponentIds
      else if ini_host cfg = [] \<or> ini_port cfg = 0 then Inl MissingHostOrPort
      else if ini_heart cfg = 0 then Inl ZeroHeartbeat
      else Inr ())"

section \<open>Outgoing messages\<close>

datatype out_msg =
    OutReport report
  | OutMessage string fields
  | OutGapFill nat nat
  | LogoutAndShutdown fields
  | OutShutdown

type_synonym mailbox = "out_msg channel"

definition post :: "mailbox \<Rightarrow> out_msg \<Rightarrow> mailbox" where
  "post tx m = snd (send_q tx m)"

text \<open>\<open>FixReportSink::try_send\<close>\<close>

definition sink_try_send :: "mailbox \<Rightarrow> report \<Rightarrow> (report try_send_error + unit) \<times> mailbox" where
  "sink_try_send tx r =
     (case send_q tx (OutReport r) of
        (Inr u, tx) \<Rightarrow> (Inr u, tx)
      | (Inl (Full _), tx) \<Rightarrow> (Inl (Full r), tx)
      | (Inl (Disconnected _), tx) \<Rightarrow> (Inl (Disconnected r), tx))"

definition send_session_reject :: "mailbox \<Rightarrow> nat option \<Rightarrow> string option \<Rightarrow> nat \<Rightarrow> string \<Rightarrow> mailbox" where
  "send_session_reject tx seq rejected_type reason text =
     post tx (OutMessage ''3''
       ((case seq of None \<Rightarrow> [] | Some n \<Rightarrow> [(45, show_nat n)]) @
        (case rejected_type of None \<Rightarrow> [] | Some t \<Rightarrow> [(372, t)]) @ [(373, show_nat reason), (58, text)]))"

definition send_message_reject :: "mailbox \<Rightarrow> nat option \<Rightarrow> string \<Rightarrow> string \<Rightarrow> mailbox" where
  "send_message_reject tx seq rejected_type text = send_session_reject tx seq (Some rejected_type) 11 text"

definition send_session_logout :: "mailbox \<Rightarrow> string \<Rightarrow> mailbox" where
  "send_session_logout tx text = post tx (OutMessage ''5'' [(58, text)])"

definition send_business_reject :: "mailbox \<Rightarrow> nat option \<Rightarrow> string \<Rightarrow> nat \<Rightarrow> string \<Rightarrow> mailbox" where
  "send_business_reject tx seq rejected_type reason text =
     post tx (OutMessage ''j''
       ((case seq of None \<Rightarrow> [] | Some n \<Rightarrow> [(45, show_nat n)]) @
        [(372, rejected_type), (380, show_nat reason), (58, text)]))"

definition cancel_reject_fields :: "string \<Rightarrow> string \<Rightarrow> string \<Rightarrow> order option \<Rightarrow> string \<Rightarrow> fields" where
  "cancel_reject_fields cl_ord_id orig_cl_ord_id response_to ord reason =
     [(37, case ord of None \<Rightarrow> ''NONE'' | Some r \<Rightarrow> o_exchange_id r), (11, cl_ord_id), (41, orig_cl_ord_id), (434, response_to),
      (102, if ord \<noteq> None then ''0'' else ''1''),
      (39, case ord of None \<Rightarrow> ''8'' | Some r \<Rightarrow> ord_status_to_fix (o_state r)), (58, reason)]"

definition send_cancel_reject :: "mailbox \<Rightarrow> string \<Rightarrow> string \<Rightarrow> string \<Rightarrow> order option \<Rightarrow> string \<Rightarrow> mailbox" where
  "send_cancel_reject tx cl_ord_id orig_cl_ord_id response_to ord reason =
     post tx (OutMessage ''9'' (cancel_reject_fields cl_ord_id orig_cl_ord_id response_to ord reason))"

definition rejected_execution_fields ::
  "decimal_ops \<Rightarrow> string \<Rightarrow> nat \<Rightarrow> string \<Rightarrow> string option \<Rightarrow> string \<Rightarrow> side \<Rightarrow> order_type \<Rightarrow> rat \<Rightarrow> string \<Rightarrow> fields" where
  "rejected_execution_fields D time reject_id cl_ord_id orig symbol sd ty quantity reason =
     [(37, ''0''), (17, ''REJ-'' @ show_nat reject_id), (20, ''0''), (150, ''8''), (39, ''8''), (54, side_to_fix sd),
      (38, fix_decimal D quantity), (40, if ty = Market then ''1'' else ''2''), (151, ''0''), (14, ''0''), (44, ''0''),
      (11, cl_ord_id), (55, symbol), (58, reason), (60, time)] @
     (case orig of None \<Rightarrow> [] | Some v \<Rightarrow> [(41, v)])"

section \<open>The writer\<close>

definition gap_fill_header :: "nat \<Rightarrow> string \<Rightarrow> string \<Rightarrow> string \<Rightarrow> string \<Rightarrow> fields" where
  "gap_fill_header seq msg_type sender target timestamp =
     [(35, msg_type), (34, show_nat seq), (49, sender), (56, target), (43, ''Y''), (52, timestamp), (122, timestamp)]"

definition frame_gap_fill :: "string \<Rightarrow> string \<Rightarrow> string \<Rightarrow> nat \<Rightarrow> string \<Rightarrow> string \<Rightarrow> fields \<Rightarrow> string" where
  "frame_gap_fill timestamp begin_string msg_type seq sender target fs =
     (let body = concat (map field_text (gap_fill_header seq msg_type sender target timestamp @ fs));
          message = field_text (8, begin_string) @ field_text (9, show_nat (length body)) @ body;
          checksum = (sum_list (map of_char message) mod 4294967296) mod 256
      in message @ field_text (10, show_pad3 checksum))"

record writer_state =
  ws_begin :: string
  ws_sender :: string
  ws_target :: string
  ws_seq :: nat

definition report_wire_id :: "report \<Rightarrow> wire_id_map \<Rightarrow> string option" where
  "report_wire_id r ids = wire_for ids (report_cl_ord_id r)"

text \<open>The fields of a report with the client's own identifiers in tags 41 and 11.\<close>

definition translate_orig :: "wire_id_map \<Rightarrow> nat \<times> string \<Rightarrow> nat \<times> string" where
  "translate_orig ids f =
     (if fst f = 41 then
        (case parse_i32 (snd f) of
           None \<Rightarrow> f
         | Some i \<Rightarrow> (case wire_for ids i of None \<Rightarrow> f | Some wire \<Rightarrow> (41, wire)))
      else f)"

fun set_first :: "nat \<Rightarrow> string \<Rightarrow> fields \<Rightarrow> fields" where
  "set_first tag value [] = []"
| "set_first tag value (f # fs) = (if fst f = tag then (tag, value) # fs else f # set_first tag value fs)"

definition report_fields :: "decimal_ops \<Rightarrow> string \<Rightarrow> wire_id_map option \<Rightarrow> report \<Rightarrow> fields" where
  "report_fields D time wire_ids r =
     (let fs = build_execution_report D time r
      in case wire_ids of
           None \<Rightarrow> fs
         | Some ids \<Rightarrow>
             let fs = map (translate_orig ids) fs
             in case report_wire_id r ids of None \<Rightarrow> fs | Some wire \<Rightarrow> set_first 11 wire fs)"

datatype writing = Skip | Write string | WriteAndClose string | Close

definition writer_frame :: "writer_state \<Rightarrow> string \<Rightarrow> string \<Rightarrow> fields \<Rightarrow> string" where
  "writer_frame ws time msg_type fs = frame time (ws_begin ws) msg_type (ws_seq ws) (ws_sender ws) (ws_target ws) fs"

text \<open>One message of the mailbox; the map of identifiers is read when the message is written.\<close>

definition write_one :: "decimal_ops \<Rightarrow> string \<Rightarrow> wire_id_map option \<Rightarrow> writer_state \<Rightarrow> out_msg \<Rightarrow> writing \<times> writer_state" where
  "write_one D time wire_ids ws m =
     (case m of
        OutShutdown \<Rightarrow> (Close, ws)
      | OutGapFill begin_seq end_seq \<Rightarrow>
          let begin_seq = max begin_seq 1;
              effective_end = (if end_seq = 0 then ws_seq ws else min end_seq (ws_seq ws))
          in if effective_end < begin_seq then (Skip, ws)
             else
               let new_seq = saturating_inc_u64 effective_end;
                   ws = ws\<lparr>ws_seq := max (ws_seq ws) effective_end\<rparr>
               in (Write (frame_gap_fill time (ws_begin ws) ''4'' begin_seq (ws_sender ws) (ws_target ws)
                     [(36, show_nat new_seq), (123, ''Y'')]), ws)
      | OutMessage msg_type fs \<Rightarrow>
          let ws = ws\<lparr>ws_seq := saturating_inc_u64 (ws_seq ws)\<rparr>
          in (Write (writer_frame ws time msg_type fs), ws)
      | LogoutAndShutdown fs \<Rightarrow>
          let ws = ws\<lparr>ws_seq := saturating_inc_u64 (ws_seq ws)\<rparr>
          in (WriteAndClose (writer_frame ws time ''5'' fs), ws)
      | OutReport r \<Rightarrow>
          let ws = ws\<lparr>ws_seq := saturating_inc_u64 (ws_seq ws)\<rparr>
          in (Write (writer_frame ws time ''8'' (report_fields D time wire_ids r)), ws))"

text \<open>
  What the writer finds when it looks: a failed connection, a message, an idle period without one, or a
  mailbox all of whose senders are gone. With each, the clock, the map of identifiers, and whether the
  socket takes the bytes.
\<close>

datatype mail = Mail out_msg | Idle | Gone

record poll =
  po_failed :: bool
  po_mail :: mail
  po_time :: string
  po_ids :: "wire_id_map option"
  po_written :: bool

fun writer_loop :: "decimal_ops \<Rightarrow> writer_state \<Rightarrow> poll list \<Rightarrow> string list \<times> writer_state" where
  "writer_loop D ws [] = ([], ws)"
| "writer_loop D ws (p # ps) =
     (if po_failed p then ([], ws)
      else case (case po_mail p of Mail m \<Rightarrow> Some m | Idle \<Rightarrow> Some (OutMessage ''0'' []) | Gone \<Rightarrow> None) of
        None \<Rightarrow> ([], ws)
      | Some m \<Rightarrow>
          (case write_one D (po_time p) (po_ids p) ws m of
             (Close, ws) \<Rightarrow> ([], ws)
           | (Skip, ws) \<Rightarrow> writer_loop D ws ps
           | (WriteAndClose bytes, ws) \<Rightarrow> (if po_written p then [bytes] else [], ws)
           | (Write bytes, ws) \<Rightarrow>
               if po_written p then (let (out, ws) = writer_loop D ws ps in (bytes # out, ws)) else ([], ws)))"

end
