(* ===== verification/Reader.thy ===== *)
theory Reader
  imports Session_Messages
begin

text \<open>
  What the two reader loops of \<open>src/fix/session.rs\<close> have in common: a message whose header was accepted is
  classified by its number; a ready one is decoded; one that does not decode is counted and rejected, any
  other advances the state. \<open>judge\<close> is that part of a turn; what each side does with the verdict is in its
  own theory. It is \<^const>\<open>None\<close> where the decoder panics.
\<close>

datatype verdict =
    Broken session_error
  | Repeated
  | Held_Back "nat option"
  | Undecodable fix_message codec_error
  | Accepted fix_message inbound

definition count_undecodable :: "sequence_state \<Rightarrow> sequence_state" where
  "count_undecodable st = st\<lparr>sq_expected := wrap_u64 (sq_expected st + 1)\<rparr>"

definition judge :: "decimal_ops \<Rightarrow> time_parser \<Rightarrow> sequence_state \<Rightarrow> fix_message \<Rightarrow> (verdict \<times> sequence_state) option" where
  "judge D parse_time st msg =
     (case classify st msg of
        (Inl err, st) \<Rightarrow> Some (Broken err, st)
      | (Inr Duplicate, st) \<Rightarrow> Some (Repeated, st)
      | (Inr (Gap request_from), st) \<Rightarrow> Some (Held_Back request_from, st)
      | (Inr (Ready m), st) \<Rightarrow>
          (case decode D (\<lambda>v f. parse_time v f \<noteq> None) m of
             None \<Rightarrow> None
           | Some (Inl err) \<Rightarrow> Some (Undecodable m err, count_undecodable st)
           | Some (Inr inb) \<Rightarrow>
               (case advance st m of
                  Inl err \<Rightarrow> Some (Broken err, st)
                | Inr st \<Rightarrow> Some (Accepted m inb, st))))"

section \<open>What a verdict means for the numbers\<close>

text \<open>
  A message is used up when it is accepted or rejected as undecodable. One that is not a reset is then the
  expected one, and the expected number moves up by one; a reset moves it up.
\<close>

fun used_up :: "verdict \<Rightarrow> fix_message option" where
  "used_up (Undecodable m _) = Some m"
| "used_up (Accepted m _) = Some m"
| "used_up _ = None"

lemma judge_cases:
  assumes "judge D pt st m = Some (v, st')" "sq_expected st < u64_max"
  obtains (kept) "used_up v = None" "sq_expected st' = sq_expected st"
  | (reset) "used_up v = Some m" "is_reset m" "sq_expected st < sq_expected st'"
  | (next_message) "used_up v = Some m" "\<not> is_reset m" "seqno m = sq_expected st" "sq_expected st' = Suc (sq_expected st)"
proof -
  obtain x st1 where c: "classify st m = (x, st1)" by fastforce
  have err: "sq_expected st1 = sq_expected st" if "x = Inl e" for e
    using c that by (auto simp: classify_def classify_seq_def Let_def split: sum.splits if_splits option.splits)
  show thesis
  proof (cases "\<exists>m'. x = Inr (Ready m')")
    case False
    then have "used_up v = None" "st' = st1"
      using assms(1) c by (auto simp: judge_def split: sum.splits sequence_action.splits)
    moreover have "sq_expected st1 = sq_expected st" using err c classify_cases by (cases x) auto
    ultimately show thesis using kept by simp
  next
    case True
    then obtain m' where "x = Inr (Ready m')" by blast
    then have r: "x = Inr (Ready m)" and e1: "sq_expected st1 = sq_expected st" and
      n: "is_reset m \<or> seqno m = sq_expected st"
      using c classify_cases [of st m "Ready m'" st1] by auto
    have w: "wrap_u64 (sq_expected st + 1) = Suc (sq_expected st)"
      "saturating_inc_u64 (sq_expected st) = Suc (sq_expected st)"
      using assms(2) by (simp_all add: wrap_u64_def saturating_inc_u64_def)
    consider (bad) err where "v = Undecodable m err" "st' = count_undecodable st1" | (broken) err where "v = Broken err" "st' = st1"
      | (good) inb where "v = Accepted m inb" "advance st1 m = Inr st'"
      using assms(1) c r by (auto simp: judge_def split: option.splits sum.splits)
    then show thesis
    proof cases
      case bad
      then show thesis using n e1 w reset next_message by (cases "is_reset m") (simp_all add: count_undecodable_def)
    next
      case broken
      then show thesis using e1 kept by simp
    next
      case good
      then show thesis using advance_cases [OF good(2)] e1 w reset next_message by auto
    qed
  qed
qed

text \<open>A message with the expected number that decodes is accepted; one with a higher number is held back.\<close>

lemma judge_expected:
  assumes "parse_required_seq m = Inr (sq_expected st)" "\<not> is_reset m" "decode D (\<lambda>v f. pt v f \<noteq> None) m = Some (Inr inb)"
  shows "judge D pt st m = Some (Accepted m inb, clear_resend (st\<lparr>sq_expected := saturating_inc_u64 (sq_expected st)\<rparr>))"
  using assms by (simp add: judge_def classify_def classify_seq_def advance_def)

lemma judge_ahead:
  assumes "parse_required_seq m = Inr k" "\<not> is_reset m" "sq_expected st < k" "length (sq_queued st) < MAX_QUEUED_MESSAGES"
    "bt_get (sq_queued st) k = None"
  obtains n st' where "judge D pt st m = Some (Held_Back n, st')" "sq_expected st' = sq_expected st"
    "sq_queued st' = bt_insert k m (sq_queued st)"
  using assms by (cases "sq_resend_from st") (auto simp: judge_def classify_def classify_seq_def)

end
