(* ===== verification/Writer_Properties.thy ===== *)
theory Writer_Properties
  imports Reader Codec_Properties
begin

text \<open>
  The outbound half of a session: the writer numbers what it sends consecutively, the peer of a gap fill
  continues where the writer does, and a report reaches the client under the client's own identifiers.
\<close>

section \<open>Numbers\<close>

text \<open>The type and body of a message the writer numbers.\<close>

definition mail_parts :: "decimal_ops \<Rightarrow> poll \<Rightarrow> (string \<times> fields) option" where
  "mail_parts D p =
     (case po_mail p of
        Idle \<Rightarrow> Some (''0'', [])
      | Mail (OutMessage kind fs) \<Rightarrow> Some (kind, fs)
      | Mail (LogoutAndShutdown fs) \<Rightarrow> Some (''5'', fs)
      | Mail (OutReport r) \<Rightarrow> Some (''8'', report_fields D (po_time p) (po_ids p) r)
      | _ \<Rightarrow> None)"

text \<open>What a poll puts on the wire when \<open>n\<close> is the last number used: a frame with the next number, or a gap fill.\<close>

definition poll_bytes :: "decimal_ops \<Rightarrow> writer_state \<Rightarrow> nat \<times> poll \<Rightarrow> string option" where
  "poll_bytes D ws np =
     (case np of (n, p) \<Rightarrow>
        (case mail_parts D p of
           Some (kind, fs) \<Rightarrow> Some (frame (po_time p) (ws_begin ws) kind (Suc n) (ws_sender ws) (ws_target ws) fs)
         | None \<Rightarrow>
             (case po_mail p of
                Mail (OutGapFill lo hi) \<Rightarrow>
                  let from_seq = max lo 1; upto = (if hi = 0 then n else min hi n)
                  in if upto < from_seq then None
                     else Some (frame_gap_fill (po_time p) (ws_begin ws) ''4'' from_seq (ws_sender ws) (ws_target ws)
                       [(36, show_nat (Suc upto)), (123, ''Y'')])
              | _ \<Rightarrow> None)))"

text \<open>Every poll with the last number used before it; only the messages the writer numbers use one up.\<close>

fun stamped :: "decimal_ops \<Rightarrow> nat \<Rightarrow> poll list \<Rightarrow> (nat \<times> poll) list" where
  "stamped D n [] = []"
| "stamped D n (p # ps) = (n, p) # stamped D (if mail_parts D p = None then n else Suc n) ps"

definition is_logout :: "poll \<Rightarrow> bool" where
  "is_logout p \<longleftrightarrow> (\<exists>fs. po_mail p = Mail (LogoutAndShutdown fs))"

definition ends_writer :: "poll \<Rightarrow> bool" where
  "ends_writer p \<longleftrightarrow> po_failed p \<or> po_mail p = Gone \<or> po_mail p = Mail OutShutdown"

lemma poll_bytes_seq [simp]: "poll_bytes D (ws\<lparr>ws_seq := n\<rparr>) = poll_bytes D ws"
  by (rule ext) (auto simp: poll_bytes_def Let_def split: prod.split option.split mail.split out_msg.split)

lemma writer_poll:
  assumes "ws_seq ws < u64_max"
  shows "writer_loop D ws (p # ps) =
    (if ends_writer p then ([], ws)
     else let ws1 = ws\<lparr>ws_seq := (if mail_parts D p = None then ws_seq ws else Suc (ws_seq ws))\<rparr>
          in case poll_bytes D ws (ws_seq ws, p) of
               None \<Rightarrow> writer_loop D ws1 ps
             | Some bytes \<Rightarrow>
                 if \<not> po_written p then ([], ws1)
                 else if is_logout p then ([bytes], ws1)
                 else (bytes # fst (writer_loop D ws1 ps), snd (writer_loop D ws1 ps)))"
proof (cases "po_mail p")
  case (Mail m)
  then show ?thesis
    using assms
    by (cases m)
      (auto simp: ends_writer_def mail_parts_def poll_bytes_def is_logout_def write_one_def writer_frame_def saturating_inc_u64_def
        Let_def min_def max_def split: prod.splits)
qed (use assms in \<open>auto simp: ends_writer_def mail_parts_def poll_bytes_def is_logout_def write_one_def writer_frame_def
       saturating_inc_u64_def Let_def split: prod.splits\<close>)

lemma map_filter_stamped [simp]:
  "List.map_filter f (x # xs) = (case f x of None \<Rightarrow> List.map_filter f xs | Some y \<Rightarrow> y # List.map_filter f xs)"
  "List.map_filter f [] = []"
  by (simp_all add: List.map_filter_def split: option.split)

text \<open>
  C27. The writer numbers its messages consecutively, whatever its mailbox holds and whatever happens to the connection:
  it handles an initial part of the polls, and what it puts on the wire is, in their order, one frame for each message, report,
  final Logout or idle period, with the numbers directly after the writer's current one and no number left out
  or used twice, and one gap fill, which uses up no number, for each resend request that asks for a message sent before.
  It stops before the end only at a failed connection, an empty mailbox without senders, the message to stop, a write that fails,
  or after its final Logout.
\<close>

theorem writer_numbers_consecutively:
  assumes "ws_seq ws + length ps \<le> u64_max"
  shows "\<exists>handled rest. ps = handled @ rest \<and>
    fst (writer_loop D ws ps) = List.map_filter (poll_bytes D ws) (stamped D (ws_seq ws) handled) \<and>
    (\<forall>p \<in> set handled. \<not> ends_writer p) \<and> (\<forall>p \<in> set (butlast handled). \<not> is_logout p) \<and>
    (case rest of
       [] \<Rightarrow> snd (writer_loop D ws ps) = ws\<lparr>ws_seq := ws_seq ws + length (filter (\<lambda>p. mail_parts D p \<noteq> None) handled)\<rparr>
     | p # _ \<Rightarrow> ends_writer p \<or> \<not> po_written p \<or> handled \<noteq> [] \<and> is_logout (last handled))"
  using assms
proof (induction ps arbitrary: ws)
  case Nil
  then show ?case by (intro exI [of _ "[]"]) simp
next
  case (Cons p ps)
  let ?n = "if mail_parts D p = None then ws_seq ws else Suc (ws_seq ws)"
  let ?ws = "ws\<lparr>ws_seq := ?n\<rparr>"
  have "ws_seq ws < u64_max" using Cons.prems by simp
  note w = writer_poll [OF this, of D p ps]
  show ?case
  proof (cases "ends_writer p \<or> poll_bytes D ws (ws_seq ws, p) \<noteq> None \<and> \<not> po_written p")
    case True
    then show ?thesis using w by (intro exI [of _ "[]"] exI [of _ "p # ps"]) (auto simp: Let_def)
  next
    case False
    show ?thesis
    proof (cases "is_logout p")
      case True
      then have "mail_parts D p \<noteq> None" by (auto simp: is_logout_def mail_parts_def)
      moreover from this obtain bytes where "poll_bytes D ws (ws_seq ws, p) = Some bytes" by (auto simp: poll_bytes_def)
      ultimately show ?thesis
        using w True False by (intro exI [of _ "[p]"] exI [of _ ps]) (auto simp: Let_def split: list.split)
    next
      case no_logout: False
      have "ws_seq ?ws + length ps \<le> u64_max" using Cons.prems by simp
      from Cons.IH [OF this] obtain handled rest where ih: "ps = handled @ rest"
        "fst (writer_loop D ?ws ps) = List.map_filter (poll_bytes D ?ws) (stamped D (ws_seq ?ws) handled)"
        "\<forall>p \<in> set handled. \<not> ends_writer p" "\<forall>p \<in> set (butlast handled). \<not> is_logout p"
        "case rest of
           [] \<Rightarrow> snd (writer_loop D ?ws ps) = ?ws\<lparr>ws_seq := ws_seq ?ws + length (filter (\<lambda>p. mail_parts D p \<noteq> None) handled)\<rparr>
         | p # _ \<Rightarrow> ends_writer p \<or> \<not> po_written p \<or> handled \<noteq> [] \<and> is_logout (last handled)"
        by blast
      have loop: "writer_loop D ws (p # ps) =
          (List.map_filter (poll_bytes D ws) [(ws_seq ws, p)] @ fst (writer_loop D ?ws ps), snd (writer_loop D ?ws ps))"
        unfolding w using False no_logout by (auto simp: Let_def split: option.split)
      show ?thesis
      proof (rule exI [of _ "p # handled"], rule exI [of _ rest], intro conjI)
        show "p # ps = (p # handled) @ rest" using ih(1) by simp
        show "fst (writer_loop D ws (p # ps)) = List.map_filter (poll_bytes D ws) (stamped D (ws_seq ws) (p # handled))"
          unfolding loop using ih(2) by (simp split: option.split)
        show "\<forall>q \<in> set (p # handled). \<not> ends_writer q" using ih(3) False by simp
        show "\<forall>q \<in> set (butlast (p # handled)). \<not> is_logout q" using ih(4) no_logout by simp
        show "case rest of
           [] \<Rightarrow> snd (writer_loop D ws (p # ps)) =
             ws\<lparr>ws_seq := ws_seq ws + length (filter (\<lambda>p. mail_parts D p \<noteq> None) (p # handled))\<rparr>
         | q # _ \<Rightarrow> ends_writer q \<or> \<not> po_written q \<or> p # handled \<noteq> [] \<and> is_logout (last (p # handled))"
          unfolding loop using ih(5) by (cases rest) auto
      qed
    qed
  qed
qed

definition sample_writer :: writer_state where
  "sample_writer = \<lparr>ws_begin = ''FIX.4.2'', ws_sender = ''EX'', ws_target = ''C1'', ws_seq = 3\<rparr>"

definition sample_poll :: "mail \<Rightarrow> poll" where
  "sample_poll m = \<lparr>po_failed = False, po_mail = m, po_time = sample_time, po_ids = None, po_written = True\<rparr>"

lemma poll_split:
  "(q # qs = handled @ rest) = (handled = [] \<and> rest = q # qs \<or> (\<exists>hs. handled = q # hs \<and> qs = hs @ rest))"
  by (auto simp: Cons_eq_append_conv)

theorem writer_numbers_consecutively_witness:
  "fst (writer_loop sample_codec sample_writer
      [sample_poll Idle, sample_poll (Mail (OutGapFill 2 0)), sample_poll (Mail (LogoutAndShutdown [])), sample_poll Idle]) =
    [frame sample_time ''FIX.4.2'' ''0'' 4 ''EX'' ''C1'' [],
     frame_gap_fill sample_time ''FIX.4.2'' ''4'' 2 ''EX'' ''C1'' [(36, show_nat 5), (123, ''Y'')],
     frame sample_time ''FIX.4.2'' ''5'' 5 ''EX'' ''C1'' []]"
proof -
  have s: "ends_writer (sample_poll m) \<longleftrightarrow> m = Gone \<or> m = Mail OutShutdown" "po_written (sample_poll m)"
    "is_logout (sample_poll m) \<longleftrightarrow> (\<exists>fs. m = Mail (LogoutAndShutdown fs))" for m
    by (simp_all add: ends_writer_def is_logout_def sample_poll_def)
  have "ws_seq sample_writer + length [sample_poll Idle, sample_poll (Mail (OutGapFill 2 0)), sample_poll (Mail (LogoutAndShutdown [])),
      sample_poll Idle] \<le> u64_max"
    by (simp add: sample_writer_def)
  from writer_numbers_consecutively [OF this, of sample_codec] obtain handled rest where
    h: "[sample_poll Idle, sample_poll (Mail (OutGapFill 2 0)), sample_poll (Mail (LogoutAndShutdown [])), sample_poll Idle] = handled @ rest"
    "fst (writer_loop sample_codec sample_writer [sample_poll Idle, sample_poll (Mail (OutGapFill 2 0)),
        sample_poll (Mail (LogoutAndShutdown [])), sample_poll Idle]) =
      List.map_filter (poll_bytes sample_codec sample_writer) (stamped sample_codec (ws_seq sample_writer) handled)"
    "\<forall>p \<in> set (butlast handled). \<not> is_logout p"
    "case rest of [] \<Rightarrow> True | p # _ \<Rightarrow> ends_writer p \<or> \<not> po_written p \<or> handled \<noteq> [] \<and> is_logout (last handled)"
    by (elim exE conjE) (rule that, assumption+, auto split: list.splits)
  have "handled = [sample_poll Idle, sample_poll (Mail (OutGapFill 2 0)), sample_poll (Mail (LogoutAndShutdown []))]"
    using h(1,3,4) s by (auto simp: poll_split)
  then show ?thesis
    unfolding h(2) by (simp add: poll_bytes_def mail_parts_def sample_poll_def sample_writer_def Let_def numeral_2_eq_2)
qed

section \<open>Gap fills\<close>

definition gap_fill_message :: "string \<Rightarrow> string \<Rightarrow> string \<Rightarrow> string \<Rightarrow> string \<Rightarrow> nat \<Rightarrow> nat \<Rightarrow> fix_message" where
  "gap_fill_message raw bs time sender target begin_seq new_seq =
     \<lparr>fm_begin = bs, fm_fields = gap_fill_header begin_seq ''4'' sender target time @ [(36, show_nat new_seq), (123, ''Y'')],
      fm_raw = raw\<rparr>"

lemma gap_fill_shape:
  "frame_gap_fill ts bs mt seq sender target fs =
     (let body = concat (map field_text (gap_fill_header seq mt sender target ts @ fs))
      in frame_head bs body @ body @ frame_tail (frame_head bs body @ body))"
proof -
  have "(n :: nat) mod 4294967296 mod 256 = n mod 256" for n by (rule mod_mod_cancel) simp
  then show ?thesis by (simp add: frame_gap_fill_def frame_head_def frame_tail_def Let_def)
qed

lemma gap_fill_parses:
  assumes "plain_value bs" "plain_value time" "plain_value sender" "plain_value target"
  shows "parse_wire (frame_gap_fill time bs ''4'' begin_seq sender target [(36, show_nat new_seq), (123, ''Y'')]) =
    Inr (gap_fill_message (frame_gap_fill time bs ''4'' begin_seq sender target [(36, show_nat new_seq), (123, ''Y'')])
      bs time sender target begin_seq new_seq)"
proof -
  let ?fs = "gap_fill_header begin_seq ''4'' sender target time @ [(36, show_nat new_seq), (123, ''Y'')]"
  have "plain_value ''4''" "plain_value ''Y''" by (simp_all add: sample_plain)
  then have "list_all plain_field ?fs"
    using assms plain_show_nat by (simp add: gap_fill_header_def plain_field_def)
  moreover have "starts_with ''35='' (concat (map field_text ?fs))"
    by (simp add: gap_fill_header_def field_text_def show_8_9_10 starts_with_def)
  moreover have "\<forall>f \<in> set ?fs. fst f \<notin> {8, 9, 10}" "?fs \<noteq> []" by (auto simp: gap_fill_header_def)
  ultimately show ?thesis
    unfolding gap_fill_shape gap_fill_message_def Let_def by (intro parse_wire_shape [OF assms(1)]) simp_all
qed

lemma gap_fill_decodes:
  assumes "\<forall>v \<in> {time, sender, target}. v \<noteq> []" "0 < new_seq" "new_seq \<le> u64_max"
  shows "decode D chrono (gap_fill_message raw bs time sender target begin_seq new_seq) = Some (Inr (SequenceReset new_seq True))"
proof -
  let ?m = "gap_fill_message raw bs time sender target begin_seq new_seq"
  have "scopes_ok ''4'' (map fst (fm_fields ?m))"
    by (simp add: scopes_scalar gap_fill_message_def gap_fill_header_def HEADER_FIELDS_def body_tag_def scalar_fields_def
        validate_field_shape_def)
  moreover have "required_fields ''4'' = Some [36]" by (simp add: required_fields_def)
  ultimately have "validate_profile chrono ?m ''4'' = Inr ()"
    using assms(1)
    by (subst validate_profile_Inr [of _ "[36]"])
      (simp_all add: validate_field_scopes_Inr gap_fill_message_def gap_fill_header_def)
  moreover have "decode_kind D ?m ''4'' = Some (Inr (SequenceReset new_seq True))"
    using assms(2,3)
    by (simp add: decode_kind_def decode_sequence_reset_def natural_def need_def boolean_def gap_fill_message_def gap_fill_header_def)
  moreover have "fm_msg_type ?m = Some ''4''" by (simp add: fm_msg_type_def gap_fill_message_def gap_fill_header_def)
  ultimately show ?thesis by (simp add: decode_def)
qed

lemma gap_fill_received:
  assumes "0 < begin_seq" "begin_seq \<le> sq_expected st" "sq_expected st < new_seq" "new_seq \<le> u64_max"
    "\<forall>v \<in> {time, sender, target}. v \<noteq> []"
  shows "judge D pt st (gap_fill_message raw bs time sender target begin_seq new_seq) =
    Some (Accepted (gap_fill_message raw bs time sender target begin_seq new_seq) (SequenceReset new_seq True),
     clear_resend (st\<lparr>sq_expected := new_seq, sq_queued := filter (\<lambda>(n, _). new_seq \<le> n) (sq_queued st)\<rparr>))"
proof -
  let ?m = "gap_fill_message raw bs time sender target begin_seq new_seq"
  have d: "decode D (\<lambda>v f. pt v f \<noteq> None) ?m = Some (Inr (SequenceReset new_seq True))"
    using assms(1-4) by (intro gap_fill_decodes [OF assms(5)]) simp_all
  have "parse_required_seq ?m = Inr begin_seq" "parse_required_u64 ?m 36 = Inr new_seq" "is_reset ?m"
    "fm_get ?m 123 = Some ''Y''" "is_duplicate ?m"
    using assms
    by (simp_all add: parse_required_seq_def parse_required_u64_def is_reset_def fm_msg_type_def is_duplicate_def
        gap_fill_message_def gap_fill_header_def)
  then show ?thesis
    using assms(2,3) d by (cases "begin_seq = sq_expected st") (auto simp: judge_def classify_def classify_seq_def advance_def)
qed

text \<open>
  C28. A resend request is always answered so that both sides agree again: for a request from any number the
  writer has used up to the present, the writer sends one gap fill without using up a number; the frame is a
  well-formed message that decodes as a gap fill; and a peer that still expects any of the requested
  numbers then expects exactly the writer's next number and no longer waits for a resend.
\<close>

theorem gap_fill_resynchronizes:
  assumes "list_all plain_value [ws_begin ws, ws_sender ws, ws_target ws, time]" "ws_seq ws < u64_max"
    "0 < begin_seq" "begin_seq \<le> sq_expected st" "sq_expected st \<le> ws_seq ws"
    "sq_resend_from st \<in> {None, Some (sq_expected st)}"
  shows "\<exists>bytes m st'. write_one D time ids ws (OutGapFill begin_seq 0) = (Write bytes, ws) \<and>
    parse_wire bytes = Inr m \<and> decode D chrono m = Some (Inr (SequenceReset (Suc (ws_seq ws)) True)) \<and>
    judge D pt st m = Some (Accepted m (SequenceReset (Suc (ws_seq ws)) True), st') \<and>
    sq_expected st' = Suc (ws_seq ws) \<and> sq_resend_from st' = None"
proof -
  let ?bytes = "frame_gap_fill time (ws_begin ws) ''4'' begin_seq (ws_sender ws) (ws_target ws)
    [(36, show_nat (Suc (ws_seq ws))), (123, ''Y'')]"
  let ?m = "gap_fill_message ?bytes (ws_begin ws) time (ws_sender ws) (ws_target ws) begin_seq (Suc (ws_seq ws))"
  have "write_one D time ids ws (OutGapFill begin_seq 0) = (Write ?bytes, ws)"
    using assms(2-5) by (simp add: write_one_def Let_def saturating_inc_u64_def)
  moreover have "parse_wire ?bytes = Inr ?m" using assms(1) by (intro gap_fill_parses) simp_all
  moreover have "decode D chrono ?m = Some (Inr (SequenceReset (Suc (ws_seq ws)) True))"
    using assms(1,2) by (intro gap_fill_decodes) (auto simp: plain_value_def)
  moreover have "\<exists>st'. judge D pt st ?m = Some (Accepted ?m (SequenceReset (Suc (ws_seq ws)) True), st') \<and>
      sq_expected st' = Suc (ws_seq ws) \<and> sq_resend_from st' = None"
    using gap_fill_received [of begin_seq st "Suc (ws_seq ws)" time "ws_sender ws" "ws_target ws"] assms
    by (auto simp: clear_resend_def plain_value_def)
  ultimately show ?thesis by blast
qed

theorem gap_fill_resynchronizes_witness:
  "\<exists>m st'. judge sample_codec (\<lambda>_ _. None) ((sequence_new 2)\<lparr>sq_resend_from := Some 2\<rparr>) m =
     Some (Accepted m (SequenceReset 4 True), st') \<and> sq_expected st' = 4"
proof -
  have "list_all plain_value [ws_begin sample_writer, ws_sender sample_writer, ws_target sample_writer, sample_time]"
    by (simp add: sample_writer_def sample_time_def sample_plain)
  then show ?thesis
    using gap_fill_resynchronizes [of sample_writer sample_time 2 "(sequence_new 2)\<lparr>sq_resend_from := Some 2\<rparr>"
        sample_codec None sample_chrono "\<lambda>_ _. None"]
    by (auto simp: sample_writer_def sequence_new_def)
qed

section \<open>Identifiers\<close>

lemma translate_orig_other: "fst f \<noteq> 41 \<Longrightarrow> translate_orig ids f = f"
  by (simp add: translate_orig_def)

lemma set_first_append: "tag \<notin> fst ` set xs \<Longrightarrow> set_first tag v (xs @ ys) = xs @ set_first tag v ys"
  by (induction xs) auto

text \<open>The identifiers a client sees: its own text for every key of the engine it has interned.\<close>

definition client_cl :: "wire_id_map \<Rightarrow> report \<Rightarrow> string option" where
  "client_cl ids r =
     (if report_cl_ord_id r = 0 then None
      else case wire_for ids (report_cl_ord_id r) of None \<Rightarrow> Some (show_int (report_cl_ord_id r)) | Some w \<Rightarrow> Some w)"

definition client_orig :: "wire_id_map \<Rightarrow> report \<Rightarrow> string option" where
  "client_orig ids r =
     (case rp_orig r of
        None \<Rightarrow> None
      | Some i \<Rightarrow> (case wire_for ids i of None \<Rightarrow> Some (show_int i) | Some w \<Rightarrow> Some w))"

lemma report_fields_translated:
  assumes "wire_ids_ok ids" "\<forall>i. rp_orig r = Some i \<longrightarrow> i32_min \<le> i \<and> i \<le> i32_max"
  shows "report_fields D time (Some ids) r = exec_fields D time r (client_cl ids r) (client_orig ids r)"
proof -
  have no0: "wire_for ids 0 = None"
    using wire_ids.positive [OF assms(1), of 0] by (cases "wire_for ids 0") auto
  have t: "map (translate_orig ids) (exec_fields D time r cl (map_option show_int (rp_orig r))) =
      exec_fields D time r cl (client_orig ids r)" for cl
    using assms(2)
    by (auto simp: exec_fields_def Let_def translate_orig_other client_orig_def translate_orig_def parse_sint_show_int
        split: option.split)
  have s: "set_first 11 w (exec_fields D time r (Some c) orig) = exec_fields D time r (Some w) orig" for w c orig
    by (simp add: exec_fields_def Let_def)
  show ?thesis
    unfolding report_fields_def Let_def option.case build_exec_fields t
    using no0 by (auto simp: report_wire_id_def client_cl_def engine_cl_def s split: option.split)
qed

text \<open>A report of the engine through the writer and the parser to the decoder, under any translation.\<close>

lemma report_delivered:
  assumes "wire_ids_ok ids" "report_ok D r" "\<forall>i. rp_orig r = Some i \<longrightarrow> i32_min \<le> i \<and> i \<le> i32_max"
    "dec_add D (o_cum (rp_order r)) (open_quantity (rp_order r)) = Some tot_q"
    "ws_seq ws < u64_max" "validate_timestamp chrono time = Inr ()"
    "sendable time (ws_begin ws) ''8'' (ws_sender ws) (ws_target ws) (report_fields D time (Some ids) r)"
  shows "\<exists>bytes ws' m. write_one D time (Some ids) ws (OutReport r) = (Write bytes, ws') \<and>
    parse_wire bytes = Inr m \<and>
    decode D chrono m = Some (Inr (ExecutionReport (report_data_for r (client_cl ids r) (client_orig ids r))))"
proof -
  let ?ws = "ws\<lparr>ws_seq := Suc (ws_seq ws)\<rparr>"
  have rf: "report_fields D time (Some ids) r = exec_fields D time r (client_cl ids r) (client_orig ids r)"
    by (rule report_fields_translated [OF assms(1,3)])
  let ?bytes = "frame time (ws_begin ws) ''8'' (Suc (ws_seq ws)) (ws_sender ws) (ws_target ws)
    (exec_fields D time r (client_cl ids r) (client_orig ids r))"
  let ?m = "report_message D time (ws_begin ws) (Suc (ws_seq ws)) (ws_sender ws) (ws_target ws) time ?bytes r
    (client_cl ids r) (client_orig ids r)"
  have s: "sendable time (ws_begin ws) ''8'' (ws_sender ws) (ws_target ws)
      (exec_fields D time r (client_cl ids r) (client_orig ids r))" using assms(7) rf by simp
  have "write_one D time (Some ids) ws (OutReport r) = (Write ?bytes, ?ws)"
    using assms(5) by (simp add: write_one_def writer_frame_def rf saturating_inc_u64_def Let_def)
  moreover have "parse_wire ?bytes = Inr ?m" by (rule frame_parses [OF s])
  moreover have "decode D chrono ?m =
      Some (Inr (ExecutionReport (report_data_for r (client_cl ids r) (client_orig ids r))))"
    using assms(2,4)
    by (subst decode_exec_fields [OF assms(2) _ assms(6) sendable_values [OF s]])
      (auto simp: report_ok_def client_orig_def split: option.splits)
  ultimately show ?thesis by blast
qed

end
