(* ===== verification/Acceptor.thy ===== *)
theory Acceptor
  imports Reader Engine_Calls
begin

text \<open>
  The exchange side of a session (\<open>src/fix/session.rs\<close>): admission of a Logon, the business handler that
  turns decoded requests into calls of the engine, and one turn of the reader loop. The reports the engine
  sends during a call go into the mailbox of their session in the order of the calls of \<open>try_send\<close>; the
  model of a connection keeps its own mailbox. A turn gets the clock, the calendar day, the number of the
  next reject and what the socket would give; it is \<^const>\<open>None\<close> where the code panics.
\<close>

section \<open>Business requests\<close>

datatype business_error =
    BadId wire_id_error | NoSymbol | NoOriginal | NoOrder | SymbolSideDiffer | EngineFailed engine_error

record wording =
  wd_session :: "session_error \<Rightarrow> string"
  wd_codec :: "codec_error \<Rightarrow> string"
  wd_business :: "business_error \<Rightarrow> string"

text \<open>The part of a connection that a business request can change.\<close>

record connection =
  cn_engine :: engine
  cn_tx :: mailbox
  cn_ids :: wire_id_map

definition engine_reports :: "string \<Rightarrow> engine \<Rightarrow> engine \<Rightarrow> report list" where
  "engine_reports session e e' = map snd (filter (\<lambda>p. fst p = session) (drop (length (en_sent e)) (en_sent e')))"

definition deliver :: "mailbox \<Rightarrow> report list \<Rightarrow> mailbox" where
  "deliver tx rs = foldl (\<lambda>tx r. snd (sink_try_send tx r)) tx rs"

text \<open>The connection after a call of the engine, whose new reports are in the mailbox.\<close>

definition after_engine :: "string \<Rightarrow> connection \<Rightarrow> engine \<Rightarrow> connection" where
  "after_engine session c e' =
     c\<lparr>cn_engine := e', cn_tx := deliver (cn_tx c) (engine_reports session (cn_engine c) e')\<rparr>"

definition propagate_engine_fault :: "mailbox \<Rightarrow> engine_error \<Rightarrow> mailbox" where
  "propagate_engine_fault tx err =
     (case err of BookInvariantViolation _ _ _ \<Rightarrow> tx\<lparr>ch_failed := True\<rparr> | _ \<Rightarrow> tx)"

definition engine_result ::
  "string \<Rightarrow> connection \<Rightarrow> (engine_error + 'a) \<times> engine \<Rightarrow> (business_error + unit) \<times> connection" where
  "engine_result session c res =
     (let c = after_engine session c (snd res)
      in case fst res of
           Inl err \<Rightarrow> (Inl (EngineFailed err), c\<lparr>cn_tx := propagate_engine_fault (cn_tx c) err\<rparr>)
         | Inr _ \<Rightarrow> (Inr (), c))"

definition new_order_request ::
  "decimal_ops \<Rightarrow> int \<Rightarrow> string \<Rightarrow> connection \<Rightarrow> string \<Rightarrow> string \<Rightarrow> side \<Rightarrow> order_type \<Rightarrow> rat \<Rightarrow> rat
     \<Rightarrow> ((business_error + unit) \<times> connection) option" where
  "new_order_request D today session c cl_ord_id symbol sd ty price quantity =
     (case fresh_id (cn_ids c) cl_ord_id of
        (Inl err, ids) \<Rightarrow> Some (Inl (BadId err), c\<lparr>cn_ids := ids\<rparr>)
      | (Inr i, ids) \<Rightarrow>
          let c = c\<lparr>cn_ids := ids\<rparr>
          in case get_by_symbol (en_instruments (cn_engine c)) symbol of
               None \<Rightarrow> Some (Inl NoSymbol, c)
             | Some inst \<Rightarrow>
                 map_option (engine_result session c)
                   (create_order D today (cn_engine c) session
                      \<lparr>no_id = i, no_instrument = in_id inst, no_side = sd, no_type = ty, no_price = price,
                       no_quantity = quantity\<rparr>))"

text \<open>What a cancel and a cancel/replace request check before they call the engine: the request's key and the original's.\<close>

definition original_order ::
  "string \<Rightarrow> connection \<Rightarrow> string \<Rightarrow> string \<Rightarrow> string \<Rightarrow> side \<Rightarrow> (business_error + order_id \<times> order_id) \<times> connection" where
  "original_order session c cl_ord_id orig_cl_ord_id symbol sd =
     (case fresh_id (cn_ids c) cl_ord_id of
        (Inl err, ids) \<Rightarrow> (Inl (BadId err), c\<lparr>cn_ids := ids\<rparr>)
      | (Inr request, ids) \<Rightarrow>
          let c = c\<lparr>cn_ids := ids\<rparr>
          in (case wi_internal ids orig_cl_ord_id of
                None \<Rightarrow> Inl NoOriginal
              | Some original \<Rightarrow>
                  (case session_order (cn_engine c) session original of
                     None \<Rightarrow> Inl NoOrder
                   | Some ord \<Rightarrow>
                       (case get_by_symbol (en_instruments (cn_engine c)) symbol of
                          None \<Rightarrow> Inl NoSymbol
                        | Some inst \<Rightarrow>
                            if o_side ord \<noteq> sd \<or> o_instrument ord \<noteq> in_id inst then Inl SymbolSideDiffer
                            else Inr (request, original))), c))"

definition cancel_request ::
  "decimal_ops \<Rightarrow> string \<Rightarrow> connection \<Rightarrow> string \<Rightarrow> string \<Rightarrow> string \<Rightarrow> side \<Rightarrow> ((business_error + unit) \<times> connection) option" where
  "cancel_request D session c cl_ord_id orig_cl_ord_id symbol sd =
     (case original_order session c cl_ord_id orig_cl_ord_id symbol sd of
        (Inl err, c) \<Rightarrow> Some (Inl err, c)
      | (Inr (request, original), c) \<Rightarrow>
          map_option (engine_result session c) (cancel_order_with_id D (cn_engine c) session original request))"

definition replace_request ::
  "decimal_ops \<Rightarrow> int \<Rightarrow> string \<Rightarrow> connection \<Rightarrow> string \<Rightarrow> string \<Rightarrow> string \<Rightarrow> side \<Rightarrow> order_type \<Rightarrow> rat \<Rightarrow> rat
     \<Rightarrow> ((business_error + unit) \<times> connection) option" where
  "replace_request D today session c cl_ord_id orig_cl_ord_id symbol sd ty price quantity =
     (case original_order session c cl_ord_id orig_cl_ord_id symbol sd of
        (Inl err, c) \<Rightarrow> Some (Inl err, c)
      | (Inr (request, original), c) \<Rightarrow>
          map_option (engine_result session c)
            (modify_order_with_type D today (cn_engine c) session original request ty price quantity))"

definition quote_request ::
  "decimal_ops \<Rightarrow> string \<Rightarrow> connection \<Rightarrow> string \<Rightarrow> rat \<Rightarrow> rat \<Rightarrow> rat \<Rightarrow> rat \<Rightarrow> ((business_error + unit) \<times> connection) option" where
  "quote_request D session c symbol bid_px bid_qty offer_px offer_qty =
     (case get_by_symbol (en_instruments (cn_engine c)) symbol of
        None \<Rightarrow> Some (Inl NoSymbol, c)
      | Some inst \<Rightarrow>
          map_option
            (\<lambda>(r, e). (case r of Inl err \<Rightarrow> Inl (EngineFailed err) | Inr _ \<Rightarrow> Inr (), after_engine session c e))
            (quote D (cn_engine c) session (in_id inst) bid_px bid_qty offer_px offer_qty))"

definition rejected_order_fields ::
  "decimal_ops \<Rightarrow> string \<Rightarrow> nat \<Rightarrow> string \<Rightarrow> string \<Rightarrow> side \<Rightarrow> order_type \<Rightarrow> rat \<Rightarrow> rat \<Rightarrow> string \<Rightarrow> fields" where
  "rejected_order_fields D time reject_id cl_ord_id symbol sd ty price quantity reason =
     set_first 44 (fix_decimal D price)
       (rejected_execution_fields D time reject_id cl_ord_id None symbol sd ty quantity reason @ [(6, ''0'')])"

definition known_order :: "string \<Rightarrow> connection \<Rightarrow> string \<Rightarrow> order option" where
  "known_order session c orig_cl_ord_id =
     (case wi_internal (cn_ids c) orig_cl_ord_id of None \<Rightarrow> None | Some i \<Rightarrow> session_order (cn_engine c) session i)"

text \<open>A refused request: a failed connection keeps the reason for its log, any other posts the reject.\<close>

definition refuse :: "wording \<Rightarrow> connection \<Rightarrow> business_error \<Rightarrow> (string \<Rightarrow> out_msg) \<Rightarrow> string option \<times> connection" where
  "refuse wd c err reject =
     (if ch_failed (cn_tx c) then (Some (wd_business wd err), c)
      else (None, c\<lparr>cn_tx := post (cn_tx c) (reject (wd_business wd err))\<rparr>))"

definition quote_ack_fields :: "wording \<Rightarrow> string \<Rightarrow> business_error + unit \<Rightarrow> fields" where
  "quote_ack_fields wd quote_id r =
     (case r of
        Inr _ \<Rightarrow> build_mass_quote_ack quote_id
      | Inl err \<Rightarrow> set_first 297 ''5'' (build_mass_quote_ack quote_id) @ [(300, ''8''), (58, wd_business wd err)])"

definition handle_business ::
  "decimal_ops \<Rightarrow> wording \<Rightarrow> int \<Rightarrow> string \<Rightarrow> nat \<Rightarrow> string \<Rightarrow> connection \<Rightarrow> inbound \<Rightarrow> (string option \<times> connection) option" where
  "handle_business D wd today time reject_id session c m =
     (case m of
        NewOrderSingle cl symbol sd ty price quantity \<Rightarrow>
          map_option (\<lambda>(r, c). case r of
              Inr _ \<Rightarrow> (None, c)
            | Inl err \<Rightarrow> refuse wd c err
                (\<lambda>why. OutMessage ''8'' (rejected_order_fields D time reject_id cl symbol sd ty price quantity why)))
            (new_order_request D today session c cl symbol sd ty price quantity)
      | CancelRequest cl orig symbol sd \<Rightarrow>
          map_option (\<lambda>(r, c). case r of
              Inr _ \<Rightarrow> (None, c)
            | Inl err \<Rightarrow> refuse wd c err (\<lambda>why. OutMessage ''9'' (cancel_reject_fields cl orig ''1'' (known_order session c orig) why)))
            (cancel_request D session c cl orig symbol sd)
      | CancelReplace cl orig symbol sd ty price quantity \<Rightarrow>
          map_option (\<lambda>(r, c). case r of
              Inr _ \<Rightarrow> (None, c)
            | Inl err \<Rightarrow> refuse wd c err (\<lambda>why. OutMessage ''9'' (cancel_reject_fields cl orig ''2'' (known_order session c orig) why)))
            (replace_request D today session c cl orig symbol sd ty price quantity)
      | MassQuote qid level symbol bid_px bid_qty offer_px offer_qty \<Rightarrow>
          map_option (\<lambda>(r, c).
              (None, if level = 2 \<or> level = 1 \<and> isl r
                     then c\<lparr>cn_tx := post (cn_tx c) (OutMessage ''b'' (quote_ack_fields wd qid r))\<rparr> else c))
            (quote_request D session c symbol bid_px bid_qty offer_px offer_qty)
      | _ \<Rightarrow> Some (None, c))"


section \<open>Logon\<close>

definition peer_timeouts :: "nat \<Rightarrow> nat \<times> nat" where
  "peer_timeouts heart = (1200 * max heart 1, 2400 * max heart 1)"

record peer =
  pe_cfg :: acceptor_config
  pe_client :: string
  pe_session :: string
  pe_heart :: nat
  pe_logon_seq :: nat

record acceptor =
  ac_conn :: connection
  ac_seq :: sequence_state
  ac_pending :: "(string \<times> nat) option"
  ac_last :: nat
  ac_fault :: "string option"

abbreviation ac_post :: "acceptor \<Rightarrow> out_msg \<Rightarrow> acceptor" where
  "ac_post st m \<equiv> st\<lparr>ac_conn := (ac_conn st)\<lparr>cn_tx := post (cn_tx (ac_conn st)) m\<rparr>\<rparr>"

definition resend_request :: "nat \<Rightarrow> out_msg" where
  "resend_request n = OutMessage ''2'' [(7, show_nat n), (16, ''0'')]"

definition logon_session_id :: "acceptor_config \<Rightarrow> string \<Rightarrow> string" where
  "logon_session_id cfg client = cfg_begin cfg @ '':'' @ cfg_sender cfg @ ''->'' @ client"

datatype logon_result = Refused "string option" | Established peer acceptor

text \<open>The definitions sent to a new session; each is numbered by its own identifier.\<close>

definition bootstrap :: "engine \<Rightarrow> (string \<Rightarrow> string) \<Rightarrow> out_msg list" where
  "bootstrap e ident =
     (let symbols = all_symbols (en_instruments e)
      in map (\<lambda>symb. OutMessage ''d'' (set_first 393 (show_nat (length symbols))
             (build_security_definition (ident symb) ''bootstrap'' symb
               (case get_by_symbol (en_instruments e) symb of None \<Rightarrow> 0 | Some i \<Rightarrow> in_id i)))) symbols)"

definition direct_logout :: "acceptor_config \<Rightarrow> string \<Rightarrow> string \<Rightarrow> string \<Rightarrow> string" where
  "direct_logout cfg time target reason = frame time ''FIX.4.2'' ''5'' 1 (cfg_sender cfg) target [(58, reason)]"

definition establish ::
  "acceptor_config \<Rightarrow> (string \<Rightarrow> string) \<Rightarrow> nat \<Rightarrow> engine \<Rightarrow> fix_message \<Rightarrow> string \<Rightarrow> nat \<Rightarrow> nat \<Rightarrow> peer \<times> acceptor" where
  "establish cfg ident now e logon client heart logon_seq =
     (let session = logon_session_id cfg client;
          ack = build_logon heart @ (if fm_get logon 141 = Some ''Y'' then [(141, ''Y'')] else []);
          mails = OutMessage ''A'' ack # bootstrap e ident @ (if 1 < logon_seq then [resend_request 1] else []);
          st = sequence_new (if logon_seq = 1 then 2 else 1);
          st = (if 1 < logon_seq
                then st\<lparr>sq_queued := bt_insert logon_seq logon (sq_queued st), sq_resend_from := Some 1\<rparr> else st)
      in (\<lparr>pe_cfg = cfg, pe_client = client, pe_session = session, pe_heart = heart, pe_logon_seq = logon_seq\<rparr>,
          \<lparr>ac_conn = \<lparr>cn_engine = register_session e session, cn_tx = foldl post channel_new mails, cn_ids = wire_ids_new\<rparr>,
           ac_seq = st, ac_pending = None, ac_last = now, ac_fault = None\<rparr>))"

text \<open>
  The connection handler up to the loop. \<open>active\<close> is the set of sessions with a live connection; a
  refused Logon gets at most one Logout, unnumbered by any session. After the reservation of the session come
  three calls of the operating system, which open the session's log, set the time-out of the socket and clone it;
  \<open>ready\<close> says whether they succeed. When one fails the handler returns without a word and the reservation is dropped.
\<close>

definition accept_logon ::
  "decimal_ops \<Rightarrow> wording \<Rightarrow> time_parser \<Rightarrow> acceptor_config \<Rightarrow> (string \<Rightarrow> string) \<Rightarrow> string \<Rightarrow> nat \<Rightarrow> bool \<Rightarrow> string set \<Rightarrow> engine
     \<Rightarrow> fix_message \<Rightarrow> (logon_result \<times> string set) option" where
  "accept_logon D wd parse_time cfg ident time now ready active e logon =
     (case validate_logon parse_time logon cfg of
        Inl err \<Rightarrow>
          Some (Refused (case fm_get logon 49 of
                  None \<Rightarrow> None
                | Some p \<Rightarrow> if valid_component_id p then Some (direct_logout cfg time p (wd_session wd err)) else None), active)
      | Inr (client, heart, logon_seq) \<Rightarrow>
          (case decode D (\<lambda>v f. parse_time v f \<noteq> None) logon of
             None \<Rightarrow> None
           | Some (Inl err) \<Rightarrow>
               Some (Refused (case fm_get logon 49 of
                       None \<Rightarrow> None
                     | Some p \<Rightarrow> if valid_component_id p then Some (direct_logout cfg time p (wd_codec wd err)) else None), active)
           | Some (Inr _) \<Rightarrow>
               if \<not> client_admitted (cfg_admission cfg) client
               then Some (Refused (Some (direct_logout cfg time client ''session not declared'')), active)
               else if fm_get logon 141 = Some ''Y'' \<and> logon_seq \<noteq> 1
               then Some (Refused (Some (direct_logout cfg time client ''reset Logon must have sequence 1'')), active)
               else if logon_session_id cfg client \<in> active
               then Some (Refused (Some (direct_logout cfg time client ''session already active'')), active)
               else if \<not> ready then Some (Refused None, active)
               else Some (case establish cfg ident now e logon client heart logon_seq of (p, st) \<Rightarrow> Established p st,
                          insert (logon_session_id cfg client) active)))"

section \<open>The reader loop\<close>

datatype wire_input = Got fix_message | Eof | TimedOut | ReadFailed

record turn_env =
  tv_now :: nat
  tv_today :: int
  tv_time :: string
  tv_reject_id :: nat
  tv_input :: wire_input

text \<open>A turn either goes on or leaves the loop with the fields of the final Logout, if one is to be sent.\<close>

datatype turn = Continue acceptor | Leave "fields option" acceptor

abbreviation reply :: "acceptor \<Rightarrow> mailbox \<Rightarrow> acceptor" where
  "reply st tx \<equiv> st\<lparr>ac_conn := (ac_conn st)\<lparr>cn_tx := tx\<rparr>\<rparr>"

definition unsupported_types :: "string set" where
  "unsupported_types = {''c'', ''H'', ''V'', ''R'', ''a'', ''e'', ''g''}"

definition handled_by_engine :: "decimal_ops \<Rightarrow> wording \<Rightarrow> peer \<Rightarrow> turn_env \<Rightarrow> acceptor \<Rightarrow> inbound \<Rightarrow> turn option" where
  "handled_by_engine D wd p env st inb =
     map_option
       (\<lambda>(fault, c). Continue (st\<lparr>ac_conn := c, ac_fault := (case fault of None \<Rightarrow> ac_fault st | Some f \<Rightarrow> Some f)\<rparr>))
       (handle_business D wd (tv_today env) (tv_time env) (tv_reject_id env) (pe_session p) (ac_conn st) inb)"

definition is_logon :: "inbound \<Rightarrow> bool" where
  "is_logon inb = (case inb of Logon _ \<Rightarrow> True | _ \<Rightarrow> False)"

definition dispatch ::
  "decimal_ops \<Rightarrow> wording \<Rightarrow> peer \<Rightarrow> turn_env \<Rightarrow> acceptor \<Rightarrow> fix_message \<Rightarrow> inbound \<Rightarrow> turn option" where
  "dispatch D wd p env st msg inb =
     (let tx = cn_tx (ac_conn st)
      in case inb of
           Heartbeat \<Rightarrow> Some (Continue st)
         | SequenceReset _ _ \<Rightarrow> Some (Continue st)
         | TestRequest i \<Rightarrow> Some (Continue (ac_post st (OutMessage ''0'' (build_heartbeat (Some i)))))
         | ResendRequest \<Rightarrow>
             (case parse_resend_range msg of
                Inl _ \<Rightarrow> None
              | Inr (b, n) \<Rightarrow> Some (Continue (ac_post st (OutGapFill b n))))
         | Logout \<Rightarrow> Some (Leave (Some []) st)
         | Unsupported kind \<Rightarrow>
             if kind \<in> unsupported_types
             then Some (Continue (reply st (send_business_reject tx (fm_seq msg) kind 3 ''message not supported by this profile'')))
             else Some (Continue (reply st (send_message_reject tx (fm_seq msg) kind ''invalid or unsupported MsgType'')))
         | SessionReject _ \<Rightarrow> Some (Continue st)
         | BusinessReject _ \<Rightarrow> Some (Continue st)
         | NewOrderSingle _ _ _ _ _ _ \<Rightarrow> handled_by_engine D wd p env st inb
         | CancelRequest _ _ _ _ \<Rightarrow> handled_by_engine D wd p env st inb
         | CancelReplace _ _ _ _ _ _ _ \<Rightarrow> handled_by_engine D wd p env st inb
         | MassQuote _ _ _ _ _ _ _ \<Rightarrow> handled_by_engine D wd p env st inb
         | _ \<Rightarrow>
             if is_logon inb \<and> 1 < pe_logon_seq p \<and> fm_seq msg = Some (pe_logon_seq p) then Some (Continue st)
             else (case fm_msg_type msg of
                     None \<Rightarrow> None
                   | Some kind \<Rightarrow>
                       Some (Continue (reply st (send_business_reject tx (fm_seq msg) kind 3
                         ''message not accepted in this direction'')))))"


definition clear_test :: "acceptor \<Rightarrow> fix_message \<Rightarrow> acceptor" where
  "clear_test st msg =
     (case ac_pending st of
        None \<Rightarrow> st
      | Some (i, _) \<Rightarrow> if fm_msg_type msg = Some ''0'' \<and> fm_get msg 112 = Some i then st\<lparr>ac_pending := None\<rparr> else st)"

text \<open>What the handler does with the verdict on a message.\<close>

definition react :: "decimal_ops \<Rightarrow> wording \<Rightarrow> peer \<Rightarrow> turn_env \<Rightarrow> acceptor \<Rightarrow> verdict \<Rightarrow> turn option" where
  "react D wd p env st v =
     (case v of
        Broken err \<Rightarrow> Some (Leave (Some [(58, wd_session wd err)]) st)
      | Repeated \<Rightarrow> Some (Continue st)
      | Held_Back None \<Rightarrow> Some (Continue st)
      | Held_Back (Some n) \<Rightarrow> Some (Continue (ac_post st (resend_request n)))
      | Undecodable msg err \<Rightarrow>
          Some (Continue (reply st (send_session_reject (cn_tx (ac_conn st)) (fm_seq msg) (fm_msg_type msg) 5 (wd_codec wd err))))
      | Accepted msg inb \<Rightarrow> dispatch D wd p env (clear_test st msg) msg inb)"

definition inspect ::
  "decimal_ops \<Rightarrow> time_parser \<Rightarrow> peer \<Rightarrow> sequence_state \<Rightarrow> fix_message \<Rightarrow> (verdict \<times> sequence_state) option" where
  "inspect D parse_time p sq msg =
     (case validate_header parse_time msg (cfg_begin (pe_cfg p)) (pe_client p) (cfg_sender (pe_cfg p)) of
        Inl err \<Rightarrow> Some (Broken err, sq)
      | Inr _ \<Rightarrow> judge D parse_time sq msg)"

definition process_message ::
  "decimal_ops \<Rightarrow> wording \<Rightarrow> time_parser \<Rightarrow> peer \<Rightarrow> turn_env \<Rightarrow> acceptor \<Rightarrow> fix_message \<Rightarrow> turn option" where
  "process_message D wd parse_time p env st msg =
     (case inspect D parse_time p (ac_seq st) msg of
        None \<Rightarrow> None
      | Some (v, sq) \<Rightarrow> react D wd p env (st\<lparr>ac_seq := sq\<rparr>) v)"

text \<open>A read that gave nothing in time: the peer is probed once it has been silent for long enough.\<close>

definition probe_peer :: "peer \<Rightarrow> turn_env \<Rightarrow> acceptor \<Rightarrow> acceptor" where
  "probe_peer p env st =
     (if ac_pending st = None \<and> fst (peer_timeouts (pe_heart p)) \<le> tv_now env - ac_last st
      then let i = ''probe-'' @ show_nat (sq_expected (ac_seq st))
           in ac_post (st\<lparr>ac_pending := Some (i, tv_now env + snd (peer_timeouts (pe_heart p)))\<rparr>)
                (OutMessage ''1'' (build_test_request i))
      else st)"

text \<open>
  A turn takes the engine's lock twice: once to expire orders, and once more if the message is for the engine.
  Between the two other connections may act, so a turn is two operations.
\<close>

definition turn_poll :: "decimal_ops \<Rightarrow> peer \<Rightarrow> turn_env \<Rightarrow> acceptor \<Rightarrow> turn option" where
  "turn_poll D p env st =
     (if ch_failed (cn_tx (ac_conn st)) then Some (Leave None (st\<lparr>ac_fault := None\<rparr>))
      else do {
        e \<leftarrow> expire_day_orders_at D (cn_engine (ac_conn st)) (tv_today env);
        let st = st\<lparr>ac_conn := after_engine (pe_session p) (ac_conn st) e\<rparr>;
        Some (if (case ac_pending st of None \<Rightarrow> False | Some (_, deadline) \<Rightarrow> deadline \<le> tv_now env)
              then Leave (Some [(58, ''TestRequest was not answered'')]) st
              else Continue st)
      })"

text \<open>A message held back that has become ready goes first; then the wire is read.\<close>

definition next_message :: "turn_env \<Rightarrow> acceptor \<Rightarrow> wire_input \<times> acceptor" where
  "next_message env st =
     (case take_ready (ac_seq st) of
        (Some msg, sq) \<Rightarrow> (Got msg, st\<lparr>ac_seq := sq\<rparr>)
      | (None, sq) \<Rightarrow>
          (tv_input env,
           case tv_input env of
             Got _ \<Rightarrow> st\<lparr>ac_seq := sq, ac_last := tv_now env\<rparr>
           | _ \<Rightarrow> st\<lparr>ac_seq := sq\<rparr>))"

definition turn_message ::
  "decimal_ops \<Rightarrow> wording \<Rightarrow> time_parser \<Rightarrow> peer \<Rightarrow> turn_env \<Rightarrow> acceptor \<Rightarrow> turn option" where
  "turn_message D wd parse_time p env st =
     (case next_message env st of
        (Got msg, st) \<Rightarrow> process_message D wd parse_time p env st msg
      | (Eof, st) \<Rightarrow> Some (Leave None st)
      | (TimedOut, st) \<Rightarrow> Some (Continue (probe_peer p env st))
      | (ReadFailed, st) \<Rightarrow> Some (Leave None st))"

definition acceptor_turn ::
  "decimal_ops \<Rightarrow> wording \<Rightarrow> time_parser \<Rightarrow> peer \<Rightarrow> turn_env \<Rightarrow> acceptor \<Rightarrow> turn option" where
  "acceptor_turn D wd parse_time p env st =
     (case turn_poll D p env st of
        Some (Continue st) \<Rightarrow> turn_message D wd parse_time p env st
      | r \<Rightarrow> r)"

text \<open>After the loop: the session leaves the engine, and the last message of the mailbox ends the writer.\<close>

definition leave_session :: "decimal_ops \<Rightarrow> peer \<Rightarrow> fields option \<Rightarrow> acceptor \<Rightarrow> connection option" where
  "leave_session D p logout st = do {
     e \<leftarrow> session_disconnect D (cn_engine (ac_conn st)) (pe_session p);
     let c = after_engine (pe_session p) (ac_conn st) e;
     Some (c\<lparr>cn_tx := post (cn_tx c) (case logout of Some fs \<Rightarrow> LogoutAndShutdown fs | None \<Rightarrow> OutShutdown)\<rparr>)
   }"

text \<open>\<open>SessionReservation::drop\<close>\<close>

definition release_session :: "peer \<Rightarrow> string set \<Rightarrow> string set" where
  "release_session p active = active - {pe_session p}"

fun acceptor_loop ::
  "decimal_ops \<Rightarrow> wording \<Rightarrow> time_parser \<Rightarrow> peer \<Rightarrow> turn_env list \<Rightarrow> acceptor \<Rightarrow> (connection + acceptor) option" where
  "acceptor_loop D wd parse_time p [] st = Some (Inr st)"
| "acceptor_loop D wd parse_time p (env # envs) st =
     (case acceptor_turn D wd parse_time p env st of
        None \<Rightarrow> None
      | Some (Continue st) \<Rightarrow> acceptor_loop D wd parse_time p envs st
      | Some (Leave logout st) \<Rightarrow> map_option Inl (leave_session D p logout st))"

end
