(* ===== verification/Engine_Sessions.thy ===== *)
theory Engine_Sessions
  imports Engine_Invariants
begin

text \<open>
  The sessions the engine knows and what it has told them. Apart from registration and disconnection no call
  changes the set of sessions; the log of reports only grows, and only by reports to registered sessions.
  The first is an interpretation of \<open>engine_frame\<close>; registration, disconnection and the instruments
  are then covered one by one.
\<close>

definition session_keys :: "engine \<Rightarrow> string set" where
  "session_keys e = dom (bt_get (en_sessions e))"

text \<open>\<open>S\<close> are the sessions and \<open>L\<close> the log at the start of the call.\<close>

definition log_inv :: "string set \<Rightarrow> (string \<times> report) list \<Rightarrow> int set \<Rightarrow> bool \<Rightarrow> engine \<Rightarrow> bool" where
  "log_inv S L X u e \<longleftrightarrow> books_ok e \<and> session_keys e = S \<and> (\<exists>rs. en_sent e = L @ rs \<and> fst ` set rs \<subseteq> S)"

lemma log_inv_start: "books_ok e \<Longrightarrow> log_inv (session_keys e) (en_sent e) X u e"
  by (simp add: log_inv_def)

lemma log_inv_cong:
  "log_inv S L X u e \<Longrightarrow> books_ok e' \<Longrightarrow> session_keys e' = session_keys e \<Longrightarrow> en_sent e' = en_sent e \<Longrightarrow> log_inv S L Y v e'"
  by (simp add: log_inv_def)

lemma log_inv_send:
  assumes "log_inv S L X u e" "next_exec_id e = (x, e1)"
  shows "log_inv S L X u (send e1 r)"
proof -
  have e1: "en_sent e1 = en_sent e" "en_sessions e1 = en_sessions e" "books_ok e1"
    using assms by (auto simp: next_exec_id_def Let_def log_inv_def books_ok_def)
  obtain rs where rs: "en_sent e = L @ rs" "fst ` set rs \<subseteq> S" using assms(1) by (auto simp: log_inv_def)
  have "\<exists>rs'. en_sent (send e1 r) = L @ rs' \<and> fst ` set rs' \<subseteq> S"
  proof (cases "bt_get (en_sessions e) (o_session (rp_order r))")
    case None
    then show ?thesis using rs e1 by (simp add: send_def)
  next
    case (Some se)
    then have "o_session (rp_order r) \<in> S" using assms(1) by (auto simp: log_inv_def session_keys_def)
    then show ?thesis using rs e1 Some by (intro exI [of _ "rs @ [(o_session (rp_order r), r)]"]) (simp add: send_def)
  qed
  then show ?thesis using assms(1) e1 by (simp add: log_inv_def session_keys_def books_ok_def)
qed

interpretation session_log: engine_frame D "log_inv S L" for D S L
proof unfold_locales
  fix X u e and inst :: int and ts e'
  assume a: "log_inv S L X u e" "record_market_data D e inst ts = Some e'"
  have "books_ok e'" using a by (simp add: log_inv_def books_ok_def record_frame [OF a(2)])
  with a(1) show "log_inv S L (X - {inst}) True e'" by (rule log_inv_cong) (simp_all add: session_keys_def record_frame [OF a(2)])
next
  fix X u e e'
  assume a: "log_inv S L X u e" "publish_market_data e = Some e'"
  have "books_ok e'" using a by (simp add: log_inv_def publish_frame)
  with a(1) show "log_inv S L X False e'" by (rule log_inv_cong) (simp_all add: session_keys_def publish_frame [OF a(2)])
qed ((erule (1) log_inv_send) | (auto simp: log_inv_def session_keys_def books_ok_def; fail))+

section \<open>Calls on behalf of a session\<close>

fun session_call :: "string \<Rightarrow> engine_call \<Rightarrow> bool" where
  "session_call s (ExpireDayOrders _) \<longleftrightarrow> True"
| "session_call s (CreateOrder _ t _) \<longleftrightarrow> t = s"
| "session_call s (ModifyOrder _ t _ _ _ _ _) \<longleftrightarrow> t = s"
| "session_call s (CancelOrder t _ _) \<longleftrightarrow> t = s"
| "session_call s (Quote t _ _ _ _ _) \<longleftrightarrow> t = s"
| "session_call s _ \<longleftrightarrow> False"

lemma session_call_log:
  assumes "session_call s c" "call_engine D e c = Some e'" "log_inv S L {} False e"
  shows "log_inv S L {} False e'"
  using assms
  by (cases c) (auto intro: session_log.inv_expire session_log.inv_create session_log.inv_modify session_log.inv_cancel
      session_log.inv_quote)

lemma session_run_log:
  "run (engine_step D) e cs e' \<Longrightarrow> list_all (session_call s) cs \<Longrightarrow> log_inv S L {} False e \<Longrightarrow> log_inv S L {} False e'"
  by (induction rule: run.induct) (auto simp: engine_step_def intro: session_call_log)

section \<open>Sessions and instruments come and go\<close>

lemma register_session_log:
  "session_keys (register_session e s) = insert s (session_keys e)" "en_sent (register_session e s) = en_sent e"
  "books_ok e \<Longrightarrow> books_ok (register_session e s)"
  by (simp_all add: register_session_def session_keys_def books_ok_def)

lemma load_instruments_log:
  "session_keys (snd (load_instruments e ls)) = session_keys e" "en_sent (snd (load_instruments e ls)) = en_sent e"
  by (auto simp: load_instruments_def session_keys_def split: prod.split sum.split)

lemma create_instrument_log:
  "session_keys (snd (create_instrument e symb)) = session_keys e" "en_sent (snd (create_instrument e symb)) = en_sent e"
  by (auto simp: create_instrument_def session_keys_def Let_def split: option.split prod.split)

lemma remove_frame:
  "remove_from_book D e s i sd p inst = Some (r, e') \<Longrightarrow> en_sessions e' = en_sessions e \<and> en_sent e' = en_sent e"
  by (auto simp: remove_from_book_def rust_bind split: option.splits sum.splits)

lemma disconnect_orders_frame:
  "disconnect_orders D s e es = Some e' \<Longrightarrow> en_sessions e' = en_sessions e \<and> en_sent e' = en_sent e"
proof (induction es arbitrary: e)
  case (Cons x es)
  obtain i entry where x: "x = (i, entry)" by fastforce
  then obtain r e1 e2 where "remove_from_book D e s i (o_side entry) (o_price entry) (o_instrument entry) = Some (r, e1)"
    "record_market_data D e1 (o_instrument entry) [] = Some e2" "disconnect_orders D s e2 es = Some e'"
    using Cons.prems by (auto simp: rust_bind)
  then show ?case using Cons.IH [of e2] remove_frame record_frame(3,5) [of D e1] by metis
qed simp

lemma drop_pair_frame: "drop_pair D s inst e q = Some e' \<Longrightarrow> en_sessions e' = en_sessions e \<and> en_sent e' = en_sent e"
  using remove_frame by (auto simp: drop_pair_def drop_leg_def rust_bind split: option.splits)

lemma disconnect_quotes_frame:
  "disconnect_quotes D s e qs = Some e' \<Longrightarrow> en_sessions e' = en_sessions e \<and> en_sent e' = en_sent e"
proof (induction qs arbitrary: e)
  case (Cons x qs)
  obtain inst q where x: "x = (inst, q)" by fastforce
  then obtain e1 e2 where "drop_pair D s inst e q = Some e1" "record_market_data D e1 inst [] = Some e2"
    "disconnect_quotes D s e2 qs = Some e'"
    using Cons.prems by (auto simp: rust_bind)
  then show ?case using Cons.IH [of e2] drop_pair_frame [of D s inst e q e1] record_frame(3,5) [of D e1 inst "[]" e2] by simp
qed simp

lemma session_disconnect_frame:
  assumes "session_disconnect D e s = Some e'"
  shows "bt_get (en_sessions e') s = None" "en_sent e' = en_sent e" "session_keys e' = session_keys e - {s}"
proof -
  have "session_keys e' = session_keys e - {s} \<and> en_sent e' = en_sent e"
  proof (cases "bt_get (en_sessions e) s")
    case None
    then show ?thesis using assms by (auto simp: session_disconnect_def session_keys_def)
  next
    case (Some x)
    let ?e = "e\<lparr>en_sessions := bt_remove s (en_sessions e), en_dates := filter (\<lambda>d. fst (fst d) \<noteq> s) (en_dates e)\<rparr>"
    obtain e1 e2 where "disconnect_orders D s ?e (se_orders x) = Some e1" "disconnect_quotes D s e1 (se_quotes x) = Some e2"
      "publish_market_data e2 = Some e'"
      using assms Some by (auto simp: session_disconnect_def rust_bind Let_def)
    then have "en_sessions e' = bt_remove s (en_sessions e)" "en_sent e' = en_sent e"
      using disconnect_orders_frame [of D s ?e] disconnect_quotes_frame [of D s e1] publish_frame(1,3) [of e2 e'] by simp_all
    then show ?thesis by (auto simp: session_keys_def)
  qed
  then show "en_sent e' = en_sent e" and k: "session_keys e' = session_keys e - {s}" by blast+
  from k show "bt_get (en_sessions e') s = None" by (auto simp: session_keys_def)
qed

end
