(* ===== verification/Acceptor_Steps.thy ===== *)
theory Acceptor_Steps
  imports Acceptor Engine_Sessions
begin

text \<open>
  The exchange side of a session as a client of the engine and of its mailbox: every operation of the reader
  loop is a sequence of calls of the engine on behalf of its session and of sends into the mailbox, and the
  reports it puts there are those the engine sends the session, in order.
\<close>

section \<open>Mail\<close>

text \<open>What the holders of a sender can do: post, or set the flag. \<open>ms\<close> is what they tried to post.\<close>

fun sending :: "'a queue_call \<Rightarrow> bool" where
  "sending (Send _ _) \<longleftrightarrow> True"
| "sending FailShared \<longleftrightarrow> True"
| "sending _ \<longleftrightarrow> False"

definition mail_posts :: "mailbox \<Rightarrow> out_msg list \<Rightarrow> mailbox \<Rightarrow> bool" where
  "mail_posts tx ms tx' \<longleftrightarrow> (\<exists>ls. run queue_step tx ls tx' \<and> list_all sending ls \<and> attempted ls = ms)"

lemma trace_append:
  "attempted (ls @ ms) = attempted ls @ attempted ms" "received (ls @ ms) = received ls @ received ms"
  by (induction ls rule: attempted.induct; simp) (induction ls rule: received.induct; simp)

lemma sending_receives_nothing: "list_all sending ls \<Longrightarrow> received ls = [] \<and> DropReceiver \<notin> set ls"
  by (induction ls rule: received.induct) auto

lemma mail_posts_refl [simp]: "mail_posts tx [] tx"
  unfolding mail_posts_def by (intro exI [of _ "[]"]) auto

lemma mail_posts_trans: "mail_posts a ms b \<Longrightarrow> mail_posts b ns c \<Longrightarrow> mail_posts a (ms @ ns) c"
  unfolding mail_posts_def
  by (elim exE conjE) (intro exI conjI, erule (1) run_append, simp_all add: trace_append)

lemma mail_posts_step: "queue_step tx l tx' \<Longrightarrow> sending l \<Longrightarrow> mail_posts tx (attempted [l]) tx'"
  unfolding mail_posts_def by (intro exI [of _ "[l]"]) (auto intro: run_cons)

lemma mail_post: "mail_posts tx [m] (post tx m)"
  using mail_posts_step [OF q_send [OF surjective_pairing [of "send_q tx m"]]] by (simp add: post_def)

lemma mail_fail: "mail_posts tx [] (tx\<lparr>ch_failed := True\<rparr>)"
  using mail_posts_step [OF q_fail [of tx]] by simp

lemma mail_foldl: "mail_posts tx ms (foldl post tx ms)"
proof (induction ms arbitrary: tx)
  case (Cons m ms)
  from mail_posts_trans [OF mail_post Cons] show ?case by simp
qed simp

lemma sink_snd: "snd (sink_try_send tx r) = post tx (OutReport r)"
  by (cases "send_q tx (OutReport r)") (auto simp: sink_try_send_def post_def split: sum.split try_send_error.split)

lemma deliver_post: "deliver tx rs = foldl post tx (map OutReport rs)"
  unfolding deliver_def sink_snd by (induction rs arbitrary: tx) simp_all

lemma mail_deliver: "mail_posts tx (map OutReport rs) (deliver tx rs)"
  unfolding deliver_post by (rule mail_foldl)

text \<open>The reports among messages.\<close>

fun report_of :: "out_msg \<Rightarrow> report option" where
  "report_of (OutReport r) = Some r"
| "report_of _ = None"

definition posted_reports :: "out_msg list \<Rightarrow> report list" where
  "posted_reports ms = List.map_filter report_of ms"

lemma posted_reports_simps [simp]:
  "posted_reports [] = []" "posted_reports (ms @ ns) = posted_reports ms @ posted_reports ns"
  "posted_reports (m # ms) = (case report_of m of None \<Rightarrow> posted_reports ms | Some r \<Rightarrow> r # posted_reports ms)"
  by (simp_all add: posted_reports_def List.map_filter_def split: option.split)

lemma posted_reports_map [simp]: "posted_reports (map OutReport rs) = rs"
  by (induction rs) simp_all

section \<open>Calls of the engine\<close>

lemma engine_reports_refl [simp]: "engine_reports s e e = []"
  by (simp add: engine_reports_def)

lemma engine_reports_append:
  assumes "en_sent e1 = en_sent e @ xs" "en_sent e2 = en_sent e1 @ ys"
  shows "engine_reports s e e2 = engine_reports s e e1 @ engine_reports s e1 e2"
  using assms by (simp add: engine_reports_def)

lemma session_run_sent:
  assumes "run (engine_step D) e cs e'" "list_all (session_call s) cs" "books_ok e"
  shows "books_ok e'" "session_keys e' = session_keys e" "\<exists>rs. en_sent e' = en_sent e @ rs"
  using session_run_log [OF assms(1,2) log_inv_start [OF assms(3)]] by (auto simp: log_inv_def)

text \<open>
  A step of a connection is a sequence of calls on behalf of its session, and what goes into the mailbox
  are messages among which the reports are the ones the engine sends the session during those calls.
\<close>

definition conn_step :: "decimal_ops \<Rightarrow> string \<Rightarrow> connection \<Rightarrow> connection \<Rightarrow> bool" where
  "conn_step D s c c' \<longleftrightarrow> (\<exists>cs ms. run (engine_step D) (cn_engine c) cs (cn_engine c') \<and> list_all (session_call s) cs \<and>
     mail_posts (cn_tx c) ms (cn_tx c') \<and>
     (books_ok (cn_engine c) \<longrightarrow> posted_reports ms = engine_reports s (cn_engine c) (cn_engine c')))"

lemma conn_stepI:
  "run (engine_step D) (cn_engine c) cs (cn_engine c') \<Longrightarrow> list_all (session_call s) cs \<Longrightarrow> mail_posts (cn_tx c) ms (cn_tx c') \<Longrightarrow>
   posted_reports ms = engine_reports s (cn_engine c) (cn_engine c') \<Longrightarrow> conn_step D s c c'"
  unfolding conn_step_def by blast

lemma conn_step_trans:
  assumes "conn_step D s a b" "conn_step D s b c"
  shows "conn_step D s a c"
proof -
  obtain cs ms where b: "run (engine_step D) (cn_engine a) cs (cn_engine b)" "list_all (session_call s) cs"
    "mail_posts (cn_tx a) ms (cn_tx b)" "books_ok (cn_engine a) \<longrightarrow> posted_reports ms = engine_reports s (cn_engine a) (cn_engine b)"
    using assms(1) unfolding conn_step_def by (elim exE conjE) (rule that)
  obtain ds ns where c: "run (engine_step D) (cn_engine b) ds (cn_engine c)" "list_all (session_call s) ds"
    "mail_posts (cn_tx b) ns (cn_tx c)" "books_ok (cn_engine b) \<longrightarrow> posted_reports ns = engine_reports s (cn_engine b) (cn_engine c)"
    using assms(2) unfolding conn_step_def by (elim exE conjE) (rule that)
  have "posted_reports (ms @ ns) = engine_reports s (cn_engine a) (cn_engine c)" if ok: "books_ok (cn_engine a)"
  proof -
    note r = session_run_sent [OF b(1,2) ok]
    obtain xs ys where "en_sent (cn_engine b) = en_sent (cn_engine a) @ xs" "en_sent (cn_engine c) = en_sent (cn_engine b) @ ys"
      using r(3) session_run_sent(3) [OF c(1,2) r(1)] by (elim exE) (rule that)
    from engine_reports_append [OF this] show ?thesis using b(4) c(4) ok r(1) by simp
  qed
  moreover have "list_all (session_call s) (cs @ ds)" using b(2) c(2) by simp
  ultimately show ?thesis
    unfolding conn_step_def using run_append [OF b(1) c(1)] mail_posts_trans [OF b(3) c(3)] by blast
qed

lemma conn_step_quiet:
  "cn_engine c' = cn_engine c \<Longrightarrow> mail_posts (cn_tx c) ms (cn_tx c') \<Longrightarrow> posted_reports ms = [] \<Longrightarrow> conn_step D s c c'"
  by (rule conn_stepI [of _ _ "[]"]) auto

lemma conn_step_refl [simp]: "conn_step D s c c"
  by (rule conn_step_quiet [of _ _ "[]"]) simp_all

lemma conn_step_ids [simp]: "conn_step D s c (c\<lparr>cn_ids := ids\<rparr>)"
  by (rule conn_step_quiet [of _ _ "[]"]) simp_all

lemma conn_step_post [simp]: "report_of m = None \<Longrightarrow> conn_step D s c (c\<lparr>cn_tx := post (cn_tx c) m\<rparr>)"
  by (rule conn_step_quiet [of _ _ "[m]"]) (simp_all add: mail_post)

lemma conn_after_engine:
  "call_engine D (cn_engine c) l = Some e' \<Longrightarrow> session_call s l \<Longrightarrow> conn_step D s c (after_engine s c e')"
  by (rule conn_stepI [of _ _ "[l]" _ _ "map OutReport (engine_reports s (cn_engine c) e')"])
    (auto simp: after_engine_def engine_step_def mail_deliver intro: run_cons)

lemma conn_engine_result:
  assumes "call_engine D (cn_engine c) l = Some (snd res)" "session_call s l" "engine_result s c res = (r, c')"
  shows "conn_step D s c c'"
proof -
  let ?c = "after_engine s c (snd res)"
  have "conn_step D s c ?c" by (rule conn_after_engine [OF assms(1,2)])
  moreover have "conn_step D s ?c (?c\<lparr>cn_tx := propagate_engine_fault (cn_tx ?c) err\<rparr>)" for err
    by (rule conn_step_quiet [of _ _ "[]"]) (cases err; simp add: propagate_engine_fault_def mail_fail)+
  ultimately show ?thesis
    using assms(3) conn_step_trans by (auto simp: engine_result_def Let_def split: sum.splits)
qed

lemma new_order_conn:
  assumes "new_order_request D today session c cl symb sd ty p q = Some (r, c')"
  shows "conn_step D session c c'"
proof -
  obtain x ids where x: "fresh_id (cn_ids c) cl = (x, ids)" by fastforce
  let ?c = "c\<lparr>cn_ids := ids\<rparr>"
  consider "c' = ?c" | new res where "create_order D today (cn_engine c) session new = Some res" "engine_result session ?c res = (r, c')"
    using assms x by (auto simp: new_order_request_def Let_def split: sum.splits option.splits)
  then show ?thesis
  proof cases
    case (2 new res)
    have "call_engine D (cn_engine c) (CreateOrder today session new) = Some (snd res)" using 2(1) by (cases res) simp
    then have "call_engine D (cn_engine ?c) (CreateOrder today session new) = Some (snd res)" by simp
    from conn_engine_result [OF this _ 2(2)] have "conn_step D session ?c c'" by simp
    then show ?thesis by (rule conn_step_trans [OF conn_step_ids])
  qed simp
qed

lemma original_order_conn:
  "original_order session c cl orig symb sd = (r, c') \<Longrightarrow> \<exists>ids. c' = c\<lparr>cn_ids := ids\<rparr>"
  by (auto simp: original_order_def Let_def split: prod.splits sum.splits)

lemma cancel_conn:
  assumes "cancel_request D session c cl orig symb sd = Some (r, c')"
  shows "conn_step D session c c'"
proof -
  obtain x c1 where x: "original_order session c cl orig symb sd = (x, c1)" by fastforce
  then have c1: "conn_step D session c c1" using original_order_conn by fastforce
  show ?thesis
  proof (cases x)
    case (Inl err)
    then show ?thesis using assms x c1 by (simp add: cancel_request_def)
  next
    case (Inr k)
    then obtain res where res: "cancel_order_with_id D (cn_engine c1) session (snd k) (fst k) = Some res"
      "engine_result session c1 res = (r, c')"
      using assms x by (cases k) (auto simp: cancel_request_def)
    have "call_engine D (cn_engine c1) (CancelOrder session (snd k) (fst k)) = Some (snd res)" using res(1) by (cases res) simp
    then have "conn_step D session c1 c'" by (rule conn_engine_result [OF _ _ res(2)]) simp
    then show ?thesis by (rule conn_step_trans [OF c1])
  qed
qed

lemma replace_conn:
  assumes "replace_request D today session c cl orig symb sd ty p q = Some (r, c')"
  shows "conn_step D session c c'"
proof -
  obtain x c1 where x: "original_order session c cl orig symb sd = (x, c1)" by fastforce
  then have c1: "conn_step D session c c1" using original_order_conn by fastforce
  show ?thesis
  proof (cases x)
    case (Inl err)
    then show ?thesis using assms x c1 by (simp add: replace_request_def)
  next
    case (Inr k)
    then obtain res where res: "modify_order_with_type D today (cn_engine c1) session (snd k) (fst k) ty p q = Some res"
      "engine_result session c1 res = (r, c')"
      using assms x by (cases k) (auto simp: replace_request_def)
    have "call_engine D (cn_engine c1) (ModifyOrder today session (snd k) (fst k) ty p q) = Some (snd res)"
      using res(1) by (cases res) simp
    then have "conn_step D session c1 c'" by (rule conn_engine_result [OF _ _ res(2)]) simp
    then show ?thesis by (rule conn_step_trans [OF c1])
  qed
qed

lemma quote_conn:
  assumes "quote_request D session c symb bp bq ap aq = Some (r, c')"
  shows "conn_step D session c c'"
proof (cases "get_by_symbol (en_instruments (cn_engine c)) symb")
  case None
  then show ?thesis using assms by (simp add: quote_request_def)
next
  case (Some inst)
  then obtain x e where "quote D (cn_engine c) session (in_id inst) bp bq ap aq = Some (x, e)" "c' = after_engine session c e"
    using assms by (auto simp: quote_request_def)
  then show ?thesis
    using conn_after_engine [of D c "Quote session (in_id inst) bp bq ap aq"] by simp
qed

lemma refuse_conn: "refuse wd c err reject = (f, c') \<Longrightarrow> (\<And>why. report_of (reject why) = None) \<Longrightarrow> conn_step D session c c'"
  by (auto simp: refuse_def split: if_splits)

lemma answered_conn:
  assumes "map_option (\<lambda>(r, c). case r of Inl err \<Rightarrow> refuse wd c err (reject c) | Inr _ \<Rightarrow> (None, c)) req = Some (f, c')"
    "\<And>r c1. req = Some (r, c1) \<Longrightarrow> conn_step D session c c1" "\<And>c why. report_of (reject c why) = None"
  shows "conn_step D session c c'"
proof -
  obtain r c1 where r: "req = Some (r, c1)" using assms(1) by auto
  then have "conn_step D session c1 c'" using assms(1,3) by (cases r) (auto intro: refuse_conn)
  with assms(2) [OF r] show ?thesis by (rule conn_step_trans)
qed

lemma handle_business_conn:
  assumes "handle_business D wd today time k session c m = Some (f, c')"
  shows "conn_step D session c c'"
proof (cases m)
  case (NewOrderSingle cl symb sd ty p q)
  then show ?thesis using assms by (auto simp: handle_business_def intro: answered_conn new_order_conn)
next
  case (CancelRequest cl orig symb sd)
  then show ?thesis using assms by (auto simp: handle_business_def intro: answered_conn cancel_conn)
next
  case (CancelReplace cl orig symb sd ty p q)
  then show ?thesis using assms by (auto simp: handle_business_def intro: answered_conn replace_conn)
next
  case (MassQuote i level symb bp bq ap aq)
  then obtain r c1 where r: "quote_request D session c symb bp bq ap aq = Some (r, c1)"
    "c' = (if level = 2 \<or> level = 1 \<and> isl r then c1\<lparr>cn_tx := post (cn_tx c1) (OutMessage ''b'' (quote_ack_fields wd i r))\<rparr> else c1)"
    using assms by (auto simp: handle_business_def)
  have "conn_step D session c1 c'" unfolding r(2) by simp
  with quote_conn [OF r(1)] show ?thesis by (rule conn_step_trans)
qed (use assms in \<open>simp_all add: handle_business_def\<close>)


section \<open>Turns\<close>

fun turn_state :: "turn \<Rightarrow> acceptor" where
  "turn_state (Continue st) = st"
| "turn_state (Leave _ st) = st"

text \<open>A step of an acceptor is a step of its connection; everything else it changes is its own.\<close>

definition ac_step :: "decimal_ops \<Rightarrow> string \<Rightarrow> acceptor \<Rightarrow> turn option \<Rightarrow> bool" where
  "ac_step D s st r \<longleftrightarrow> (\<forall>t. r = Some t \<longrightarrow> conn_step D s (ac_conn st) (ac_conn (turn_state t)))"

lemma ac_step_simps [simp]:
  "ac_step D s st None"
  "ac_step D s st (Some (Continue st')) \<longleftrightarrow> conn_step D s (ac_conn st) (ac_conn st')"
  "ac_step D s st (Some (Leave fs st')) \<longleftrightarrow> conn_step D s (ac_conn st) (ac_conn st')"
  by (auto simp: ac_step_def)

lemma ac_step_cong: "ac_conn st = ac_conn st' \<Longrightarrow> ac_step D s st = ac_step D s st'"
  by (rule ext) (simp add: ac_step_def)

lemma handled_step: "ac_step D (pe_session p) st (handled_by_engine D wd p env st inb)"
  unfolding ac_step_def handled_by_engine_def by (auto dest: handle_business_conn)

lemma reject_posts:
  "\<exists>m. send_session_reject tx seq ty n why = post tx m \<and> report_of m = None"
  "\<exists>m. send_business_reject tx seq kind n why = post tx m \<and> report_of m = None"
  "\<exists>m. send_message_reject tx seq kind why = post tx m \<and> report_of m = None"
  unfolding send_session_reject_def send_business_reject_def send_message_reject_def
  by (rule exI, rule conjI, rule refl, simp)+

lemma reply_step:
  "conn_step D s c (c\<lparr>cn_tx := send_session_reject (cn_tx c) seq ty n why\<rparr>)"
  "conn_step D s c (c\<lparr>cn_tx := send_business_reject (cn_tx c) seq kind n why\<rparr>)"
  "conn_step D s c (c\<lparr>cn_tx := send_message_reject (cn_tx c) seq kind why\<rparr>)"
  using reject_posts(1) [of "cn_tx c" seq ty n why] reject_posts(2) [of "cn_tx c" seq kind n why]
    reject_posts(3) [of "cn_tx c" seq kind why] conn_step_post by metis+

lemma dispatch_step: "ac_step D (pe_session p) st (dispatch D wd p env st msg inb)"
  by (cases inb) (auto simp: dispatch_def Let_def reply_step handled_step split: sum.split option.split)

lemma clear_test_conn [simp]: "ac_conn (clear_test st msg) = ac_conn st"
  by (simp add: clear_test_def split: option.split)

lemma react_step: "ac_step D (pe_session p) st (react D wd p env st v)"
proof -
  have "ac_step D (pe_session p) st (dispatch D wd p env (clear_test st msg) msg inb)" for msg inb
    using dispatch_step [of D p "clear_test st msg"] ac_step_cong [of st "clear_test st msg"] by simp
  then show ?thesis by (auto simp: react_def reply_step resend_request_def split: verdict.split option.split)
qed

lemma process_message_step: "ac_step D (pe_session p) st (process_message D wd pt p env st msg)"
proof -
  have "ac_step D (pe_session p) st (react D wd p env (st\<lparr>ac_seq := sq\<rparr>) v)" for sq v
    using react_step [of D p "st\<lparr>ac_seq := sq\<rparr>"] ac_step_cong [of st "st\<lparr>ac_seq := sq\<rparr>"] by simp
  then show ?thesis by (auto simp: process_message_def split: option.split)
qed

lemma probe_step: "conn_step D s (ac_conn st) (ac_conn (probe_peer p env st))"
  by (simp add: probe_peer_def Let_def)

lemma turn_poll_step: "ac_step D (pe_session p) st (turn_poll D p env st)"
  using conn_after_engine [of D "ac_conn st" "ExpireDayOrders (tv_today env)"]
  by (auto simp: turn_poll_def ac_step_def rust_bind Let_def split: if_splits)

lemma turn_message_step: "ac_step D (pe_session p) st (turn_message D wd pt p env st)"
proof -
  have pm: "ac_step D (pe_session p) st (process_message D wd pt p env st' msg)" if "ac_conn st' = ac_conn st" for st' msg
    using process_message_step [of D p st'] ac_step_cong [of st st'] that by simp
  have pr: "conn_step D s (ac_conn st) (ac_conn (probe_peer p env st'))" if "ac_conn st' = ac_conn st" for st' s
    using probe_step [of D s st'] that by simp
  show ?thesis unfolding turn_message_def next_message_def by (auto intro!: pm pr split: prod.split option.split wire_input.split)
qed

end
