(* ===== verification/Acceptor_Properties.thy ===== *)
theory Acceptor_Properties
  imports Acceptor_Steps Writer_Properties
begin

text \<open>
  Properties of the exchange side of a session: it admits only the sessions it should, answers every request
  it does not carry out, and leaves in order. One theorem shows where the sequence numbers of the two sides part.
\<close>

section \<open>Admission\<close>

lemma established_conn:
  assumes "accept_logon D wd pt cfg ident time now ready active e logon = Some (Established p st, active')"
  obtains client heart n where "establish cfg ident now e logon client heart n = (p, st)"
    "validate_logon pt logon cfg = Inr (client, heart, n)" "client_admitted (cfg_admission cfg) client"
    "logon_session_id cfg client \<notin> active" "active' = insert (logon_session_id cfg client) active"
    "fm_get logon 141 = Some ''Y'' \<longrightarrow> n = 1"
    "\<exists>inb. decode D (\<lambda>v f. pt v f \<noteq> None) logon = Some (Inr inb)"
  using assms by (auto simp: accept_logon_def split: sum.splits option.splits if_splits prod.splits)

lemma post_items: "\<exists>ys. ch_items (post tx m) = ch_items tx @ ys"
  by (cases rule: send_q_cases [of tx m]) (auto simp: post_def)

lemma foldl_post_items: "\<exists>ys. ch_items (foldl post tx ms) = ch_items tx @ ys"
proof (induction ms arbitrary: tx)
  case (Cons m ms)
  then show ?case using post_items [of tx m] by (metis append.assoc foldl.simps(2))
qed simp

lemma post_new: "ch_items (post channel_new m) = [m]"
  by (simp add: post_def send_q_def try_send_def channel_new_def channel_with_flag_def CAPACITY_def)

lemma first_mail: "\<exists>ms'. ch_items (foldl post channel_new (m # ms)) = m # ms'"
  using foldl_post_items [of "post channel_new m" ms] by (simp add: post_new)

lemma map_of_first: "map_of xs t = (case map snd (filter (\<lambda>f. fst f = t) xs) of [] \<Rightarrow> None | v # _ \<Rightarrow> Some v)"
  by (induction xs) auto

lemma unique_tag_get: "validate_unique_header_tag msg t = Inr v \<Longrightarrow> fm_get msg t = Some v \<and> v \<noteq> []"
  unfolding fm_get_def map_of_first [of "fm_fields msg"] validate_unique_header_tag_def
  by (auto split: list.splits if_splits)

lemma validate_logon_Inr:
  assumes "validate_logon pt logon cfg = Inr (client, heart, n)"
  shows "fm_begin logon = cfg_begin cfg" "fm_msg_type logon = Some ''A''" "fm_get logon 49 = Some client" "client \<noteq> []"
    "fm_get logon 56 = Some (cfg_sender cfg)" "parse_required_u64 logon 108 = Inr heart" "heart \<le> u32_max"
    "parse_required_u64 logon 34 = Inr n"
  using assms unique_tag_get [of logon 49 client] unique_tag_get [of logon 56 "cfg_sender cfg"]
  by (auto simp: validate_logon_def rust_bind parse_required_seq_def)

lemma required_positive: "parse_required_u64 msg t = Inr n \<Longrightarrow> 0 < n"
  by (auto simp: parse_required_u64_def split: option.splits if_splits)

text \<open>
  C29. Only proper sessions are admitted: an accepted Logon has the configured begin string, is addressed to
  this exchange, has one non-empty sender that the admission policy admits and that has no live connection,
  and asks for a positive heartbeat interval, which is granted; the first message of the mailbox is the
  Logon reply; and if the Logon came ahead of sequence it is held back and the missing messages are
  requested, so that the session starts by expecting number 1.
\<close>

theorem admitted_logons:
  assumes "accept_logon D wd pt cfg ident time now ready active e logon = Some (Established p st, active')"
  shows "fm_begin logon = cfg_begin cfg \<and> fm_msg_type logon = Some ''A'' \<and> fm_get logon 56 = Some (cfg_sender cfg) \<and>
    fm_get logon 49 = Some (pe_client p) \<and> pe_client p \<noteq> [] \<and> client_admitted (cfg_admission cfg) (pe_client p) \<and>
    pe_session p = logon_session_id cfg (pe_client p) \<and> pe_session p \<notin> active \<and> active' = insert (pe_session p) active \<and>
    0 < pe_heart p \<and> parse_required_u64 logon 108 = Inr (pe_heart p) \<and>
    (\<exists>fs ms. ch_items (cn_tx (ac_conn st)) = OutMessage ''A'' (build_logon (pe_heart p) @ fs) # ms) \<and>
    (if pe_logon_seq p = 1 then ac_seq st = sequence_new 2
     else sq_expected (ac_seq st) = 1 \<and> sq_queued (ac_seq st) = [(pe_logon_seq p, logon)] \<and> sq_resend_from (ac_seq st) = Some 1)"
proof -
  obtain client heart n where c: "establish cfg ident now e logon client heart n = (p, st)"
    "validate_logon pt logon cfg = Inr (client, heart, n)" "client_admitted (cfg_admission cfg) client"
    "logon_session_id cfg client \<notin> active" "active' = insert (logon_session_id cfg client) active"
    by (rule established_conn [OF assms])
  note v = validate_logon_Inr [OF c(2)]
  let ?ack = "build_logon heart @ (if fm_get logon 141 = Some ''Y'' then [(141, ''Y'')] else [])"
  have p: "p = \<lparr>pe_cfg = cfg, pe_client = client, pe_session = logon_session_id cfg client, pe_heart = heart, pe_logon_seq = n\<rparr>"
    using c(1) by (simp add: establish_def Let_def)
  have "\<exists>ms. cn_tx (ac_conn st) = foldl post channel_new (OutMessage ''A'' ?ack # ms)"
    using c(1) by (auto simp: establish_def Let_def simp del: foldl.simps)
  then have mail: "\<exists>ms. ch_items (cn_tx (ac_conn st)) = OutMessage ''A'' ?ack # ms" using first_mail by metis
  have sq: "if n = 1 then ac_seq st = sequence_new 2
     else sq_expected (ac_seq st) = 1 \<and> sq_queued (ac_seq st) = [(n, logon)] \<and> sq_resend_from (ac_seq st) = Some 1"
    using c(1) required_positive [OF v(8)] by (auto simp: establish_def Let_def sequence_new_def)
  show ?thesis
    using v c(3-5) mail sq required_positive [OF v(6)] by (simp add: p) blast
qed

definition sample_wording :: wording where
  "sample_wording = \<lparr>wd_session = \<lambda>_. ''refused'', wd_codec = \<lambda>_. ''refused'', wd_business = \<lambda>_. ''refused''\<rparr>"

definition sample_parser :: time_parser where
  "sample_parser value format = (if length value = 17 \<or> length value = 21 then Some 0 else None)"

definition sample_config :: acceptor_config where
  "sample_config = \<lparr>cfg_port = 5001, cfg_sender = ''EX'', cfg_begin = ''FIX.4.2'', cfg_admission = Declared [''C1'']\<rparr>"

definition sample_logon :: fix_message where
  "sample_logon = wire_message ''FIX.4.2'' ''A'' 1 ''C1'' ''EX'' sample_time (build_logon 30) []"

lemma sample_logon_accepted:
  "accept_logon sample_codec sample_wording sample_parser sample_config (\<lambda>s. s) sample_time 0 True {} e sample_logon =
     Some (case establish sample_config (\<lambda>s. s) 0 e sample_logon ''C1'' 30 1 of (p, st) \<Rightarrow> Established p st,
       {logon_session_id sample_config ''C1''})"
proof -
  have n: "parse_u64 (show_nat 1) = Some 1" "parse_u64 (show_nat 30) = Some 30" by simp_all
  have v: "validate_logon sample_parser sample_logon sample_config = Inr (''C1'', 30, 1)"
    using n
    by (simp add: validate_logon_def sample_logon_def sample_config_def fm_msg_type_def header_fields_def build_logon_def
        validate_unique_header_tag_def validate_timestamp_fields_def parse_required_text_def parse_fix_timestamp_def
        sample_parser_def sample_time_def parse_required_u64_def parse_required_seq_def)
  have e: "encodes sample_codec sample_time ''q'' (Logon 30) ''A'' (build_logon 30)" by (rule logon) simp_all
  have "decode sample_codec (\<lambda>v f. sample_parser v f \<noteq> None) sample_logon = Some (Inr (Logon 30))"
    unfolding sample_logon_def
    by (rule decode_encodes [OF e])
      (auto simp: values_ok_def header_fields_def build_logon_def sample_time_def validate_timestamp_def sample_parser_def)
  then show ?thesis
    using v by (simp add: accept_logon_def client_admitted_def) (simp add: sample_config_def)
qed

theorem admitted_logons_witness:
  "\<exists>p st active. accept_logon sample_codec sample_wording sample_parser sample_config (\<lambda>s. s) sample_time 0 True {} engine_new sample_logon =
     Some (Established p st, active) \<and> pe_client p = ''C1'' \<and> 0 < pe_heart p"
proof -
  obtain p st active where a: "accept_logon sample_codec sample_wording sample_parser sample_config (\<lambda>s. s) sample_time 0 True {} engine_new
      sample_logon = Some (Established p st, active)"
    unfolding sample_logon_accepted by (cases "establish sample_config (\<lambda>s. s) 0 engine_new sample_logon ''C1'' 30 1") simp
  have "fm_get sample_logon 49 = Some (pe_client p)" "0 < pe_heart p" using admitted_logons [OF a] by simp_all
  then show ?thesis using a by (auto simp: sample_logon_def header_fields_def)
qed

section \<open>Requests\<close>

lemma after_engine_same [simp]: "after_engine session c (cn_engine c) = c"
  by (simp add: after_engine_def deliver_def)

definition violates :: "business_error \<Rightarrow> bool" where
  "violates err = (case err of EngineFailed err \<Rightarrow> is_violation err | _ \<Rightarrow> False)"

lemma engine_result_cases:
  assumes "engine_result session c (r, e') = (x, c')"
    and unchanged: "\<And>err. r = Inl err \<Longrightarrow> \<not> is_violation err \<Longrightarrow> e' = cn_engine c"
  obtains (carried_out) v where "r = Inr v" "x = Inr ()" "c' = after_engine session c e'"
  | (refused) err where "r = Inl err" "x = Inl (EngineFailed err)" "\<not> is_violation err" "c' = c"
  | (broken) err where "x = Inl (EngineFailed err)" "is_violation err" "ch_failed (cn_tx c')"
proof (cases r)
  case (Inl err)
  show thesis
  proof (cases "is_violation err")
    case True
    then show thesis using assms(1) Inl broken by (cases err) (auto simp: engine_result_def Let_def propagate_engine_fault_def)
  next
    case False
    then have e': "e' = cn_engine c" using unchanged Inl by blast
    have "propagate_engine_fault (cn_tx c) err = cn_tx c" using False by (cases err) (auto simp: propagate_engine_fault_def)
    then have "c' = c" using assms(1) Inl unfolding e' by (simp add: engine_result_def Let_def)
    then show thesis using refused Inl False assms(1) by (simp add: engine_result_def Let_def)
  qed
next
  case (Inr v)
  then show thesis using assms(1) by (intro carried_out) (auto simp: engine_result_def Let_def)
qed

lemma create_order_refusal: "create_order D today e s new = Some (Inl err, e') \<Longrightarrow> \<not> is_violation err \<Longrightarrow> e' = e"
  by (cases rule: create_order_cases) (use create_in_book_error in auto)

lemma modify_order_refusal:
  "modify_order_with_type D today e s orig i ty p q = Some (Inl err, e') \<Longrightarrow> \<not> is_violation err \<Longrightarrow> e' = e"
  by (cases rule: modify_order_cases) (use replace_in_book_error in auto)

lemma cancel_order_refusal: "cancel_order_with_id D e s orig i = Some (Inl err, e') \<Longrightarrow> \<not> is_violation err \<Longrightarrow> e' = e"
  by (cases rule: cancel_order_cases) auto


text \<open>A refused request leaves engine and mailbox alone; only the identifier it used up is remembered.\<close>

lemma new_order_refused:
  assumes "new_order_request D today session c cl symb sd ty p q = Some (Inl err, c1)" "\<not> violates err"
  shows "\<exists>ids. c1 = c\<lparr>cn_ids := ids\<rparr>"
proof -
  obtain x ids where x: "fresh_id (cn_ids c) cl = (x, ids)" by fastforce
  let ?c = "c\<lparr>cn_ids := ids\<rparr>"
  consider "c1 = ?c" | new r e' where "create_order D today (cn_engine ?c) session new = Some (r, e')"
      "engine_result session ?c (r, e') = (Inl err, c1)"
    using assms(1) x by (auto simp: new_order_request_def Let_def split: sum.splits option.splits)
  then show ?thesis
  proof cases
    case (2 new r e')
    from 2(2) show ?thesis
      by (cases rule: engine_result_cases) (use 2(1) create_order_refusal assms(2) in \<open>auto simp: violates_def\<close>)
  qed blast
qed

lemma original_refused:
  assumes "original_order session c cl orig symb sd = (x, c1)"
  shows "\<exists>ids. c1 = c\<lparr>cn_ids := ids\<rparr>"
  by (rule original_order_conn [OF assms])

lemma cancel_refused:
  assumes "cancel_request D session c cl orig symb sd = Some (Inl err, c1)" "\<not> violates err"
  shows "\<exists>ids. c1 = c\<lparr>cn_ids := ids\<rparr>"
proof -
  obtain x c0 where x: "original_order session c cl orig symb sd = (x, c0)" by fastforce
  then obtain ids where c0: "c0 = c\<lparr>cn_ids := ids\<rparr>" using original_order_conn by blast
  consider "c1 = c0" | a b r e' where "cancel_order_with_id D (cn_engine c0) session a b = Some (r, e')"
      "engine_result session c0 (r, e') = (Inl err, c1)"
    using assms(1) x by (auto simp: cancel_request_def split: sum.splits)
  then show ?thesis
  proof cases
    case (2 a b r e')
    from 2(2) have "c1 = c0"
      by (cases rule: engine_result_cases) (use 2(1) cancel_order_refusal assms(2) in \<open>auto simp: violates_def\<close>)
    then show ?thesis using c0 by blast
  qed (use c0 in blast)
qed

lemma replace_refused:
  assumes "replace_request D today session c cl orig symb sd ty p q = Some (Inl err, c1)" "\<not> violates err"
  shows "\<exists>ids. c1 = c\<lparr>cn_ids := ids\<rparr>"
proof -
  obtain x c0 where x: "original_order session c cl orig symb sd = (x, c0)" by fastforce
  then obtain ids where c0: "c0 = c\<lparr>cn_ids := ids\<rparr>" using original_order_conn by blast
  consider "c1 = c0" | a b r e' where "modify_order_with_type D today (cn_engine c0) session a b ty p q = Some (r, e')"
      "engine_result session c0 (r, e') = (Inl err, c1)"
    using assms(1) x by (auto simp: replace_request_def split: sum.splits)
  then show ?thesis
  proof cases
    case (2 a b r e')
    from 2(2) have "c1 = c0"
      by (cases rule: engine_result_cases) (use 2(1) modify_order_refusal assms(2) in \<open>auto simp: violates_def\<close>)
    then show ?thesis using c0 by blast
  qed (use c0 in blast)
qed

text \<open>The reject of an order, as its sender decodes it.\<close>

definition rejected_data :: "string \<Rightarrow> string \<Rightarrow> side \<Rightarrow> rat \<Rightarrow> rat \<Rightarrow> exec_report_data" where
  "rejected_data cl symb sd p q =
     \<lparr>er_exchange_id = ''0'', er_cl_ord_id = cl, er_orig_cl_ord_id = None, er_symbol = symb, er_state = Rejected,
      er_is_fill = False, er_side = sd, er_price = p, er_quantity = q, er_remaining = 0, er_last_price = 0,
      er_last_quantity = 0\<rparr>"

lemma rejected_order_decodes:
  assumes "wire_exact D p" "wire_exact D q" "dec_parse D ''0'' = Some 0" "dec_add D 0 0 = Some 0"
    "validate_timestamp chrono time = Inr ()" "\<forall>v \<in> {sender, target, ts, cl, symb, why}. v \<noteq> []"
  shows "decode D chrono (wire_message bs ''8'' seq sender target ts (rejected_order_fields D time k cl symb sd ty p q why) raw) =
    Some (Inr (ExecutionReport (rejected_data cl symb sd p q)))"
proof -
  let ?fs = "rejected_order_fields D time k cl symb sd ty p q why"
  let ?m = "wire_message bs ''8'' seq sender target ts ?fs raw"
  have fs: "?fs = [(37, ''0''), (17, ''REJ-'' @ show_nat k), (20, ''0''), (150, ''8''), (39, ''8''), (54, side_to_fix sd),
      (38, fix_decimal D q), (40, if ty = Market then ''1'' else ''2''), (151, ''0''), (14, ''0''), (44, fix_decimal D p),
      (11, cl), (55, symb), (58, why), (60, time), (6, ''0'')]"
    by (simp add: rejected_order_fields_def rejected_execution_fields_def)
  have zero: "parse_decimal D ''0'' = Inr 0"
    using assms(3) by (simp add: parse_decimal_def fix_decimal_syntax_def strip_minus_def is_ascii_digit_def fix_decimal_char_def)
  have ne: "fix_decimal D p \<noteq> []" "fix_decimal D q \<noteq> []" "side_to_fix sd \<noteq> []" "time \<noteq> []"
    using wire_exact_nonempty assms(1,2,5) by (auto simp: validate_timestamp_def) (cases sd; simp)
  have "decode D chrono ?m = decode_kind D ?m ''8''"
  proof (rule built_profile)
    show "required_fields ''8'' = Some [37, 17, 20, 150, 39, 55, 54, 151, 14, 6]" by (simp add: required_fields_def)
    show "scopes_ok ''8'' (header_tags @ map fst ?fs)"
      unfolding fs by (rule scopes_body_ok) (simp_all add: body_ok_eval)
    show "values_ok ?fs" unfolding fs values_ok_def using ne assms(6) by simp
  qed (use assms(5,6) in \<open>simp_all add: fs\<close>)
  also have "\<dots> = Some (Inr (ExecutionReport (rejected_data cl symb sd p q)))"
    unfolding fs using assms(1,2,4) zero
    by (simp add: decode_kind_def decode_execution_report_def execution_fields_def decode_eval exec_types_def
        ord_status_from_fix_def rejected_data_def)
  finally show ?thesis .
qed

lemma cancel_reject_decodes:
  assumes "\<forall>v \<in> {sender, target, ts, cl, orig, why}. v \<noteq> []" "to \<in> {''1'', ''2''}" "\<forall>r. ord = Some r \<longrightarrow> o_exchange_id r \<noteq> []"
  shows "decode D chrono (wire_message bs ''9'' seq sender target ts (cancel_reject_fields cl orig to ord why) raw) =
    Some (Inr (CancelReject cl orig (case ord of None \<Rightarrow> Rejected | Some r \<Rightarrow> if o_state r = New then Booked else o_state r) why))"
proof -
  let ?fs = "cancel_reject_fields cl orig to ord why"
  let ?m = "wire_message bs ''9'' seq sender target ts ?fs raw"
  have m: "validate_profile chrono ?m ''9'' = Inr ()"
  proof -
    have "required_fields ''9'' = Some [37, 11, 41, 39, 434]" by (simp add: required_fields_def)
    moreover have "scopes_ok ''9'' (map fst (fm_fields ?m))"
      using scopes_body_ok [of "''9''" "map fst ?fs"] by (simp add: cancel_reject_fields_def header_fields_def body_ok_eval)
    moreover have "ord_status_to_fix st \<noteq> []" for st by (cases st) simp_all
    ultimately show ?thesis
      using assms
      by (subst validate_profile_Inr [of _ "[37, 11, 41, 39, 434]"])
        (auto simp: validate_field_scopes_Inr cancel_reject_fields_def header_fields_def valid_enumeration_def fm_get_def
          split: option.splits)
  qed
  have st: "ord_status_from_fix (case ord of None \<Rightarrow> ''8'' | Some r \<Rightarrow> ord_status_to_fix (o_state r)) =
      Inr (case ord of None \<Rightarrow> Rejected | Some r \<Rightarrow> if o_state r = New then Booked else o_state r)"
    using ord_status_from_to by (cases ord) (simp_all only: option.case, simp add: ord_status_from_fix_def)
  have "decode_kind D ?m ''9'' =
      Some (Inr (CancelReject cl orig (case ord of None \<Rightarrow> Rejected | Some r \<Rightarrow> if o_state r = New then Booked else o_state r) why))"
    using assms(2) st
    by (auto simp: decode_kind_def decode_cancel_reject_def cancel_reject_fields_def decode_eval)
  then show ?thesis using m by (simp add: decode_def fm_msg_type_def header_fields_def)
qed


text \<open>
  C30. A refused order is reported to its sender: when a new order is refused for any reason but an internal book
  fault, the engine is unchanged and exactly one message is posted, and that message, framed and decoded, is an
  execution report that rejects the order under the client's own identifier, with its side, price and
  quantity and nothing left open.
\<close>

theorem refused_order_reported:
  assumes "handle_business D wd today time k session c (NewOrderSingle cl symb sd ty p q) = Some (f, c')"
    "new_order_request D today session c cl symb sd ty p q = Some (Inl err, c1)" "\<not> violates err" "\<not> ch_failed (cn_tx c)"
    "wire_exact D p" "wire_exact D q" "dec_parse D ''0'' = Some 0" "dec_add D 0 0 = Some 0"
    "validate_timestamp chrono time = Inr ()" "\<forall>v \<in> {sender, target, ts, cl, symb, wd_business wd err}. v \<noteq> []"
  shows "f = None \<and> cn_engine c' = cn_engine c \<and>
    (\<exists>fs. cn_tx c' = post (cn_tx c) (OutMessage ''8'' fs) \<and>
       decode D chrono (wire_message bs ''8'' seq sender target ts fs raw) =
         Some (Inr (ExecutionReport (rejected_data cl symb sd p q))))"
proof -
  obtain ids where c1: "c1 = c\<lparr>cn_ids := ids\<rparr>" using new_order_refused [OF assms(2,3)] by blast
  let ?fs = "rejected_order_fields D time k cl symb sd ty p q (wd_business wd err)"
  have "f = None" "c' = c\<lparr>cn_ids := ids, cn_tx := post (cn_tx c) (OutMessage ''8'' ?fs)\<rparr>"
    using assms(1,2,4) c1 by (auto simp: handle_business_def refuse_def)
  moreover have "decode D chrono (wire_message bs ''8'' seq sender target ts ?fs raw) =
      Some (Inr (ExecutionReport (rejected_data cl symb sd p q)))"
    using assms(5-10) by (intro rejected_order_decodes) simp_all
  ultimately show ?thesis by auto
qed

text \<open>
  C31. A refused cancel or replace request is reported to its sender: for any reason but an internal book fault
  the engine is unchanged and exactly one message is posted, which, framed and decoded, is a cancel reject for
  the client's own two identifiers with the state of the order it names, or a rejection if there is none.
\<close>

theorem refused_cancel_reported:
  assumes "handle_business D wd today time k session c m = Some (f, c')"
    "m = CancelRequest cl orig symb sd \<and> cancel_request D session c cl orig symb sd = Some (Inl err, c1) \<or>
     m = CancelReplace cl orig symb sd ty p q \<and>
     replace_request D today session c cl orig symb sd ty p q = Some (Inl err, c1)"
    "\<not> violates err" "\<not> ch_failed (cn_tx c)" "\<forall>v \<in> {sender, target, ts, cl, orig, wd_business wd err}. v \<noteq> []"
    "\<forall>r. known_order session c1 orig = Some r \<longrightarrow> o_exchange_id r \<noteq> []"
  shows "f = None \<and> cn_engine c' = cn_engine c \<and>
    (\<exists>fs. cn_tx c' = post (cn_tx c) (OutMessage ''9'' fs) \<and>
       decode D chrono (wire_message bs ''9'' seq sender target ts fs raw) =
         Some (Inr (CancelReject cl orig (case known_order session c1 orig of None \<Rightarrow> Rejected
           | Some r \<Rightarrow> if o_state r = New then Booked else o_state r) (wd_business wd err))))"
proof -
  have "\<exists>ids. c1 = c\<lparr>cn_ids := ids\<rparr>"
    using assms(2) by (elim disjE conjE) (erule cancel_refused [OF _ assms(3)], erule replace_refused [OF _ assms(3)])
  then obtain ids where c1: "c1 = c\<lparr>cn_ids := ids\<rparr>" by (elim exE) (rule that)
  let ?posted = "\<lambda>to. f = None \<and> c' = c1\<lparr>cn_tx := post (cn_tx c) (OutMessage ''9''
      (cancel_reject_fields cl orig to (known_order session c1 orig) (wd_business wd err)))\<rparr>"
  have tx: "\<not> ch_failed (cn_tx c1)" "cn_tx c1 = cn_tx c" using c1 assms(4) by simp_all
  have "?posted ''1'' \<or> ?posted ''2''"
    using assms(2)
  proof (elim disjE conjE)
    assume "m = CancelRequest cl orig symb sd" "cancel_request D session c cl orig symb sd = Some (Inl err, c1)"
    then have "?posted ''1''" using assms(1) tx by (auto simp: handle_business_def refuse_def)
    then show ?thesis by (rule disjI1)
  next
    assume "m = CancelReplace cl orig symb sd ty p q"
      "replace_request D today session c cl orig symb sd ty p q = Some (Inl err, c1)"
    then have "?posted ''2''" using assms(1) tx by (auto simp: handle_business_def refuse_def)
    then show ?thesis by (rule disjI2)
  qed
  then obtain to where kind: "to \<in> {''1'', ''2''}" "f = None"
    "c' = c1\<lparr>cn_tx := post (cn_tx c) (OutMessage ''9''
        (cancel_reject_fields cl orig to (known_order session c1 orig) (wd_business wd err)))\<rparr>"
    by (elim disjE conjE) (rule that [of "''1''"], simp_all, rule that [of "''2''"], simp_all)
  from cancel_reject_decodes [OF assms(5) kind(1) assms(6)] show ?thesis
    using kind c1 by auto
qed

section \<open>Where the numbers part\<close>

text \<open>
  C33. A malformed sequence reset desynchronizes the session: a reset outside its sequence position that fails
  validation is counted as if it were the next message, so the next genuine message of the peer, with the number
  that was expected, is refused as too low.
\<close>

theorem malformed_reset_desynchronizes:
  assumes "validate_header pt msg (cfg_begin (pe_cfg p)) (pe_client p) (cfg_sender (pe_cfg p)) = Inr seq"
    "is_reset msg" "parse_required_u64 msg 36 = Inr new_seq" "fm_get msg 123 \<noteq> Some ''Y''" "parse_required_seq msg = Inr seq"
    "decode D (\<lambda>v f. pt v f \<noteq> None) msg = Some (Inl err)" "sq_expected (ac_seq st) < u64_max"
    "parse_required_seq next_msg = Inr (sq_expected (ac_seq st))" "\<not> is_reset next_msg" "\<not> is_duplicate next_msg"
  shows "\<exists>st'. process_message D wd pt p env st msg = Some (Continue st') \<and>
    fst (classify (ac_seq st') next_msg) = Inl (SeqTooLow (Suc (sq_expected (ac_seq st))) (sq_expected (ac_seq st)))"
proof -
  have "classify (ac_seq st) msg = (Inr (Ready msg), ac_seq st)"
    using assms(2-5) by (simp add: classify_def)
  then obtain st' where st': "process_message D wd pt p env st msg = Some (Continue st')"
    "sq_expected (ac_seq st') = Suc (sq_expected (ac_seq st))"
    using assms(1,6,7) by (simp add: process_message_def inspect_def judge_def react_def count_undecodable_def)
  have "fst (classify (ac_seq st') next_msg) = Inl (SeqTooLow (Suc (sq_expected (ac_seq st))) (sq_expected (ac_seq st)))"
    using assms(8-10) st'(2) by (simp add: classify_def classify_seq_def)
  then show ?thesis using st'(1) by blast
qed


section \<open>Leaving\<close>

text \<open>
  C32. A session leaves in order: however the loop ends, the engine no longer knows the session, its removal sends
  the session nothing, and exactly one message is posted after everything posted before: the Logout with
  its reason when there is one, else the bare end, each of which ends the writer.
\<close>

theorem session_leaves_in_order:
  assumes "leave_session D p logout st = Some c"
  shows "bt_get (en_sessions (cn_engine c)) (pe_session p) = None \<and>
    cn_tx c = post (cn_tx (ac_conn st)) (case logout of Some fs \<Rightarrow> LogoutAndShutdown fs | None \<Rightarrow> OutShutdown) \<and>
    (\<forall>time ids ws. case write_one D time ids ws (case logout of Some fs \<Rightarrow> LogoutAndShutdown fs | None \<Rightarrow> OutShutdown) of
        (WriteAndClose bytes, _) \<Rightarrow> logout \<noteq> None | (Close, _) \<Rightarrow> logout = None | _ \<Rightarrow> False)"
proof -
  obtain e where e: "session_disconnect D (cn_engine (ac_conn st)) (pe_session p) = Some e"
    "c = (after_engine (pe_session p) (ac_conn st) e)\<lparr>cn_tx := post (cn_tx (after_engine (pe_session p) (ac_conn st) e))
        (case logout of Some fs \<Rightarrow> LogoutAndShutdown fs | None \<Rightarrow> OutShutdown)\<rparr>"
    using assms by (auto simp: leave_session_def rust_bind Let_def)
  have "engine_reports (pe_session p) (cn_engine (ac_conn st)) e = []"
    using session_disconnect_frame(2) [OF e(1)] by (simp add: engine_reports_def)
  then have "cn_tx (after_engine (pe_session p) (ac_conn st) e) = cn_tx (ac_conn st)" by (simp add: after_engine_def deliver_def)
  then show ?thesis
    unfolding e(2) using session_disconnect_frame(1) [OF e(1)]
    by (auto simp: after_engine_def write_one_def Let_def split: option.split)
qed

section \<open>Witnesses\<close>

definition sample_connection :: connection where
  "sample_connection = \<lparr>cn_engine = engine_new, cn_tx = channel_new, cn_ids = wire_ids_new\<rparr>"

definition sample_peer :: peer where
  "sample_peer = \<lparr>pe_cfg = sample_config, pe_client = ''C1'', pe_session = ''FIX.4.2:EX->C1'', pe_heart = 30, pe_logon_seq = 1\<rparr>"

definition sample_acceptor :: acceptor where
  "sample_acceptor = \<lparr>ac_conn = sample_connection, ac_seq = sequence_new 2, ac_pending = None, ac_last = 0, ac_fault = None\<rparr>"

theorem session_leaves_in_order_witness:
  "\<exists>c. leave_session sample_codec sample_peer (Some []) sample_acceptor = Some c \<and> cn_tx c = post channel_new (LogoutAndShutdown [])"
proof -
  obtain c where c: "leave_session sample_codec sample_peer (Some []) sample_acceptor = Some c"
    by (simp add: leave_session_def session_disconnect_def sample_acceptor_def sample_connection_def sample_peer_def
        engine_new_def with_fill_policy_def Let_def)
  from session_leaves_in_order [OF c] c show ?thesis by (auto simp: sample_acceptor_def sample_connection_def)
qed

lemmas sample_request_eval = fresh_id_def intern_def choose_id_def preferred_id_def parse_sint_def strip_plus_def all_digits_def
  is_ascii_digit_def digits_val_def digit_val_def QUOTE_ORDER_ID_def wire_ids_new_def sample_connection_def engine_new_def
  with_fill_policy_def im_new_def get_by_symbol_def

theorem refused_order_reported_witness:
  "\<exists>f c' fs. handle_business sample_codec sample_wording 0 sample_time 1 ''s'' sample_connection
      (NewOrderSingle ''1'' ''IBM'' Buy Limit 100 5) = Some (f, c') \<and> cn_tx c' = post channel_new (OutMessage ''8'' fs) \<and>
    decode sample_codec sample_chrono (wire_message ''FIX.4.2'' ''8'' 2 ''EX'' ''C1'' sample_time fs []) =
      Some (Inr (ExecutionReport (rejected_data ''1'' ''IBM'' Buy 100 5)))"
proof -
  obtain c1 where r: "new_order_request sample_codec 0 ''s'' sample_connection ''1'' ''IBM'' Buy Limit 100 5 = Some (Inl NoSymbol, c1)"
    by (simp add: new_order_request_def sample_request_eval)
  then obtain f c' where h: "handle_business sample_codec sample_wording 0 sample_time 1 ''s'' sample_connection
      (NewOrderSingle ''1'' ''IBM'' Buy Limit 100 5) = Some (f, c')"
    by (cases "ch_failed (cn_tx c1)") (simp_all add: handle_business_def refuse_def)
  have z: "dec_parse sample_codec ''0'' = Some 0" "dec_add sample_codec 0 0 = Some 0" "\<not> ch_failed (cn_tx sample_connection)"
    "validate_timestamp sample_chrono sample_time = Inr ()"
    by (simp_all add: sample_codec_def sample_decimal_def checked_dec_def dec_limit_def all_digits_def is_ascii_digit_def
        digits_val_def digit_val_def sample_connection_def channel_new_def channel_with_flag_def validate_timestamp_def
        sample_chrono_def sample_time_def)
  have n: "\<forall>v \<in> {''EX'', ''C1'', sample_time, ''1'', ''IBM'', wd_business sample_wording NoSymbol}. v \<noteq> []"
    by (simp add: sample_time_def sample_wording_def)
  from refused_order_reported [OF h r _ z(3) _ _ z(1,2,4) n] h show ?thesis
    by (auto simp: violates_def sample_exact sample_connection_def)
qed

theorem refused_cancel_reported_witness:
  "\<exists>f c' fs. handle_business sample_codec sample_wording 0 sample_time 1 ''s'' sample_connection
      (CancelRequest ''2'' ''1'' ''IBM'' Buy) = Some (f, c') \<and> cn_tx c' = post channel_new (OutMessage ''9'' fs) \<and>
    decode sample_codec sample_chrono (wire_message ''FIX.4.2'' ''9'' 2 ''EX'' ''C1'' sample_time fs []) =
      Some (Inr (CancelReject ''2'' ''1'' Rejected ''refused''))"
proof -
  obtain c1 where r: "cancel_request sample_codec ''s'' sample_connection ''2'' ''1'' ''IBM'' Buy = Some (Inl NoOriginal, c1)"
    "known_order ''s'' c1 ''1'' = None"
    by (simp add: cancel_request_def original_order_def sample_request_eval known_order_def)
  then obtain f c' where h: "handle_business sample_codec sample_wording 0 sample_time 1 ''s'' sample_connection
      (CancelRequest ''2'' ''1'' ''IBM'' Buy) = Some (f, c')"
    by (cases "ch_failed (cn_tx c1)") (simp_all add: handle_business_def refuse_def)
  have n: "\<forall>v \<in> {''EX'', ''C1'', sample_time, ''2'', ''1'', wd_business sample_wording NoOriginal}. v \<noteq> []"
    "\<not> ch_failed (cn_tx sample_connection)"
    by (simp_all add: sample_time_def sample_wording_def sample_connection_def channel_new_def channel_with_flag_def)
  from refused_cancel_reported [OF h, of "''2''" "''1''" "''IBM''" Buy NoOriginal c1 _ _ _ "''EX''" "''C1''" sample_time
      sample_chrono "''FIX.4.2''" 2 "[]"] r h n show ?thesis
    by (auto simp: violates_def sample_connection_def sample_wording_def)
qed

definition sample_reset :: fix_message where
  "sample_reset = wire_message ''FIX.4.2'' ''4'' 5 ''C1'' ''EX'' sample_time [(36, show_nat 3), (123, ''X'')] []"

lemma sample_reset_malformed: "decode sample_codec (\<lambda>v f. sample_parser v f \<noteq> None) sample_reset = Some (Inl (InvalidBoolean 123))"
proof -
  let ?fs = "[(36, show_nat 3), (123, ''X'')]"
  have "decode sample_codec (\<lambda>v f. sample_parser v f \<noteq> None) sample_reset = decode_kind sample_codec sample_reset ''4''"
    unfolding sample_reset_def
  proof (rule built_profile)
    show "required_fields ''4'' = Some [36]" by (simp add: required_fields_def)
    show "scopes_ok ''4'' (header_tags @ map fst ?fs)" by (rule scopes_body_ok) (simp_all add: body_ok_eval)
    show "values_ok ?fs" by (simp add: values_ok_def)
  qed (simp_all add: sample_time_def)
  also have "\<dots> = Some (Inl (InvalidBoolean 123))"
    by (simp add: sample_reset_def decode_kind_def decode_sequence_reset_def decode_eval)
  finally show ?thesis .
qed

lemma sample_reset_fields:
  "validate_header sample_parser sample_reset ''FIX.4.2'' ''C1'' ''EX'' = Inr 5" "is_reset sample_reset"
  "parse_required_u64 sample_reset 36 = Inr 3" "fm_get sample_reset 123 \<noteq> Some ''Y''" "parse_required_seq sample_reset = Inr 5"
proof -
  have n: "parse_u64 (show_nat 5) = Some 5" "parse_u64 (show_nat 3) = Some 3" by simp_all
  show "validate_header sample_parser sample_reset ''FIX.4.2'' ''C1'' ''EX'' = Inr 5"
    using n by (simp add: validate_header_def sample_reset_def header_fields_def
        validate_unique_header_tag_def validate_timestamp_fields_def parse_required_text_def parse_fix_timestamp_def
        sample_parser_def sample_time_def parse_required_u64_def parse_required_seq_def)
  show "is_reset sample_reset" "parse_required_u64 sample_reset 36 = Inr 3" "fm_get sample_reset 123 \<noteq> Some ''Y''"
    "parse_required_seq sample_reset = Inr 5"
    using n by (simp_all add: sample_reset_def header_fields_def is_reset_def fm_msg_type_def parse_required_u64_def
        parse_required_seq_def)
qed

theorem malformed_reset_desynchronizes_witness:
  "\<exists>st'. process_message sample_codec sample_wording sample_parser sample_peer
      \<lparr>tv_now = 0, tv_today = 0, tv_time = sample_time, tv_reject_id = 1, tv_input = TimedOut\<rparr> sample_acceptor sample_reset =
      Some (Continue st') \<and> fst (classify (ac_seq st') (sample_message 2)) = Inl (SeqTooLow 3 2)"
proof -
  have e: "sq_expected (ac_seq sample_acceptor) = 2" by (simp add: sample_acceptor_def sequence_new_def)
  have m: "parse_required_seq (sample_message 2) = Inr 2" "\<not> is_reset (sample_message 2)" "\<not> is_duplicate (sample_message 2)"
    by (simp_all add: sample_message_def parse_required_seq_def parse_required_u64_def fm_get_def is_reset_def fm_msg_type_def
        is_duplicate_def)
  have "Suc 2 = (3::nat)" by simp
  from malformed_reset_desynchronizes [of sample_parser sample_reset sample_peer 5 3 sample_codec "InvalidBoolean 123" sample_acceptor
      "sample_message 2"] show ?thesis
    using sample_reset_fields sample_reset_malformed m e by (simp add: sample_peer_def sample_config_def)
qed

end
