(* ===== verification/Reader_Properties.thy ===== *)
theory Reader_Properties
  imports Acceptor_Properties
begin

text \<open>
  The reader loop of the exchange and the numbers of what it reads. A history interleaves the two halves of
  its turns with whatever other threads do to the engine, the mailbox and the identifiers of the connection; it keeps a log of
  the verdicts on the messages, each with the number expected after it.
\<close>

section \<open>Histories of the loop\<close>

type_synonym verdict_log = "(verdict \<times> nat) list"

text \<open>What a turn takes from the wire, and the verdict on the message it takes from there or from those held back.\<close>

definition arrival :: "turn_env \<Rightarrow> acceptor \<Rightarrow> fix_message list" where
  "arrival env st =
     (if fst (take_ready (ac_seq st)) \<noteq> None then [] else case tv_input env of Got msg \<Rightarrow> [msg] | _ \<Rightarrow> [])"

definition turn_verdict :: "decimal_ops \<Rightarrow> time_parser \<Rightarrow> peer \<Rightarrow> turn_env \<Rightarrow> acceptor \<Rightarrow> verdict_log" where
  "turn_verdict D pt p env st =
     (case next_message env st of
        (Got msg, st) \<Rightarrow>
          (case inspect D pt p (ac_seq st) msg of None \<Rightarrow> [] | Some (v, sq) \<Rightarrow> [(v, sq_expected sq)])
      | _ \<Rightarrow> [])"

datatype reader_event = Polled_Turn turn_env | Message_Turn turn_env | Elsewhere

inductive reading ::
  "decimal_ops \<Rightarrow> wording \<Rightarrow> time_parser \<Rightarrow> peer \<Rightarrow> acceptor \<times> fix_message list \<times> verdict_log \<Rightarrow> reader_event
     \<Rightarrow> acceptor \<times> fix_message list \<times> verdict_log \<Rightarrow> bool"
  for D wd pt p where
  polled: "turn_poll D p env st = Some (Continue st') \<Longrightarrow>
    reading D wd pt p (st, wire, hist) (Polled_Turn env) (st', wire, hist)"
| message: "turn_message D wd pt p env st = Some t \<Longrightarrow>
    reading D wd pt p (st, arrival env st @ wire, hist) (Message_Turn env) (turn_state t, wire, hist @ turn_verdict D pt p env st)"
| elsewhere: "reading D wd pt p (st, wire, hist) Elsewhere (st\<lparr>ac_conn := c\<rparr>, wire, hist)"

inductive_cases readingE: "reading D wd pt p s l t"

definition accepted_log :: "verdict_log \<Rightarrow> (fix_message \<times> inbound) list" where
  "accepted_log hist = List.map_filter (\<lambda>(v, _). case v of Accepted m inb \<Rightarrow> Some (m, inb) | _ \<Rightarrow> None) hist"

definition used_log :: "verdict_log \<Rightarrow> fix_message list" where
  "used_log hist = List.map_filter (\<lambda>(v, _). used_up v) hist"

text \<open>The numbers of the messages that are not sequence resets.\<close>

definition ordinary :: "fix_message list \<Rightarrow> nat list" where
  "ordinary ms = map seqno (filter (\<lambda>m. \<not> is_reset m) ms)"

lemma log_simps [simp]:
  "accepted_log [] = []" "used_log [] = []" "ordinary [] = []"
  "accepted_log (hist @ hist') = accepted_log hist @ accepted_log hist'" "used_log (hist @ hist') = used_log hist @ used_log hist'"
  "ordinary (ms @ ns) = ordinary ms @ ordinary ns"
  "used_log [(v, n)] = (case used_up v of None \<Rightarrow> [] | Some m \<Rightarrow> [m])"
  "accepted_log [(Accepted m inb, n)] = [(m, inb)]" "accepted_log [(Held_Back k, n)] = []"
  by (simp_all add: accepted_log_def used_log_def ordinary_def List.map_filter_def split: option.split)

lemma accepted_used: "accepted_log [(v, n)] = [] \<or> (\<exists>m inb. accepted_log [(v, n)] = [(m, inb)] \<and> used_up v = Some m)"
  by (cases v) (simp_all add: accepted_log_def List.map_filter_def)

section \<open>A turn and the state of the numbers\<close>

lemma clear_test_seq [simp]: "ac_seq (clear_test st msg) = ac_seq st"
  by (simp add: clear_test_def split: option.split)

lemma dispatch_seq: "dispatch D wd p env st msg inb = Some t \<Longrightarrow> ac_seq (turn_state t) = ac_seq st"
  by (cases inb)
    (auto simp: dispatch_def handled_by_engine_def Let_def split: sum.splits option.splits if_splits prod.splits)

lemma react_seq: "react D wd p env st v = Some t \<Longrightarrow> ac_seq (turn_state t) = ac_seq st"
  by (cases v) (auto simp: react_def split: option.splits dest: dispatch_seq)

lemma probe_seq [simp]: "ac_seq (probe_peer p env st) = ac_seq st"
  by (simp add: probe_peer_def Let_def)

lemma poll_seq: "turn_poll D p env st = Some (Continue st') \<Longrightarrow> ac_seq st' = ac_seq st"
  by (auto simp: turn_poll_def rust_bind Let_def split: if_splits)

lemma next_message_seq:
  "next_message env st = (inp, st1) \<Longrightarrow> ac_seq st1 = snd (take_ready (ac_seq st))"
  by (auto simp: next_message_def split: prod.splits option.splits wire_input.splits)

text \<open>A turn either takes no message and leaves the numbers alone, or acts on the verdict on one message.\<close>

lemma turn_message_cases:
  assumes "turn_message D wd pt p env st = Some t"
  obtains (idle) "fst (take_ready (ac_seq st)) = None" "arrival env st = []" "turn_verdict D pt p env st = []"
      "ac_seq (turn_state t) = snd (take_ready (ac_seq st))"
  | (took) msg st1 v sq where "next_message env st = (Got msg, st1)"
      "inspect D pt p (snd (take_ready (ac_seq st))) msg = Some (v, sq)"
      "react D wd p env (st1\<lparr>ac_seq := sq\<rparr>) v = Some t" "turn_verdict D pt p env st = [(v, sq_expected sq)]"
      "ac_seq (turn_state t) = sq"
proof -
  obtain inp st1 where n: "next_message env st = (inp, st1)" by fastforce
  note q = next_message_seq [OF n]
  show thesis
  proof (cases "\<exists>msg. inp = Got msg")
    case True
    then obtain msg where i: "inp = Got msg" by blast
    then obtain v sq where "inspect D pt p (ac_seq st1) msg = Some (v, sq)" "react D wd p env (st1\<lparr>ac_seq := sq\<rparr>) v = Some t"
      using assms n by (auto simp: turn_message_def process_message_def split: option.splits)
    moreover from this have "ac_seq (turn_state t) = sq" using react_seq by fastforce
    ultimately show thesis using took n i q by (simp add: turn_verdict_def)
  next
    case False
    then have "fst (take_ready (ac_seq st)) = None" "tv_input env = inp"
      using n by (auto simp: next_message_def split: prod.splits option.splits)
    moreover from this have "arrival env st = []" "turn_verdict D pt p env st = []"
      using False n by (auto simp: arrival_def turn_verdict_def split: wire_input.splits)
    moreover have "ac_seq (turn_state t) = ac_seq st1"
      using assms n False by (auto simp: turn_message_def split: wire_input.splits)
    ultimately show thesis using idle q by simp
  qed
qed

lemma take_ready_expected [simp]: "sq_expected (snd (take_ready st)) = sq_expected st"
  by (simp add: take_ready_def)

lemma inspect_cases:
  assumes "inspect D pt p st m = Some (v, st')" "sq_expected st < u64_max"
  obtains (kept) "used_up v = None" "sq_expected st' = sq_expected st"
  | (reset) "used_up v = Some m" "is_reset m" "sq_expected st < sq_expected st'"
  | (next_message) "used_up v = Some m" "\<not> is_reset m" "seqno m = sq_expected st" "sq_expected st' = Suc (sq_expected st)"
proof (cases "validate_header pt m (cfg_begin (pe_cfg p)) (pe_client p) (cfg_sender (pe_cfg p))")
  case (Inl e)
  then show thesis using assms(1) kept by (auto simp: inspect_def)
next
  case (Inr k)
  then have "judge D pt st m = Some (v, st')" using assms(1) by (simp add: inspect_def)
  then show thesis using judge_cases [OF _ assms(2)] kept reset next_message by metis
qed

section \<open>In order, once each\<close>

definition in_order :: "nat \<Rightarrow> acceptor \<times> fix_message list \<times> verdict_log \<Rightarrow> bool" where
  "in_order e s \<longleftrightarrow> (case s of (st, _, hist) \<Rightarrow>
     (\<forall>(v, n) \<in> set hist. n < u64_max) \<longrightarrow> sq_expected (ac_seq st) < u64_max \<and> e \<le> sq_expected (ac_seq st) \<and>
       sorted_wrt (<) (ordinary (map fst (accepted_log hist))) \<and>
       (\<forall>n \<in> set (ordinary (map fst (accepted_log hist))). e \<le> n \<and> n < sq_expected (ac_seq st)) \<and>
       ((\<forall>m \<in> set (used_log hist). \<not> is_reset m) \<longrightarrow> ordinary (used_log hist) = [e..<sq_expected (ac_seq st)]))"

lemma in_order_cong: "in_order e (st, wire, hist) \<Longrightarrow> sq_expected (ac_seq st') = sq_expected (ac_seq st) \<Longrightarrow> in_order e (st', wire', hist)"
  by (simp add: in_order_def)

lemma in_order_verdict:
  assumes "in_order e (st, wire, hist)" "inspect D pt p sq0 m = Some (v, sq)" "sq_expected sq0 = sq_expected (ac_seq st)"
    "ac_seq st' = sq"
  shows "in_order e (st', wire', hist @ [(v, sq_expected sq)])"
proof (cases "\<forall>(v, n) \<in> set (hist @ [(v, sq_expected sq)]). n < u64_max")
  case True
  then have old: "sq_expected (ac_seq st) < u64_max" "e \<le> sq_expected (ac_seq st)"
      "sorted_wrt (<) (ordinary (map fst (accepted_log hist)))"
      "\<forall>n \<in> set (ordinary (map fst (accepted_log hist))). e \<le> n \<and> n < sq_expected (ac_seq st)"
      "(\<forall>m \<in> set (used_log hist). \<not> is_reset m) \<longrightarrow> ordinary (used_log hist) = [e..<sq_expected (ac_seq st)]"
    and new: "sq_expected sq < u64_max"
    using assms(1) by (auto simp: in_order_def)
  note u = accepted_used [of v "sq_expected sq"]
  have "sq_expected sq0 < u64_max" using old(1) assms(3) by simp
  with assms(2) show ?thesis
  proof (cases rule: inspect_cases)
    case kept
    then have "accepted_log [(v, sq_expected sq)] = []" using u by auto
    then show ?thesis using old new kept assms(3,4) by (simp add: in_order_def)
  next
    case reset
    then have "ordinary (map fst (accepted_log [(v, sq_expected sq)])) = []" using u by (auto simp: ordinary_def)
    then show ?thesis using old new reset assms(3,4) by (auto simp: in_order_def)
  next
    case next_message
    then have "ordinary (map fst (accepted_log [(v, sq_expected sq)])) \<in> {[], [sq_expected (ac_seq st)]}"
      using u assms(3) by (auto simp: ordinary_def)
    moreover have "ordinary [m] = [sq_expected (ac_seq st)]" using next_message assms(3) by (simp add: ordinary_def)
    ultimately show ?thesis
      using old new next_message assms(3,4) by (auto simp: in_order_def sorted_wrt_append)
  qed
next
  case False
  then show ?thesis by (auto simp: in_order_def)
qed

interpretation reader: invariant_system
  "\<lambda>(st, wire, hist). sq_expected (ac_seq st) = e \<and> e < u64_max \<and> hist = []" "reading D wd pt p" "in_order e" for e D wd pt p
proof
  show "in_order e t" if "in_order e s" "reading D wd pt p s l t" for s t l
    using that(2)
  proof (cases rule: reading.cases)
    case (polled env st st' wire hist)
    then show ?thesis using that(1) poll_seq in_order_cong by metis
  next
    case (message env st t' wire hist)
    from message(4) show ?thesis
    proof (cases rule: turn_message_cases)
      case idle
      then show ?thesis using that(1) in_order_cong [of e st "arrival env st @ wire" hist "turn_state t'"] message by simp
    next
      case (took msg st1 v sq)
      then show ?thesis using in_order_verdict [of e st "arrival env st @ wire" hist, OF _ took(2) _ took(5)] that(1) message by simp
    qed
  next
    case (elsewhere st wire hist c)
    then show ?thesis using that(1) in_order_cong [of e st wire hist "st\<lparr>ac_conn := c\<rparr>"] by simp
  qed
qed (auto simp: in_order_def)

text \<open>
  C25. Messages are handled in order and at most once: in every history of the exchange's reader loop, for
  any messages from the wire, the numbers of the messages it acts on, other than sequence resets, increase
  strictly, from the first expected number on and below the next one; and as long as no sequence reset was used up,
  the messages used up, those it acted on and those it rejected because they do not decode, carry
  exactly the numbers from the first expected one up to the next, without gaps. The history must not exhaust the 64-bit counter.
\<close>

theorem delivered_in_order:
  assumes "run (reading D wd pt p) (st0, wire0, []) ls (st, wire, hist)"
    and "sq_expected (ac_seq st0) < u64_max" "\<forall>(v, n) \<in> set hist. n < u64_max"
  shows "sorted_wrt (<) (ordinary (map fst (accepted_log hist))) \<and>
    (\<forall>n \<in> set (ordinary (map fst (accepted_log hist))). sq_expected (ac_seq st0) \<le> n \<and> n < sq_expected (ac_seq st)) \<and>
    ((\<forall>m \<in> set (used_log hist). \<not> is_reset m) \<longrightarrow>
       ordinary (used_log hist) = [sq_expected (ac_seq st0)..<sq_expected (ac_seq st)])"
  using reader.reachable_inv [OF _ assms(1), of "sq_expected (ac_seq st0)"] assms(2,3) by (simp add: in_order_def)


section \<open>Recovery\<close>

text \<open>
  The messages \<open>f k\<close> for the numbers from \<open>e\<close> on: each passes the check of its header with number \<open>k\<close>,
  is no sequence reset, and decodes to \<open>inb k\<close>, which is not a Logout.
\<close>

definition genuine ::
  "decimal_ops \<Rightarrow> time_parser \<Rightarrow> peer \<Rightarrow> nat set \<Rightarrow> (nat \<Rightarrow> fix_message) \<Rightarrow> (nat \<Rightarrow> inbound) \<Rightarrow> bool" where
  "genuine D pt p K f inb \<longleftrightarrow>
     (\<forall>k \<in> K. validate_header pt (f k) (cfg_begin (pe_cfg p)) (pe_client p) (cfg_sender (pe_cfg p)) = Inr k \<and> \<not> is_reset (f k) \<and>
        decode D (\<lambda>v s. pt v s \<noteq> None) (f k) = Some (Inr (inb k)) \<and> inb k \<noteq> Logout)"

lemma validate_header_seq: "validate_header pt m b c d = Inr k \<Longrightarrow> parse_required_seq m = Inr k"
  by (auto simp: validate_header_def rust_bind split: if_splits)

lemma dispatch_continues:
  assumes "dispatch D wd p env st msg inb = Some t" "inb \<noteq> Logout"
  obtains st' where "t = Continue st'"
  using assms
  by (cases inb) (auto simp: dispatch_def handled_by_engine_def Let_def split: sum.splits option.splits if_splits prod.splits)

text \<open>
  What holds of every history: the messages \<open>A\<close> have arrived, those not yet accepted are held back, the rest
  are on the wire; and every turn that took a message made progress.
\<close>

definition recovering ::
  "(nat \<Rightarrow> fix_message) \<Rightarrow> (nat \<Rightarrow> inbound) \<Rightarrow> nat \<Rightarrow> nat \<Rightarrow> acceptor \<times> fix_message list \<times> verdict_log \<Rightarrow> bool" where
  "recovering f inb e n s \<longleftrightarrow> (case s of (st, wire, hist) \<Rightarrow>
     \<exists>A ks. holds_back f e n A (ac_seq st) \<and> wire = map f ks \<and> distinct ks \<and> set ks \<inter> A = {} \<and> A \<union> set ks = {e..<e + n} \<and>
       accepted_log hist = map (\<lambda>k. (f k, inb k)) [e..<sq_expected (ac_seq st)] \<and>
       (\<forall>(v, _) \<in> set hist. (\<exists>m i. v = Accepted m i) \<or> (\<exists>r. v = Held_Back r)) \<and>
       length hist + length ks \<le> n + (sq_expected (ac_seq st) - e))"

lemma recovering_cong:
  "recovering f inb e n (st, wire, hist) \<Longrightarrow> ac_seq st' = ac_seq st \<Longrightarrow> recovering f inb e n (st', wire, hist)"
  by (simp add: recovering_def)

lemma recoveringE:
  assumes "recovering f inb e n (st, wire, hist)"
  obtains A ks where "holds_back f e n A (ac_seq st)" "wire = map f ks" "distinct ks" "set ks \<inter> A = {}" "A \<union> set ks = {e..<e + n}"
    "accepted_log hist = map (\<lambda>k. (f k, inb k)) [e..<sq_expected (ac_seq st)]"
    "\<forall>(v, _) \<in> set hist. (\<exists>m i. v = Accepted m i) \<or> (\<exists>r. v = Held_Back r)"
    "length hist + length ks \<le> n + (sq_expected (ac_seq st) - e)"
  using assms unfolding recovering_def by (auto simp del: map_eq_conv)

lemma holds_back_ready:
  assumes "holds_back f e n A sq"
  shows "fst (take_ready sq) = (if sq_expected sq \<in> A then Some (f (sq_expected sq)) else None)"
    "sq_expected sq \<notin> A \<Longrightarrow> snd (take_ready sq) = sq"
proof -
  have q: "bt_get (sq_queued sq) k = (if k \<in> A \<and> sq_expected sq \<le> k then Some (f k) else None)" for k
    using assms by (simp add: holds_back_def)
  show "fst (take_ready sq) = (if sq_expected sq \<in> A then Some (f (sq_expected sq)) else None)" by (simp add: take_ready_def q)
  assume "sq_expected sq \<notin> A"
  then have "sq_expected sq \<notin> fst ` set (sq_queued sq)" using q [of "sq_expected sq"] by (simp add: map_of_eq_None_iff)
  then show "snd (take_ready sq) = sq" by (simp add: take_ready_def bt_remove_idle)
qed

text \<open>The verdict on each message that may come next.\<close>

lemma inspect_genuine:
  assumes "genuine D pt p {e..<e + n} f inb" "n \<le> MAX_QUEUED_MESSAGES" "e + n \<le> u64_max"
    and "holds_back f e n A sq" "k \<in> {e..<e + n}" "sq_expected sq \<le> k" "k = sq_expected sq \<or> k \<notin> A"
  obtains (accepted) sq' where "k = sq_expected sq" "inspect D pt p (snd (take_ready sq)) (f k) = Some (Accepted (f k) (inb k), sq')"
      "holds_back f e n (insert k A) sq'" "sq_expected sq' = Suc k"
  | (held) r sq' where "sq_expected sq \<notin> A" "sq_expected sq < k" "inspect D pt p (snd (take_ready sq)) (f k) = Some (Held_Back r, sq')"
      "holds_back f e n (insert k A) sq'" "sq_expected sq' = sq_expected sq"
  | (other) "sq_expected sq \<in> A" "sq_expected sq < k"
proof -
  have g: "parse_required_seq (f k) = Inr k" "\<not> is_reset (f k)" "decode D (\<lambda>v s. pt v s \<noteq> None) (f k) = Some (Inr (inb k))"
    "inspect D pt p sq' (f k) = judge D pt sq' (f k)" for sq'
    using assms(1,5) validate_header_seq by (fastforce simp: genuine_def inspect_def)+
  let ?q = "snd (take_ready sq)"
  show thesis
  proof (cases "k = sq_expected sq")
    case True
    let ?s = "clear_resend (?q\<lparr>sq_expected := saturating_inc_u64 k\<rparr>)"
    have "holds_back f e n (insert k A) ?s \<and> sq_expected ?s = Suc (sq_expected sq)"
      using True assms(5) by (intro holds_back_next [OF assms(4) _ assms(3)]) (auto simp: take_ready_def)
    moreover have "judge D pt ?q (f k) = Some (Accepted (f k) (inb k), ?s)"
      using judge_expected [of "f k" ?q D pt "inb k"] g(1-3) True by simp
    ultimately show thesis using accepted True g(4) by metis
  next
    case False
    then have lt: "sq_expected sq < k" and k: "k \<notin> A" using assms(6,7) by auto
    show thesis
    proof (cases "sq_expected sq \<in> A")
      case True
      then show thesis using other lt by blast
    next
      case notin: False
      have "length (sq_queued sq) < MAX_QUEUED_MESSAGES" using holds_back_length [OF assms(4,5) k] assms(2) by simp
      moreover have "bt_get (sq_queued sq) k = None" using assms(4) k by (simp add: holds_back_def)
      ultimately obtain r sq' where j: "judge D pt sq (f k) = Some (Held_Back r, sq')" "sq_expected sq' = sq_expected sq"
        "sq_queued sq' = bt_insert k (f k) (sq_queued sq)"
        using judge_ahead [OF g(1,2) lt] by metis
      have "holds_back f e n (insert k A) sq'" by (rule holds_back_insert [OF assms(4,5) lt j(3,2)])
      then show thesis using held notin lt j holds_back_ready(2) [OF assms(4) notin] g(4) by metis
    qed
  qed
qed


text \<open>The message a turn takes: the expected one, if it was held back, else the next of the wire.\<close>

lemma next_genuine:
  assumes "holds_back f e n A (ac_seq st)" "arrival env st @ wire = map f ks" "set ks \<inter> A = {}" "A \<union> set ks = {e..<e + n}"
    and "next_message env st = (Got msg, st1)"
  obtains k where "msg = f k" "k \<in> {e..<e + n}" "sq_expected (ac_seq st) \<le> k" "k = sq_expected (ac_seq st) \<or> k \<notin> A"
    "k \<in> A \<and> k = sq_expected (ac_seq st) \<and> wire = map f ks \<or>
       sq_expected (ac_seq st) \<notin> A \<and> k \<notin> A \<and> (\<exists>ls. ks = k # ls \<and> wire = map f ls)"
proof -
  let ?x = "sq_expected (ac_seq st)"
  note r = holds_back_ready(1) [OF assms(1)]
  show thesis
  proof (cases "?x \<in> A")
    case True
    then have "arrival env st = []" "msg = f ?x" using r assms(5) by (auto simp: arrival_def next_message_def split: prod.splits)
    moreover have "?x \<in> {e..<e + n}" using True assms(4) by blast
    ultimately show thesis using that True assms(2) by simp
  next
    case False
    then have "tv_input env = Got msg" "arrival env st = [msg]"
      using r assms(5) by (auto simp: arrival_def next_message_def split: prod.splits)
    then obtain k ls where k: "ks = k # ls" "msg = f k" "wire = map f ls" using assms(2) by (cases ks) auto
    then have in_range: "k \<in> {e..<e + n}" "k \<notin> A" using assms(3,4) by auto
    moreover have "?x \<le> k" using in_range assms(1) by (auto simp: holds_back_def subset_iff not_le)
    ultimately show thesis using that k False by blast
  qed
qed

lemma recovering_turn:
  assumes "genuine D pt p {e..<e + n} f inb" "n \<le> MAX_QUEUED_MESSAGES" "e + n \<le> u64_max"
    and "recovering f inb e n (st, arrival env st @ wire, hist)" "turn_message D wd pt p env st = Some t"
  shows "recovering f inb e n (turn_state t, wire, hist @ turn_verdict D pt p env st)"
proof -
  let ?x = "sq_expected (ac_seq st)"
  obtain A ks where r: "holds_back f e n A (ac_seq st)" "arrival env st @ wire = map f ks" "distinct ks" "set ks \<inter> A = {}"
    "A \<union> set ks = {e..<e + n}" "accepted_log hist = map (\<lambda>k. (f k, inb k)) [e..<?x]"
    "\<forall>(v, _) \<in> set hist. (\<exists>m i. v = Accepted m i) \<or> (\<exists>r. v = Held_Back r)" "length hist + length ks \<le> n + (?x - e)"
    using assms(4) by (rule recoveringE)
  have e: "e \<le> ?x" using r(1) by (simp add: holds_back_def)
  from assms(5) show ?thesis
  proof (cases rule: turn_message_cases)
    case idle
    then have "?x \<notin> A" using holds_back_ready(1) [OF r(1)] by (auto split: if_splits)
    then have "ac_seq (turn_state t) = ac_seq st" using idle(4) holds_back_ready(2) [OF r(1)] by simp
    then show ?thesis using assms(4) idle(2,3) recovering_cong by simp
  next
    case (took msg st1 v sq)
    obtain k where k: "msg = f k" "k \<in> {e..<e + n}" "?x \<le> k" "k = ?x \<or> k \<notin> A"
      "k \<in> A \<and> k = ?x \<and> wire = map f ks \<or> ?x \<notin> A \<and> k \<notin> A \<and> (\<exists>ls. ks = k # ls \<and> wire = map f ls)"
      using next_genuine [OF r(1,2,4,5) took(1)] by metis
    obtain js where js: "wire = map f js" "distinct js" "set js \<inter> insert k A = {}" "insert k A \<union> set js = {e..<e + n}"
      "k \<in> A \<and> length js = length ks \<or> k \<notin> A \<and> Suc (length js) = length ks"
      using k(5) r(3-5) k(2) by (auto simp: insert_absorb)
    from assms(1-3) r(1) k(2-4) show ?thesis
    proof (cases rule: inspect_genuine)
      case (accepted sq')
      then have v: "v = Accepted (f k) (inb k)" "sq = sq'" using took(2) k(1) by auto
      have "accepted_log (hist @ turn_verdict D pt p env st) = map (\<lambda>k. (f k, inb k)) [e..<Suc k]"
        using r(6) accepted(1) e by (simp add: took(4) v)
      moreover have "length (hist @ turn_verdict D pt p env st) + length js \<le> n + (Suc k - e)"
        using r(8) js(5) accepted(1) e by (auto simp: took(4))
      ultimately show ?thesis
        using accepted(3,4) js(1-4) r(7) took(5) v
        by (auto simp: recovering_def took(4) simp del: map_eq_conv intro!: exI [of _ "insert k A"] exI [of _ js])
    next
      case (held h sq')
      then have v: "v = Held_Back h" "sq = sq'" using took(2) k(1) by auto
      have "k \<notin> A" using held(2) k(4) by blast
      then have "length (hist @ turn_verdict D pt p env st) + length js \<le> n + (?x - e)" using r(8) js(5) by (auto simp: took(4))
      then show ?thesis
        using held(4,5) js(1-4) r(6,7) took(5) v
        by (auto simp: recovering_def took(4) simp del: map_eq_conv intro!: exI [of _ "insert k A"] exI [of _ js])
    next
      case other
      then show ?thesis using k(5) by auto
    qed
  qed
qed

text \<open>A turn goes on, or the handler of the message it accepts panics.\<close>

lemma recovering_goes_on:
  assumes "genuine D pt p {e..<e + n} f inb" "n \<le> MAX_QUEUED_MESSAGES" "e + n \<le> u64_max"
    and "recovering f inb e n (st, arrival env st @ wire, hist)"
    and "fst (take_ready (ac_seq st)) = None \<Longrightarrow> tv_input env \<notin> {Eof, ReadFailed}"
  shows "(\<exists>st'. turn_message D wd pt p env st = Some (Continue st')) \<or>
    turn_message D wd pt p env st = None \<and> (\<exists>k \<in> {e..<e + n}. \<exists>st'. dispatch D wd p env st' (f k) (inb k) = None)"
proof -
  obtain A ks where r: "holds_back f e n A (ac_seq st)" "arrival env st @ wire = map f ks" "distinct ks" "set ks \<inter> A = {}"
    "A \<union> set ks = {e..<e + n}"
    using assms(4) by (rule recoveringE)
  obtain inp st1 where nm: "next_message env st = (inp, st1)" by fastforce
  note q = next_message_seq [OF nm]
  show ?thesis
  proof (cases inp)
    case (Got msg)
    obtain k where k: "msg = f k" "k \<in> {e..<e + n}" "sq_expected (ac_seq st) \<le> k" "k = sq_expected (ac_seq st) \<or> k \<notin> A"
      "sq_expected (ac_seq st) \<in> A \<longrightarrow> k = sq_expected (ac_seq st)"
      using next_genuine [OF r(1,2,4,5) nm [unfolded Got]] by metis
    from assms(1-3) r(1) k(2-4) show ?thesis
    proof (cases rule: inspect_genuine)
      case (accepted sq')
      then have t: "turn_message D wd pt p env st = dispatch D wd p env (clear_test (st1\<lparr>ac_seq := sq'\<rparr>) (f k)) (f k) (inb k)"
        using nm Got k(1) q by (simp add: turn_message_def process_message_def react_def)
      have "inb k \<noteq> Logout" using assms(1) k(2) by (simp add: genuine_def)
      then have goes_on: "\<exists>st'. t' = Continue st'" if "turn_message D wd pt p env st = Some t'" for t'
        using that unfolding t using dispatch_continues by metis
      show ?thesis
      proof (cases "turn_message D wd pt p env st")
        case None
        then have "dispatch D wd p env (clear_test (st1\<lparr>ac_seq := sq'\<rparr>) (f k)) (f k) (inb k) = None" using t by simp
        then show ?thesis using None k(2) by blast
      next
        case (Some t')
        then show ?thesis using goes_on by blast
      qed
    next
      case (held h sq')
      then show ?thesis
        using nm Got k(1) q by (auto simp: turn_message_def process_message_def react_def split: option.split)
    qed (use k(5) in auto)
  qed (use nm assms(5) in \<open>auto simp: turn_message_def next_message_def split: prod.splits option.splits\<close>)
qed


lemma recovering_run:
  assumes "genuine D pt p {e..<e + n} f inb" "n \<le> MAX_QUEUED_MESSAGES" "e + n \<le> u64_max"
    and "run (reading D wd pt p) s ls s'" "recovering f inb e n s"
  shows "recovering f inb e n s'"
  using assms(4,5)
proof (induction rule: run.induct)
  case (run_cons s l t ls u)
  from run_cons.hyps(1) have "recovering f inb e n t"
  proof (cases rule: reading.cases)
    case (polled env st st' wire hist)
    then show ?thesis using run_cons.prems poll_seq recovering_cong by metis
  next
    case (message env st t' wire hist)
    then show ?thesis using recovering_turn [OF assms(1-3)] run_cons.prems by blast
  next
    case (elsewhere st wire hist c)
    then show ?thesis using run_cons.prems recovering_cong [of f inb e n st wire hist "st\<lparr>ac_conn := c\<rparr>"] by simp
  qed
  then show ?case by (rule run_cons.IH)
qed simp

text \<open>
  C26. A gap is always recovered: when the messages numbered \<open>e\<close> to \<open>e + n - 1\<close> (genuine ones, at most as many as
  the reader is willing to hold back, none of them a Logout) arrive in any order whatsoever, whatever happens elsewhere
  in between, the loop of the exchange never refuses, rejects or loses one of them: at every moment
  it has acted on exactly the messages from \<open>e\<close> up to the expected number, each once and in the order
  of the numbers; the next read goes on and does not end the loop, unless the handler of one of these messages panics;
  the turns that take a message are at most \<open>2 n\<close>; and once the wire is empty and no held message is ready,
  all of them have been acted on, nothing is held back, and number \<open>e + n\<close> is expected.
\<close>

theorem reordered_messages_recovered:
  assumes "genuine D pt p {e..<e + n} f inb" "n \<le> MAX_QUEUED_MESSAGES" "e + n \<le> u64_max"
    and "distinct ks" "set ks = {e..<e + n}" "ac_seq st0 = sequence_new e"
    and "run (reading D wd pt p) (st0, map f ks, []) ls (st, wire, hist)"
  shows "accepted_log hist = map (\<lambda>k. (f k, inb k)) [e..<sq_expected (ac_seq st)] \<and>
    (\<forall>(v, _) \<in> set hist. (\<exists>m i. v = Accepted m i) \<or> (\<exists>r. v = Held_Back r)) \<and> length hist \<le> 2 * n \<and>
    (\<forall>env. (\<exists>rest. wire = arrival env st @ rest) \<and> tv_input env \<notin> {Eof, ReadFailed} \<longrightarrow>
       (\<exists>st'. turn_message D wd pt p env st = Some (Continue st')) \<or>
       turn_message D wd pt p env st = None \<and> (\<exists>k \<in> {e..<e + n}. \<exists>st'. dispatch D wd p env st' (f k) (inb k) = None)) \<and>
    (wire = [] \<and> fst (take_ready (ac_seq st)) = None \<longrightarrow> sq_expected (ac_seq st) = e + n \<and> sq_queued (ac_seq st) = [])"
proof -
  have "holds_back f e n {} (sequence_new e)" by (simp add: holds_back_def sequence_new_def)
  then have "recovering f inb e n (st0, map f ks, [])"
    using assms(4-6) distinct_card [OF assms(4)] unfolding recovering_def
    by (auto simp: sequence_new_def simp del: map_eq_conv intro!: exI [of _ "{}"] exI [of _ ks])
  then have inv: "recovering f inb e n (st, wire, hist)" by (rule recovering_run [OF assms(1-3,7)])
  obtain A js where r: "holds_back f e n A (ac_seq st)" "wire = map f js" "A \<union> set js = {e..<e + n}"
    "accepted_log hist = map (\<lambda>k. (f k, inb k)) [e..<sq_expected (ac_seq st)]"
    "\<forall>(v, _) \<in> set hist. (\<exists>m i. v = Accepted m i) \<or> (\<exists>r. v = Held_Back r)"
    "length hist + length js \<le> n + (sq_expected (ac_seq st) - e)"
    using inv by (rule recoveringE)
  have x: "sq_expected (ac_seq st) \<le> e + n" using r(1) by (simp add: holds_back_def)
  have "sq_expected (ac_seq st) = e + n \<and> sq_queued (ac_seq st) = []"
    if "wire = []" "fst (take_ready (ac_seq st)) = None"
  proof -
    have A: "A = {e..<e + n}" using that(1) r(2,3) by simp
    have "sq_expected (ac_seq st) \<notin> A" using that(2) holds_back_ready(1) [OF r(1)] by (auto split: if_splits)
    then have "sq_expected (ac_seq st) = e + n" using A x r(1) by (auto simp: holds_back_def)
    moreover from this have "sq_queued (ac_seq st) = []"
      using r(1) A by (intro bt_get_empty) (auto simp: holds_back_def)
    ultimately show ?thesis by blast
  qed
  moreover have "length hist \<le> 2 * n" using r(6) x by linarith
  moreover have "(\<exists>st'. turn_message D wd pt p env st = Some (Continue st')) \<or>
       turn_message D wd pt p env st = None \<and> (\<exists>k \<in> {e..<e + n}. \<exists>st'. dispatch D wd p env st' (f k) (inb k) = None)"
    if "wire = arrival env st @ rest" "tv_input env \<notin> {Eof, ReadFailed}" for env rest
    using recovering_goes_on [OF assms(1-3) inv [unfolded that(1)]] that(2) by blast
  ultimately show ?thesis using r(4,5) by blast
qed


section \<open>Witnesses\<close>

definition sample_beat :: "nat \<Rightarrow> fix_message" where
  "sample_beat k = wire_message ''FIX.4.2'' ''0'' k ''C1'' ''EX'' sample_time [] []"

definition sample_env :: "fix_message \<Rightarrow> turn_env" where
  "sample_env m = \<lparr>tv_now = 0, tv_today = 0, tv_time = sample_time, tv_reject_id = 1, tv_input = Got m\<rparr>"

lemma sample_beat_genuine:
  assumes "K \<subseteq> {1..u64_max}"
  shows "genuine sample_codec sample_parser sample_peer K sample_beat (\<lambda>_. Heartbeat)"
proof -
  have "validate_header sample_parser (sample_beat k) ''FIX.4.2'' ''C1'' ''EX'' = Inr k" if "0 < k" "k \<le> u64_max" for k
    using that by (simp add: validate_header_def sample_beat_def header_fields_def
        validate_unique_header_tag_def validate_timestamp_fields_def parse_required_text_def parse_fix_timestamp_def
        sample_parser_def sample_time_def parse_required_u64_def parse_required_seq_def show_nat_nonempty)
  moreover have "decode sample_codec (\<lambda>v f. sample_parser v f \<noteq> None) (sample_beat k) = Some (Inr Heartbeat)" for k
    unfolding sample_beat_def
    by (rule decode_encodes [of sample_codec sample_time "''q''"])
      (auto simp: values_ok_def header_fields_def sample_time_def validate_timestamp_def sample_parser_def show_nat_nonempty
        intro: heartbeat [of _ _ _ None, unfolded build_heartbeat_def, simplified])
  moreover have "\<not> is_reset (sample_beat k)" for k
    by (simp add: is_reset_def sample_beat_def fm_msg_type_def header_fields_def)
  moreover have "0 < k \<and> k \<le> u64_max" if "k \<in> K" for k using assms that by auto
  ultimately show ?thesis by (simp add: genuine_def sample_peer_def sample_config_def)
qed

lemma sample_beat_inspect:
  assumes "1 \<le> k" "k \<le> u64_max"
  shows "inspect sample_codec sample_parser sample_peer sq (sample_beat k) = judge sample_codec sample_parser sq (sample_beat k)"
    "parse_required_seq (sample_beat k) = Inr k" "\<not> is_reset (sample_beat k)"
    "decode sample_codec (\<lambda>v f. sample_parser v f \<noteq> None) (sample_beat k) = Some (Inr Heartbeat)"
  using sample_beat_genuine [of "{k}"] assms validate_header_seq by (fastforce simp: genuine_def inspect_def)+

definition sample_gap :: acceptor where
  "sample_gap = ac_post (sample_acceptor\<lparr>ac_seq := \<lparr>sq_expected = 2, sq_queued = [(3, sample_beat 3)], sq_resend_from = Some 2\<rparr>\<rparr>)
     (resend_request 2)"

lemma sample_turns:
  "turn_message sample_codec wd sample_parser sample_peer (sample_env (sample_beat 3)) sample_acceptor = Some (Continue sample_gap)"
  "turn_message sample_codec wd sample_parser sample_peer (sample_env (sample_beat 2)) sample_gap =
     Some (Continue (sample_gap\<lparr>ac_seq := \<lparr>sq_expected = 3, sq_queued = [(3, sample_beat 3)], sq_resend_from = None\<rparr>\<rparr>))"
  "turn_message sample_codec wd sample_parser sample_peer (sample_env (sample_beat 2))
     (sample_gap\<lparr>ac_seq := \<lparr>sq_expected = 3, sq_queued = [(3, sample_beat 3)], sq_resend_from = None\<rparr>\<rparr>) =
     Some (Continue (sample_gap\<lparr>ac_seq := \<lparr>sq_expected = 4, sq_queued = [], sq_resend_from = None\<rparr>\<rparr>))"
  using sample_beat_inspect [of 2] sample_beat_inspect [of 3]
  by (simp_all add: turn_message_def next_message_def take_ready_def process_message_def judge_def classify_def classify_seq_def
      advance_def clear_resend_def saturating_inc_u64_def react_def dispatch_def clear_test_def sample_env_def sample_gap_def
      sample_acceptor_def sequence_new_def MAX_QUEUED_MESSAGES_def)

lemma sample_verdicts:
  "turn_verdict sample_codec sample_parser sample_peer (sample_env (sample_beat 3)) sample_acceptor = [(Held_Back (Some 2), 2)]"
  "turn_verdict sample_codec sample_parser sample_peer (sample_env (sample_beat 2)) sample_gap = [(Accepted (sample_beat 2) Heartbeat, 3)]"
  "turn_verdict sample_codec sample_parser sample_peer (sample_env (sample_beat 2))
     (sample_gap\<lparr>ac_seq := \<lparr>sq_expected = 3, sq_queued = [(3, sample_beat 3)], sq_resend_from = None\<rparr>\<rparr>) =
     [(Accepted (sample_beat 3) Heartbeat, 4)]"
  using sample_beat_inspect [of 2] sample_beat_inspect [of 3]
  by (simp_all add: turn_verdict_def next_message_def take_ready_def judge_def classify_def classify_seq_def
      advance_def clear_resend_def saturating_inc_u64_def sample_env_def sample_gap_def
      sample_acceptor_def sequence_new_def MAX_QUEUED_MESSAGES_def)

definition sample_history :: verdict_log where
  "sample_history = [(Held_Back (Some 2), 2), (Accepted (sample_beat 2) Heartbeat, 3), (Accepted (sample_beat 3) Heartbeat, 4)]"

lemma sample_run:
  obtains ls st where "run (reading sample_codec wd sample_parser sample_peer)
       (sample_acceptor, [sample_beat 3, sample_beat 2], []) ls (st, [], sample_history)"
    "ac_seq st = \<lparr>sq_expected = 4, sq_queued = [], sq_resend_from = None\<rparr>"
proof -
  note m = message [where D = sample_codec and pt = sample_parser and p = sample_peer and wd = wd]
  have a: "arrival (sample_env (sample_beat 3)) sample_acceptor = [sample_beat 3]"
    "arrival (sample_env (sample_beat 2)) sample_gap = [sample_beat 2]"
    "arrival (sample_env (sample_beat 2))
      (sample_gap\<lparr>ac_seq := \<lparr>sq_expected = 3, sq_queued = [(3, sample_beat 3)], sq_resend_from = None\<rparr>\<rparr>) = []"
    by (simp_all add: arrival_def sample_env_def sample_acceptor_def sample_gap_def take_ready_def sequence_new_def)
  note steps = m [OF sample_turns(1), of "[sample_beat 2]" "[]"] m [OF sample_turns(2), of "[]" "[(Held_Back (Some 2), 2)]"]
    m [OF sample_turns(3), of "[]" "[(Held_Back (Some 2), 2), (Accepted (sample_beat 2) Heartbeat, 3)]"]
  note steps = steps [unfolded a sample_verdicts turn_state.simps append.simps, folded sample_history_def]
  show thesis
    by (rule that, rule run_cons, rule steps(1), rule run_cons, rule steps(2), rule run_cons, rule steps(3), rule run_nil) simp
qed

theorem reordered_messages_recovered_witness:
  "\<exists>st ls. run (reading sample_codec sample_wording sample_parser sample_peer)
       (sample_acceptor, [sample_beat 3, sample_beat 2], []) ls (st, [], sample_history) \<and>
     accepted_log sample_history = [(sample_beat 2, Heartbeat), (sample_beat 3, Heartbeat)] \<and> sq_queued (ac_seq st) = []"
proof -
  obtain ls st where r: "run (reading sample_codec sample_wording sample_parser sample_peer)
      (sample_acceptor, [sample_beat 3, sample_beat 2], []) ls (st, [], sample_history)"
      "ac_seq st = \<lparr>sq_expected = 4, sq_queued = [], sq_resend_from = None\<rparr>"
    by (rule sample_run)
  have K: "{2..<2 + 2 :: nat} = {3, 2}" "[2..<4 :: nat] = [2, 3]" by (auto simp: upt_rec)
  have g: "genuine sample_codec sample_parser sample_peer {2..<2 + 2} sample_beat (\<lambda>_. Heartbeat)"
    by (rule sample_beat_genuine) auto
  have "run (reading sample_codec sample_wording sample_parser sample_peer) (sample_acceptor, map sample_beat [3, 2], []) ls
      (st, [], sample_history)"
    using r(1) by simp
  from reordered_messages_recovered [OF g _ _ _ _ _ this] r show ?thesis
    using K by (auto simp: MAX_QUEUED_MESSAGES_def sample_acceptor_def)
qed

theorem delivered_in_order_witness:
  "\<exists>st ls. run (reading sample_codec sample_wording sample_parser sample_peer)
       (sample_acceptor, [sample_beat 3, sample_beat 2], []) ls (st, [], sample_history) \<and>
     ordinary (used_log sample_history) = [2..<sq_expected (ac_seq st)] \<and>
     sorted_wrt (<) (ordinary (map fst (accepted_log sample_history)))"
proof -
  obtain ls st where r: "run (reading sample_codec sample_wording sample_parser sample_peer)
      (sample_acceptor, [sample_beat 3, sample_beat 2], []) ls (st, [], sample_history)"
      "ac_seq st = \<lparr>sq_expected = 4, sq_queued = [], sq_resend_from = None\<rparr>"
    by (rule sample_run)
  have "sq_expected (ac_seq sample_acceptor) = 2" by (simp add: sample_acceptor_def sequence_new_def)
  moreover have "\<forall>m \<in> set (used_log sample_history). \<not> is_reset m"
    using sample_beat_inspect(3) [of 2] sample_beat_inspect(3) [of 3]
    by (simp add: sample_history_def used_log_def List.map_filter_def)
  ultimately show ?thesis using delivered_in_order [OF r(1)] r(1) by (auto simp: sample_history_def)
qed

end
