(* ===== verification/Acceptor_Liveness.thy ===== *)
theory Acceptor_Liveness
  imports Acceptor_Properties
begin

text \<open>
  A session does not outlive its peer: turns in which the socket gives nothing lead through the probe to the
  end of the loop.
\<close>

lemma acceptor_loop_append:
  "acceptor_loop D wd pt p (xs @ ys) st =
     (case acceptor_loop D wd pt p xs st of
        None \<Rightarrow> None | Some (Inl c) \<Rightarrow> Some (Inl c) | Some (Inr st') \<Rightarrow> acceptor_loop D wd pt p ys st')"
  by (induction xs arbitrary: st) (auto split: option.splits turn.splits)

text \<open>No message waits for its turn.\<close>

definition nothing_ready :: "acceptor \<Rightarrow> bool" where
  "nothing_ready st \<longleftrightarrow> bt_get (sq_queued (ac_seq st)) (sq_expected (ac_seq st)) = None"

text \<open>The probe of the peer: not yet sent, or sent with a deadline of at most \<open>t\<close>.\<close>

definition probe_by :: "nat \<Rightarrow> nat \<Rightarrow> acceptor \<Rightarrow> bool" where
  "probe_by heard t st \<longleftrightarrow>
     (case ac_pending st of None \<Rightarrow> ac_last st = heard | Some (_, deadline) \<Rightarrow> deadline \<le> t)"

lemma quiet_turn:
  assumes "tv_input env = TimedOut" "nothing_ready st" "acceptor_turn D wd pt p env st = Some (Continue st')"
  shows "nothing_ready st'"
    "ac_pending st = Some (i, deadline) \<Longrightarrow> ac_pending st' = Some (i, deadline) \<and> tv_now env < deadline"
    "ac_pending st = None \<Longrightarrow> ac_last st' = ac_last st \<and>
       ac_pending st' = (if fst (peer_timeouts (pe_heart p)) \<le> tv_now env - ac_last st
         then Some (''probe-'' @ show_nat (sq_expected (ac_seq st)), tv_now env + snd (peer_timeouts (pe_heart p))) else None)"
proof -
  let ?sq = "snd (take_ready (ac_seq st))"
  have r: "take_ready (ac_seq st) = (None, ?sq)" "sq_expected ?sq = sq_expected (ac_seq st)"
    "bt_get (sq_queued ?sq) (sq_expected ?sq) = None"
    using assms(2) by (simp_all add: take_ready_def nothing_ready_def)
  have idle: "next_message env (st\<lparr>ac_conn := c\<rparr>) = (TimedOut, st\<lparr>ac_conn := c, ac_seq := ?sq\<rparr>)" for c
    using assms(1) r(1) by (cases "take_ready (ac_seq st)") (simp add: next_message_def)
  obtain e where e: "st' = probe_peer p env (st\<lparr>ac_conn := after_engine (pe_session p) (ac_conn st) e, ac_seq := ?sq\<rparr>)"
    "\<not> (case ac_pending st of None \<Rightarrow> False | Some (_, deadline) \<Rightarrow> deadline \<le> tv_now env)"
    using assms(3)
    by (auto simp: acceptor_turn_def turn_poll_def turn_message_def idle rust_bind Let_def split: if_splits option.splits turn.splits)
  show "nothing_ready st'" using r(2,3) by (simp add: e(1) probe_peer_def nothing_ready_def Let_def)
  show "ac_pending st' = Some (i, deadline) \<and> tv_now env < deadline" if "ac_pending st = Some (i, deadline)"
    using e that by (simp add: probe_peer_def)
  show "ac_last st' = ac_last st \<and> ac_pending st' = (if fst (peer_timeouts (pe_heart p)) \<le> tv_now env - ac_last st
      then Some (''probe-'' @ show_nat (sq_expected (ac_seq st)), tv_now env + snd (peer_timeouts (pe_heart p))) else None)"
    if "ac_pending st = None"
    using that r(2) by (simp add: e(1) probe_peer_def Let_def)
qed

lemma quiet_turns:
  assumes "acceptor_loop D wd pt p es st = Some (Inr st')" "\<forall>env \<in> set es. tv_input env = TimedOut \<and> tv_now env \<le> t"
    "nothing_ready st" "probe_by heard (t + snd (peer_timeouts (pe_heart p))) st"
  shows "nothing_ready st' \<and> probe_by heard (t + snd (peer_timeouts (pe_heart p))) st'"
  using assms
proof (induction es arbitrary: st)
  case (Cons env es)
  obtain st1 where st1: "acceptor_turn D wd pt p env st = Some (Continue st1)" "acceptor_loop D wd pt p es st1 = Some (Inr st')"
    using Cons.prems(1) by (auto split: option.splits turn.splits)
  have env: "tv_input env = TimedOut" "tv_now env \<le> t" using Cons.prems(2) by simp_all
  note q = quiet_turn [OF env(1) Cons.prems(3) st1(1)]
  have "probe_by heard (t + snd (peer_timeouts (pe_heart p))) st1"
    using Cons.prems(4) q(2,3) env(2) by (cases "ac_pending st") (auto simp: probe_by_def split: if_splits)
  then show ?case using Cons.IH [OF st1(2)] Cons.prems(2) q(1) by simp
qed simp

text \<open>A sent probe stays until its deadline.\<close>

lemma quiet_pending:
  assumes "acceptor_loop D wd pt p es st = Some (Inr st')" "\<forall>env \<in> set es. tv_input env = TimedOut"
    "nothing_ready st" "ac_pending st = Some (i, deadline)"
  shows "nothing_ready st' \<and> ac_pending st' = Some (i, deadline) \<and> (\<forall>env \<in> set es. tv_now env < deadline)"
  using assms
proof (induction es arbitrary: st)
  case (Cons env es)
  obtain st1 where st1: "acceptor_turn D wd pt p env st = Some (Continue st1)" "acceptor_loop D wd pt p es st1 = Some (Inr st')"
    using Cons.prems(1) by (auto split: option.splits turn.splits)
  have env: "tv_input env = TimedOut" using Cons.prems(2) by simp
  note q = quiet_turn [OF env Cons.prems(3) st1(1)]
  show ?case using Cons.IH [OF st1(2)] Cons.prems(2,4) q by simp
qed simp

lemma leave_gone: "leave_session D p logout st = Some c \<Longrightarrow> bt_get (en_sessions (cn_engine c)) (pe_session p) = None"
  using session_disconnect_frame(1) by (auto simp: leave_session_def rust_bind Let_def after_engine_def)

lemma loop_left: "acceptor_loop D wd pt p es st = Some (Inl c) \<Longrightarrow> bt_get (en_sessions (cn_engine c)) (pe_session p) = None"
  by (induction es arbitrary: st) (auto dest: leave_gone split: option.splits turn.splits)

text \<open>
  C37. A silent peer is dropped: while the socket gives nothing, a turn at a time when the peer has been silent for
  1.2 heartbeat intervals and a later turn another 2.4 intervals after it end the loop, whatever turns come
  before, between and after; the session is then gone from the engine. (Only a panic of the engine could
  prevent it.)
\<close>

theorem silent_peer_dropped:
  assumes "\<forall>env \<in> set (before @ b # between @ [d]). tv_input env = TimedOut" "\<forall>env \<in> set before. tv_now env \<le> tv_now b"
    "ac_last st + fst (peer_timeouts (pe_heart p)) \<le> tv_now b" "tv_now b + snd (peer_timeouts (pe_heart p)) \<le> tv_now d"
    "ac_pending st = None" "nothing_ready st"
  shows "case acceptor_loop D wd pt p (before @ b # between @ d # after) st of
    None \<Rightarrow> True | Some (Inr _) \<Rightarrow> False | Some (Inl c) \<Rightarrow> bt_get (en_sessions (cn_engine c)) (pe_session p) = None"
proof -
  let ?close = "snd (peer_timeouts (pe_heart p))"
  have "False" if loop: "acceptor_loop D wd pt p (before @ [b] @ between @ [d]) st = Some (Inr st')" for st'
  proof -
    obtain s1 s2 where s1: "acceptor_loop D wd pt p before st = Some (Inr s1)" "acceptor_loop D wd pt p [b] s1 = Some (Inr s2)"
      "acceptor_loop D wd pt p (between @ [d]) s2 = Some (Inr st')"
      using loop unfolding acceptor_loop_append [of D wd pt p before] acceptor_loop_append [of D wd pt p "[b]"]
      by (auto split: option.splits sum.splits)
    have "nothing_ready s1 \<and> probe_by (ac_last st) (tv_now b + ?close) s1"
      by (rule quiet_turns [OF s1(1)]) (use assms in \<open>auto simp: probe_by_def\<close>)
    moreover have "acceptor_turn D wd pt p b s1 = Some (Continue s2)" using s1(2) by (auto split: option.splits turn.splits)
    moreover have "tv_input b = TimedOut" "fst (peer_timeouts (pe_heart p)) \<le> tv_now b - ac_last st" using assms(1,3) by simp_all
    ultimately obtain i dl where s2: "nothing_ready s2" "ac_pending s2 = Some (i, dl)" "dl \<le> tv_now b + ?close"
      using quiet_turn [of b s1 D wd pt p s2] by (cases "ac_pending s1") (auto simp: probe_by_def)
    have "tv_now d < dl"
      using quiet_pending [OF s1(3) _ s2(1,2)] assms(1) by simp
    then show False using s2(3) assms(4) by simp
  qed
  then have end_reached: "\<forall>st'. acceptor_loop D wd pt p (before @ [b] @ between @ [d]) st \<noteq> Some (Inr st')" by blast
  have "acceptor_loop D wd pt p (before @ b # between @ d # after) st = acceptor_loop D wd pt p ((before @ [b] @ between @ [d]) @ after) st"
    by simp
  then have "\<forall>st'. acceptor_loop D wd pt p (before @ b # between @ d # after) st \<noteq> Some (Inr st')"
    using end_reached unfolding acceptor_loop_append [of D wd pt p "before @ [b] @ between @ [d]"] by (auto split: option.splits sum.splits)
  then show ?thesis using loop_left by (fastforce split: option.splits sum.splits)
qed

theorem silent_peer_dropped_witness:
  "\<exists>c. acceptor_loop sample_codec sample_wording sample_parser sample_peer (map (\<lambda>t. \<lparr>tv_now = t, tv_today = 0, tv_time = sample_time,
       tv_reject_id = 1, tv_input = TimedOut\<rparr>) [500, 36000, 60000, 108000, 108500]) sample_acceptor = Some (Inl c) \<and>
     bt_get (en_sessions (cn_engine c)) (pe_session sample_peer) = None"
proof -
  let ?env = "\<lambda>t. \<lparr>tv_now = t, tv_today = 0, tv_time = sample_time, tv_reject_id = 1, tv_input = TimedOut\<rparr>"
  let ?envs = "map ?env [500, 36000, 60000, 108000, 108500]"
  have "acceptor_loop sample_codec sample_wording sample_parser sample_peer ?envs sample_acceptor \<noteq> None"
    by (simp add: acceptor_turn_def turn_poll_def turn_message_def next_message_def expire_day_orders_at_def publish_market_data_def sample_acceptor_def sample_connection_def engine_new_def with_fill_policy_def
        channel_new_def channel_with_flag_def take_ready_def sequence_new_def probe_peer_def sample_peer_def peer_timeouts_def
        after_engine_def deliver_def post_def send_q_def try_send_def CAPACITY_def leave_session_def session_disconnect_def Let_def)
  moreover have "nothing_ready sample_acceptor" "ac_pending sample_acceptor = None" "ac_last sample_acceptor = 0"
    by (simp_all add: nothing_ready_def sample_acceptor_def sequence_new_def)
  moreover note silent_peer_dropped [of "[?env 500]" "?env 36000" "[?env 60000]" "?env 108000" sample_acceptor sample_peer
      sample_codec sample_wording sample_parser "[?env 108500]"]
  ultimately show ?thesis by (auto simp: sample_peer_def peer_timeouts_def split: option.splits sum.splits)
qed

end
