(* ===== verification/Exchange_System.thy ===== *)
theory Exchange_System
  imports Acceptor_Properties
begin

text \<open>
  The exchange as it runs (\<open>run_acceptor_on\<close> and \<open>handle_acceptor_connection\<close> of \<open>src/fix/session.rs\<close>): any
  number of connections, each with a reader and a writer thread, around one engine behind a lock and one set
  of active sessions. A step is what one thread does between two points where others can intervene: a
  connection handler's Logon, the two halves of a reader's turn, its departure and its end, and one turn of a
  writer. The engine's reports to a session go into the mailbox of the
  connection that holds the session, whoever made the call.
\<close>

section \<open>State\<close>

datatype phase = Reading | Polled | Leaving "fields option" | Departed

text \<open>
  A live connection. The engine inside its acceptor state is a copy that is refreshed before each use.
  \<open>lv_wire\<close> are the frames on the socket. Two fields record history only: the messages the writer has
  taken, and the length of the engine's log at the Logon.
\<close>

record live =
  lv_peer :: peer
  lv_state :: acceptor
  lv_phase :: phase
  lv_writer :: writer_state
  lv_writing :: bool
  lv_wire :: "string list"
  lv_taken :: "out_msg list"
  lv_since :: nat

record exchange =
  sy_engine :: engine
  sy_active :: "string set"
  sy_live :: "nat \<Rightarrow> live option"

text \<open>The exchange when it starts to listen: an engine with the instruments of the file, which must load.\<close>

definition exchange_new :: "fill_policy \<Rightarrow> (unit + string) list \<Rightarrow> exchange option" where
  "exchange_new policy ls =
     (case load_instruments (with_fill_policy policy) ls of
        (Inl _, _) \<Rightarrow> None
      | (Inr _, e) \<Rightarrow> Some \<lparr>sy_engine = e, sy_active = {}, sy_live = Map.empty\<rparr>)"

abbreviation lv_session :: "live \<Rightarrow> string" where
  "lv_session l \<equiv> pe_session (lv_peer l)"

definition lv_box :: "live \<Rightarrow> mailbox" where
  "lv_box l = cn_tx (ac_conn (lv_state l))"

definition with_box :: "live \<Rightarrow> mailbox \<Rightarrow> live" where
  "with_box l tx = l\<lparr>lv_state := (lv_state l)\<lparr>ac_conn := (ac_conn (lv_state l))\<lparr>cn_tx := tx\<rparr>\<rparr>\<rparr>"

section \<open>Steps\<close>

text \<open>The state with which a reader enters the engine.\<close>

definition resume :: "exchange \<Rightarrow> live \<Rightarrow> acceptor" where
  "resume y l = (lv_state l)\<lparr>ac_conn := (ac_conn (lv_state l))\<lparr>cn_engine := sy_engine y\<rparr>\<rparr>"

text \<open>Another connection, after a call has moved the engine from \<open>e\<close> to \<open>e'\<close>.\<close>

definition told :: "engine \<Rightarrow> engine \<Rightarrow> live \<Rightarrow> live" where
  "told e e' l = with_box l (deliver (lv_box l) (engine_reports (lv_session l) e e'))"

definition settle :: "exchange \<Rightarrow> nat \<Rightarrow> live \<Rightarrow> exchange" where
  "settle y k l =
     (let e = cn_engine (ac_conn (lv_state l))
      in y\<lparr>sy_engine := e,
           sy_live := (\<lambda>j. if j = k then Some l else map_option (told (sy_engine y) e) (sy_live y j))\<rparr>)"

definition after_turn :: "phase \<Rightarrow> live \<Rightarrow> turn \<Rightarrow> live" where
  "after_turn ph l t =
     (case t of
        Continue st \<Rightarrow> l\<lparr>lv_state := st, lv_phase := ph\<rparr>
      | Leave logout st \<Rightarrow> l\<lparr>lv_state := st, lv_phase := Leaving logout\<rparr>)"

definition peer_writer :: "peer \<Rightarrow> writer_state" where
  "peer_writer p =
     \<lparr>ws_begin = cfg_begin (pe_cfg p), ws_sender = cfg_sender (pe_cfg p), ws_target = pe_client p, ws_seq = 0\<rparr>"

definition live_connection :: "engine \<Rightarrow> peer \<Rightarrow> acceptor \<Rightarrow> live" where
  "live_connection e p st =
     \<lparr>lv_peer = p, lv_state = st, lv_phase = Reading,
      lv_writer = peer_writer p,
      lv_writing = True, lv_wire = [], lv_taken = [], lv_since = length (en_sent e)\<rparr>"

text \<open>
  One turn of the writer; \<open>ok\<close> says whether the socket takes the bytes. When the writer ends, its end of
  the mailbox is dropped.
\<close>

definition writer_ends :: "live \<Rightarrow> live" where
  "writer_ends l = (with_box l (drop_receiver (lv_box l)))\<lparr>lv_writing := False\<rparr>"

definition take_mail :: "live \<Rightarrow> out_msg \<times> live" where
  "take_mail l =
     (case recv (lv_box l) of
        None \<Rightarrow> (OutMessage ''0'' [], l)
      | Some (m, tx) \<Rightarrow> (m, (with_box l tx)\<lparr>lv_taken := lv_taken l @ [m]\<rparr>))"

definition writer_turn_live :: "decimal_ops \<Rightarrow> string \<Rightarrow> bool \<Rightarrow> live \<Rightarrow> live" where
  "writer_turn_live D time ok l =
     (if ch_failed (lv_box l) then writer_ends l
      else case take_mail l of
        (m, l) \<Rightarrow>
          (case write_one D time (Some (cn_ids (ac_conn (lv_state l)))) (lv_writer l) m of
             (Close, ws) \<Rightarrow> writer_ends (l\<lparr>lv_writer := ws\<rparr>)
           | (Skip, ws) \<Rightarrow> l\<lparr>lv_writer := ws\<rparr>
           | (WriteAndClose bytes, ws) \<Rightarrow> writer_ends (l\<lparr>lv_writer := ws, lv_wire := lv_wire l @ (if ok then [bytes] else [])\<rparr>)
           | (Write bytes, ws) \<Rightarrow>
               if ok then l\<lparr>lv_writer := ws, lv_wire := lv_wire l @ [bytes]\<rparr> else writer_ends (l\<lparr>lv_writer := ws\<rparr>)))"

datatype exchange_event =
    Connect nat "string \<Rightarrow> string" string nat bool fix_message
  | PollTurn nat turn_env
  | MessageTurn nat turn_env
  | Depart nat
  | WriterTurn nat string bool
  | Release nat

fun exchange_act ::
  "decimal_ops \<Rightarrow> wording \<Rightarrow> time_parser \<Rightarrow> acceptor_config \<Rightarrow> exchange \<Rightarrow> exchange_event \<Rightarrow> exchange option" where
  "exchange_act D wd parse_time cfg y (Connect k ident time now ready logon) =
     (case sy_live y k of
        Some _ \<Rightarrow> None
      | None \<Rightarrow>
          (case accept_logon D wd parse_time cfg ident time now ready (sy_active y) (sy_engine y) logon of
             None \<Rightarrow> None
           | Some (Refused _, active) \<Rightarrow> Some (y\<lparr>sy_active := active\<rparr>)
           | Some (Established p st, active) \<Rightarrow>
               Some (y\<lparr>sy_engine := cn_engine (ac_conn st), sy_active := active,
                       sy_live := (sy_live y)(k \<mapsto> live_connection (sy_engine y) p st)\<rparr>)))"
| "exchange_act D wd parse_time cfg y (PollTurn k env) =
     (case sy_live y k of
        None \<Rightarrow> None
      | Some l \<Rightarrow>
          if lv_phase l \<noteq> Reading then None
          else map_option (\<lambda>t. settle y k (after_turn Polled l t)) (turn_poll D (lv_peer l) env (resume y l)))"
| "exchange_act D wd parse_time cfg y (MessageTurn k env) =
     (case sy_live y k of
        None \<Rightarrow> None
      | Some l \<Rightarrow>
          if lv_phase l \<noteq> Polled then None
          else map_option (\<lambda>t. settle y k (after_turn Reading l t)) (turn_message D wd parse_time (lv_peer l) env (resume y l)))"
| "exchange_act D wd parse_time cfg y (Depart k) =
     (case sy_live y k of
        None \<Rightarrow> None
      | Some l \<Rightarrow>
          (case lv_phase l of
             Leaving logout \<Rightarrow>
               map_option (\<lambda>c. settle y k (l\<lparr>lv_state := (lv_state l)\<lparr>ac_conn := c\<rparr>, lv_phase := Departed\<rparr>))
                 (leave_session D (lv_peer l) logout (resume y l))
           | _ \<Rightarrow> None))"
| "exchange_act D wd parse_time cfg y (WriterTurn k time ok) =
     (case sy_live y k of
        None \<Rightarrow> None
      | Some l \<Rightarrow>
          if lv_writing l then Some (y\<lparr>sy_live := (sy_live y)(k \<mapsto> writer_turn_live D time ok l)\<rparr>) else None)"
| "exchange_act D wd parse_time cfg y (Release k) =
     (case sy_live y k of
        None \<Rightarrow> None
      | Some l \<Rightarrow>
          if lv_phase l = Departed \<and> \<not> lv_writing l
          then Some (y\<lparr>sy_active := release_session (lv_peer l) (sy_active y), sy_live := (sy_live y)(k := None)\<rparr>)
          else None)"

definition exchange_step ::
  "decimal_ops \<Rightarrow> wording \<Rightarrow> time_parser \<Rightarrow> acceptor_config \<Rightarrow> exchange \<Rightarrow> exchange_event \<Rightarrow> exchange \<Rightarrow> bool" where
  "exchange_step D wd parse_time cfg y ev y' \<longleftrightarrow> exchange_act D wd parse_time cfg y ev = Some y'"

end
