(* ===== verification/Exchange_Steps.thy ===== *)
theory Exchange_Steps
  imports Exchange_System
begin

text \<open>
  What the steps of an exchange keep of one connection: its mailbox has a history of its own operations, the
  reports in it are those the engine addressed to the session, and the frames on its socket are what the
  writer's loop makes of the messages taken from it.
\<close>

section \<open>Mailboxes\<close>

lemma run_closed: "run queue_step c ls c' \<Longrightarrow> \<not> ch_open c \<Longrightarrow> accepted ls = []"
proof (induction rule: run.induct)
  case (run_cons c l t ls u)
  from run_cons(1) have "\<not> ch_open t \<and> accepted [l] = []"
  proof (cases rule: queue_step.cases)
    case (q_send v r)
    then show ?thesis using run_cons.prems by (cases rule: send_q_cases [of c v]) auto
  qed (use run_cons.prems in \<open>auto simp: recv_def drop_receiver_def split: list.splits\<close>)
  then show ?case using run_cons.IH unfolding trace_Cons(1) [of l ls] by simp
qed simp

lemma run_taken: "run queue_step c ls c' \<Longrightarrow> \<exists>gone. ch_items c @ accepted ls = received ls @ ch_items c' @ gone"
proof (induction rule: run.induct)
  case (run_cons c l t ls u)
  obtain gone where g: "ch_items t @ accepted ls = received ls @ ch_items u @ gone" using run_cons.IH by blast
  show ?case
  proof (cases "l = DropReceiver")
    case True
    then have t: "\<not> ch_open t" "ch_items t = []" using run_cons(1) by (auto simp: drop_receiver_def elim: queue_stepE)
    then show ?thesis using g run_closed [OF run_cons(2) t(1)] True by simp
  next
    case False
    then have "received [l] @ ch_items t = ch_items c @ accepted [l]" by (rule queue_step_fifo [OF run_cons(1)])
    then have "ch_items c @ accepted (l # ls) = received (l # ls) @ ch_items u @ gone"
      unfolding trace_Cons(1,2) [of l ls] using g by (metis append.assoc)
    then show ?thesis by blast
  qed
qed simp

text \<open>What is taken or waiting, of what was posted to a fresh mailbox.\<close>

lemma fresh_taken:
  assumes "run queue_step channel_new ls tx"
  shows "\<exists>rest. attempted ls = received ls @ ch_items tx @ rest"
    "DropReceiver \<notin> set ls \<Longrightarrow> \<not> ch_failed tx \<Longrightarrow> attempted ls = received ls @ ch_items tx"
proof -
  have new: "ch_items (channel_new :: 'a channel) = []" by (simp add: channel_new_def channel_with_flag_def)
  obtain gone where "accepted ls = received ls @ ch_items tx @ gone" using run_taken [OF assms] new by auto
  moreover obtain lost where l: "attempted ls = accepted ls @ lost" "lost \<noteq> [] \<longrightarrow> ch_failed tx"
    using run_lossless [OF assms] by blast
  ultimately show "\<exists>rest. attempted ls = received ls @ ch_items tx @ rest" by simp
  show "attempted ls = received ls @ ch_items tx" if "DropReceiver \<notin> set ls" "\<not> ch_failed tx"
    using run_fifo [OF assms that(1)] l that(2) new by auto
qed

lemma mailbox_bounded: "run queue_step channel_new ls tx \<Longrightarrow> length (ch_items tx) \<le> CAPACITY"
proof -
  assume r: "run queue_step channel_new ls tx"
  then have "channel_ok tx" using mailbox.reachable_inv [OF _ r] by (auto simp: channel_new_def)
  moreover have "ch_capacity tx = CAPACITY" using run_capacity [OF r] by (simp add: channel_new_def channel_with_flag_def)
  ultimately show ?thesis by (simp add: channel_ok_def)
qed

section \<open>One connection\<close>

definition reports_since :: "engine \<Rightarrow> live \<Rightarrow> report list" where
  "reports_since e l = map snd (filter (\<lambda>p. fst p = lv_session l) (drop (lv_since l) (en_sent e)))"

text \<open>
  The mailbox has a history of its own operations: what the writer took was received from it, and the reports
  posted to it are those the engine addressed to the session since the Logon.
\<close>

definition live_ok :: "engine \<Rightarrow> live \<Rightarrow> bool" where
  "live_ok e l \<longleftrightarrow> lv_since l \<le> length (en_sent e) \<and>
     (\<exists>ls. run queue_step channel_new ls (lv_box l) \<and> received ls = lv_taken l \<and>
        (lv_writing l \<longrightarrow> DropReceiver \<notin> set ls) \<and> posted_reports (attempted ls) = reports_since e l)"

lemma with_box_simps [simp]:
  "lv_box (with_box l tx) = tx" "lv_peer (with_box l tx) = lv_peer l" "lv_since (with_box l tx) = lv_since l"
  "lv_taken (with_box l tx) = lv_taken l" "lv_writing (with_box l tx) = lv_writing l" "lv_phase (with_box l tx) = lv_phase l"
  by (simp_all add: with_box_def lv_box_def)

lemma told_simps [simp]:
  "lv_peer (told e e' l) = lv_peer l" "lv_phase (told e e' l) = lv_phase l" "lv_since (told e e' l) = lv_since l"
  "lv_taken (told e e' l) = lv_taken l" "lv_writing (told e e' l) = lv_writing l"
  by (simp_all add: told_def)

lemma live_ok_posts:
  assumes "live_ok e l" "en_sent e' = en_sent e @ rs" "mail_posts (lv_box l) ms (lv_box l')"
    "posted_reports ms = engine_reports (lv_session l) e e'"
    "lv_peer l' = lv_peer l" "lv_since l' = lv_since l" "lv_taken l' = lv_taken l" "lv_writing l' = lv_writing l"
  shows "live_ok e' l'"
proof -
  obtain ls where ls: "run queue_step channel_new ls (lv_box l)" "received ls = lv_taken l"
    "lv_writing l \<longrightarrow> DropReceiver \<notin> set ls" "posted_reports (attempted ls) = reports_since e l"
    using assms(1) by (auto simp: live_ok_def)
  obtain qs where qs: "run queue_step (lv_box l) qs (lv_box l')" "list_all sending qs" "attempted qs = ms"
    using assms(3) by (auto simp: mail_posts_def)
  have since: "lv_since l \<le> length (en_sent e)" using assms(1) by (simp add: live_ok_def)
  then have "reports_since e' l' = reports_since e l @ engine_reports (lv_session l) e e'"
    using assms(2,5,6) by (simp add: reports_since_def engine_reports_def)
  then have "posted_reports (attempted (ls @ qs)) = reports_since e' l'" using ls(4) qs(3) assms(4) by (simp add: trace_append)
  moreover note sending_receives_nothing [OF qs(2)] run_append [OF ls(1) qs(1)]
  ultimately show ?thesis
    unfolding live_ok_def using ls(2,3) since assms(2,6-8)
    by (intro conjI exI [of _ "ls @ qs"]) (simp_all add: trace_append)
qed

lemma live_ok_told: "live_ok e l \<Longrightarrow> en_sent e' = en_sent e @ rs \<Longrightarrow> live_ok e' (told e e' l)"
  by (erule (1) live_ok_posts [where ms = "map OutReport (engine_reports (lv_session l) e e')"])
    (simp_all add: told_def mail_deliver)

lemma live_ok_queue:
  assumes "live_ok e l" "queue_step (lv_box l) q (lv_box l')" "attempted [q] = []" "lv_taken l' = lv_taken l @ received [q]"
    "lv_writing l' \<longrightarrow> lv_writing l \<and> q \<noteq> DropReceiver" "lv_peer l' = lv_peer l" "lv_since l' = lv_since l"
  shows "live_ok e l'"
proof -
  obtain ls where ls: "run queue_step channel_new ls (lv_box l)" "received ls = lv_taken l"
    "lv_writing l \<longrightarrow> DropReceiver \<notin> set ls" "posted_reports (attempted ls) = reports_since e l"
    using assms(1) by (auto simp: live_ok_def)
  have "reports_since e l' = reports_since e l" using assms(6,7) by (simp add: reports_since_def)
  then show ?thesis
    unfolding live_ok_def using run_snoc [OF ls(1) assms(2)] ls(2-4) assms
    by (intro conjI exI [of _ "ls @ [q]"]) (auto simp: trace_append live_ok_def)
qed

lemma live_ok_cong:
  "live_ok e l \<Longrightarrow> lv_box l' = lv_box l \<Longrightarrow> lv_taken l' = lv_taken l \<Longrightarrow> lv_writing l' = lv_writing l \<Longrightarrow>
   lv_peer l' = lv_peer l \<Longrightarrow> lv_since l' = lv_since l \<Longrightarrow> live_ok e l'"
  by (simp add: live_ok_def reports_since_def)

lemma live_ok_ends: "live_ok e l \<Longrightarrow> live_ok e (writer_ends l)"
  by (erule live_ok_queue [where q = DropReceiver]) (simp_all add: writer_ends_def lv_box_def with_box_def q_drop)

lemma writer_ends_simps [simp]:
  "lv_peer (writer_ends l) = lv_peer l" "lv_phase (writer_ends l) = lv_phase l"
  by (simp_all add: writer_ends_def)

lemma take_mail_ok:
  assumes "live_ok e l" "take_mail l = (m, l')"
  shows "live_ok e l'" "lv_peer l' = lv_peer l" "lv_phase l' = lv_phase l"
proof -
  have "live_ok e l' \<and> lv_peer l' = lv_peer l \<and> lv_phase l' = lv_phase l"
  proof (cases "recv (lv_box l)")
    case (Some v)
    obtain tx where v: "v = (m, tx)" "l' = (with_box l tx)\<lparr>lv_taken := lv_taken l @ [m]\<rparr>"
      using assms(2) Some by (auto simp: take_mail_def split: prod.splits)
    have "live_ok e l'"
      by (rule live_ok_queue [OF assms(1), where q = "Recv m"])
        (use Some q_recv [of "lv_box l" m tx] in \<open>simp_all add: v lv_box_def with_box_def\<close>)
    then show ?thesis by (simp add: v)
  qed (use assms in \<open>simp add: take_mail_def\<close>)
  then show "live_ok e l'" "lv_peer l' = lv_peer l" "lv_phase l' = lv_phase l" by blast+
qed

lemma writer_turn_ok:
  assumes "live_ok e l"
  shows "live_ok e (writer_turn_live D time ok l)" "lv_peer (writer_turn_live D time ok l) = lv_peer l"
    "lv_phase (writer_turn_live D time ok l) = lv_phase l"
proof -
  obtain m l' where t: "take_mail l = (m, l')" by fastforce
  note t' = take_mail_ok [OF assms t]
  obtain w ws where w: "write_one D time (Some (cn_ids (ac_conn (lv_state l')))) (lv_writer l') m = (w, ws)" by fastforce
  have "live_ok e (l'\<lparr>lv_writer := ws, lv_wire := out\<rparr>)" for out
    using t'(1) by (rule live_ok_cong) (simp_all add: lv_box_def)
  moreover have "live_ok e (l'\<lparr>lv_writer := ws\<rparr>)"
    using t'(1) by (rule live_ok_cong) (simp_all add: lv_box_def)
  ultimately show "live_ok e (writer_turn_live D time ok l)" "lv_peer (writer_turn_live D time ok l) = lv_peer l"
    "lv_phase (writer_turn_live D time ok l) = lv_phase l"
    using assms t w t'(2,3) by (auto simp: writer_turn_live_def live_ok_ends split: writing.split)
qed

section \<open>What is on the wire\<close>

text \<open>The writer's loop over the polls \<open>ps\<close> has not ended.\<close>

fun writer_alive :: "decimal_ops \<Rightarrow> writer_state \<Rightarrow> poll list \<Rightarrow> bool" where
  "writer_alive D ws [] \<longleftrightarrow> True"
| "writer_alive D ws (p # ps) \<longleftrightarrow> \<not> po_failed p \<and>
     (case (case po_mail p of Mail m \<Rightarrow> Some m | Idle \<Rightarrow> Some (OutMessage ''0'' []) | Gone \<Rightarrow> None) of
        None \<Rightarrow> False
      | Some m \<Rightarrow>
          (case write_one D (po_time p) (po_ids p) ws m of
             (Skip, ws) \<Rightarrow> writer_alive D ws ps
           | (Write _, ws) \<Rightarrow> po_written p \<and> writer_alive D ws ps
           | _ \<Rightarrow> False))"

lemma writer_loop_append:
  "writer_alive D ws ps \<Longrightarrow> writer_loop D ws ps = (out, ws1) \<Longrightarrow> writer_loop D ws1 qs = (out', ws2) \<Longrightarrow>
   writer_loop D ws (ps @ qs) = (out @ out', ws2)"
proof (induction ps arbitrary: ws out)
  case (Cons p ps)
  then show ?case
    by (auto split: option.splits prod.splits writing.splits if_splits)
qed simp

lemma writer_alive_append:
  "writer_loop D ws ps = (out, ws1) \<Longrightarrow> writer_alive D ws (ps @ qs) \<longleftrightarrow> writer_alive D ws ps \<and> writer_alive D ws1 qs"
proof (induction ps arbitrary: ws out)
  case (Cons p ps)
  then show ?case
    by (auto split: option.splits prod.splits writing.splits if_splits)
qed simp

fun mail_of :: "mail \<Rightarrow> out_msg option" where
  "mail_of (Mail m) = Some m"
| "mail_of _ = None"

definition mails :: "poll list \<Rightarrow> out_msg list" where
  "mails ps = List.map_filter (\<lambda>p. mail_of (po_mail p)) ps"

lemma mails_append: "mails (ps @ qs) = mails ps @ mails qs"
  by (simp add: mails_def List.map_filter_def)

definition wire_ok :: "decimal_ops \<Rightarrow> live \<Rightarrow> bool" where
  "wire_ok D l \<longleftrightarrow> (\<exists>ps. writer_loop D (peer_writer (lv_peer l)) ps = (lv_wire l, lv_writer l) \<and> mails ps = lv_taken l \<and>
     (lv_writing l \<longrightarrow> writer_alive D (peer_writer (lv_peer l)) ps))"

lemma wire_ok_cong:
  "wire_ok D l \<Longrightarrow> lv_wire l' = lv_wire l \<Longrightarrow> lv_writer l' = lv_writer l \<Longrightarrow> lv_taken l' = lv_taken l \<Longrightarrow>
   lv_writing l' = lv_writing l \<Longrightarrow> lv_peer l' = lv_peer l \<Longrightarrow> wire_ok D l'"
  by (simp add: wire_ok_def)

lemma wire_ok_told: "wire_ok D l \<Longrightarrow> wire_ok D (told e e' l)"
  by (erule wire_ok_cong) (simp_all add: told_def with_box_def)

text \<open>The turn of a live writer is one more poll of its loop.\<close>

definition live_poll :: "string \<Rightarrow> bool \<Rightarrow> live \<Rightarrow> poll" where
  "live_poll time ok l = \<lparr>po_failed = ch_failed (lv_box l),
     po_mail = (if ch_failed (lv_box l) then Idle else case recv (lv_box l) of None \<Rightarrow> Idle | Some (m, _) \<Rightarrow> Mail m),
     po_time = time, po_ids = Some (cn_ids (ac_conn (lv_state l))), po_written = ok\<rparr>"

lemma writer_turn_poll:
  assumes "lv_writing l"
  shows "\<exists>out. writer_loop D (lv_writer l) [live_poll time ok l] = (out, lv_writer (writer_turn_live D time ok l)) \<and>
    lv_wire (writer_turn_live D time ok l) = lv_wire l @ out \<and>
    lv_taken (writer_turn_live D time ok l) = lv_taken l @ mails [live_poll time ok l] \<and>
    (lv_writing (writer_turn_live D time ok l) \<longrightarrow> writer_alive D (lv_writer l) [live_poll time ok l]) \<and>
    lv_peer (writer_turn_live D time ok l) = lv_peer l"
proof (cases "ch_failed (lv_box l)")
  case True
  then show ?thesis
    by (simp add: live_poll_def writer_turn_live_def writer_ends_def with_box_def mails_def List.map_filter_def)
next
  case False
  then show ?thesis
    using assms
    by (cases "recv (lv_box l)")
      (auto simp: live_poll_def writer_turn_live_def take_mail_def mails_def List.map_filter_def writer_ends_def with_box_def
        split: writing.split prod.split)
qed

lemma wire_ok_writer_turn:
  assumes "wire_ok D l" "lv_writing l"
  shows "wire_ok D (writer_turn_live D time ok l)"
proof -
  let ?l = "writer_turn_live D time ok l" and ?p = "live_poll time ok l"
  obtain ps where ps: "writer_loop D (peer_writer (lv_peer l)) ps = (lv_wire l, lv_writer l)" "mails ps = lv_taken l"
    "writer_alive D (peer_writer (lv_peer l)) ps"
    using assms by (auto simp: wire_ok_def)
  obtain out where p: "writer_loop D (lv_writer l) [?p] = (out, lv_writer ?l)" "lv_wire ?l = lv_wire l @ out"
    "lv_taken ?l = lv_taken l @ mails [?p]" "lv_writing ?l \<longrightarrow> writer_alive D (lv_writer l) [?p]" "lv_peer ?l = lv_peer l"
    using writer_turn_poll [OF assms(2), of D time ok] by (elim exE conjE) (rule that)
  have "writer_loop D (peer_writer (lv_peer l)) (ps @ [?p]) = (lv_wire ?l, lv_writer ?l)"
    unfolding p(2) by (rule writer_loop_append [OF ps(3,1) p(1)])
  moreover have "mails (ps @ [?p]) = lv_taken ?l" using ps(2) p(3) by (simp add: mails_append)
  moreover have "lv_writing ?l \<longrightarrow> writer_alive D (peer_writer (lv_peer l)) (ps @ [?p])"
    unfolding writer_alive_append [OF ps(1)] using ps(3) p(4) by blast
  ultimately show ?thesis unfolding wire_ok_def p(5) by blast
qed

end
