(* ===== verification/Exchange_Properties.thy ===== *)
theory Exchange_Properties
  imports Exchange_Steps
begin

text \<open>
  What holds however the connections of an exchange interleave: the engine sees only a sequence of its own calls,
  a session belongs to one connection at a time and is known to the engine as long as that connection has
  not departed, and every client is told what the engine reports to it, in order, once.
\<close>

section \<open>The exchange\<close>

text \<open>
  A seat is the session of a connection and whether it has left the engine. The seats are consistent with the
  active sessions and with the sessions the engine knows.
\<close>

definition seat :: "exchange \<Rightarrow> nat \<Rightarrow> (string \<times> bool) option" where
  "seat y k = map_option (\<lambda>l. (lv_session l, lv_phase l = Departed)) (sy_live y k)"

definition seats_ok :: "(nat \<Rightarrow> (string \<times> bool) option) \<Rightarrow> string set \<Rightarrow> string set \<Rightarrow> bool" where
  "seats_ok f active keys \<longleftrightarrow>
     (\<forall>i j s a b. f i = Some (s, a) \<longrightarrow> f j = Some (s, b) \<longrightarrow> i = j) \<and>
     active = {s. \<exists>k a. f k = Some (s, a)} \<and> keys = {s. \<exists>k. f k = Some (s, False)}"

lemma seats_join: "seats_ok f active keys \<Longrightarrow> f k = None \<Longrightarrow> s \<notin> active \<Longrightarrow> seats_ok (f(k \<mapsto> (s, False))) (insert s active) (insert s keys)"
  unfolding seats_ok_def by (intro conjI set_eqI) (auto split: if_splits, (metis option.distinct(1) option.inject prod.inject)+)

lemma seats_leave: "seats_ok f active keys \<Longrightarrow> f k = Some (s, False) \<Longrightarrow> seats_ok (f(k \<mapsto> (s, True))) active (keys - {s})"
  unfolding seats_ok_def by (intro conjI set_eqI) (auto split: if_splits, (metis option.distinct(1) option.inject prod.inject)+)

lemma seats_release: "seats_ok f active keys \<Longrightarrow> f k = Some (s, True) \<Longrightarrow> seats_ok (f(k := None)) (active - {s}) keys"
  unfolding seats_ok_def by (intro conjI set_eqI) (auto split: if_splits, (metis option.distinct(1) option.inject prod.inject)+)

definition exchange_inv :: "decimal_ops \<Rightarrow> fill_policy \<Rightarrow> exchange \<Rightarrow> bool" where
  "exchange_inv D policy y \<longleftrightarrow>
     reaches (engine_step D) (with_fill_policy policy) (sy_engine y) \<and>
     seats_ok (seat y) (sy_active y) (session_keys (sy_engine y)) \<and>
     (\<forall>k l. sy_live y k = Some l \<longrightarrow> live_ok (sy_engine y) l \<and> wire_ok D l)"

lemma history_books_ok: "reaches (engine_step D) (with_fill_policy policy) e \<Longrightarrow> books_ok e"
  using market.reachable_inv unfolding reaches_def market_inv_def by blast

text \<open>A connection acts on the engine, and the others are told.\<close>

lemma seat_settle: "seat (settle y k l) = (seat y)(k \<mapsto> (lv_session l, lv_phase l = Departed))"
  by (rule ext) (simp add: seat_def settle_def Let_def option.map_comp comp_def)

lemma settle_inv:
  assumes inv: "exchange_inv D policy y"
    and e': "e' = cn_engine (ac_conn (lv_state l'))" "reaches (engine_step D) (sy_engine y) e'" "en_sent e' = en_sent (sy_engine y) @ rs"
    and seats: "seats_ok ((seat y)(k \<mapsto> (lv_session l', lv_phase l' = Departed))) (sy_active y) (session_keys e')"
    and l': "live_ok e' l'" "wire_ok D l'"
  shows "exchange_inv D policy (settle y k l')"
proof -
  let ?y = "settle y k l'"
  have y: "sy_engine ?y = e'" "sy_active ?y = sy_active y" by (simp_all add: settle_def Let_def e'(1))
  have "live_ok e' m \<and> wire_ok D m" if "sy_live ?y j = Some m" for j m
    using that inv l' live_ok_told [OF _ e'(3)] wire_ok_told
    by (auto simp: settle_def Let_def e'(1) [symmetric] exchange_inv_def split: if_splits)
  moreover have "reaches (engine_step D) (with_fill_policy policy) e'"
    using inv e'(2) unfolding exchange_inv_def by (blast intro: reaches_trans)
  ultimately show ?thesis unfolding exchange_inv_def y seat_settle using seats by blast
qed

lemma turn_inv:
  assumes inv: "exchange_inv D policy y" "sy_live y k = Some l" "lv_phase l \<noteq> Departed" "ph \<noteq> Departed"
    and t: "ac_step D (lv_session l) (resume y l) (Some t)"
  shows "exchange_inv D policy (settle y k (after_turn ph l t))"
proof -
  let ?l = "after_turn ph l t" and ?c = "ac_conn (resume y l)" and ?c' = "ac_conn (turn_state t)"
  have st: "lv_state ?l = turn_state t" "lv_peer ?l = lv_peer l" "lv_since ?l = lv_since l" "lv_taken ?l = lv_taken l"
    "lv_writing ?l = lv_writing l" "lv_phase ?l \<noteq> Departed" "lv_wire ?l = lv_wire l" "lv_writer ?l = lv_writer l"
    using inv(4) by (cases t; simp add: after_turn_def)+
  have c: "cn_engine ?c = sy_engine y" "cn_tx ?c = lv_box l" by (simp_all add: resume_def lv_box_def)
  have ok: "books_ok (sy_engine y)" using inv(1) history_books_ok unfolding exchange_inv_def by blast
  have "conn_step D (lv_session l) ?c ?c'" using t by (simp add: ac_step_def)
  then obtain cs ms where s: "run (engine_step D) (sy_engine y) cs (cn_engine ?c')" "list_all (session_call (lv_session l)) cs"
    "mail_posts (lv_box l) ms (lv_box ?l)" "posted_reports ms = engine_reports (lv_session l) (sy_engine y) (cn_engine ?c')"
    using ok unfolding conn_step_def c lv_box_def [of ?l] st(1) by blast
  note r = session_run_sent [OF s(1,2) ok]
  obtain rs where rs: "en_sent (cn_engine ?c') = en_sent (sy_engine y) @ rs" using r(3) by blast
  have seats: "seats_ok (seat y) (sy_active y) (session_keys (sy_engine y))" and live: "live_ok (sy_engine y) l" "wire_ok D l"
    using inv(1,2) by (auto simp: exchange_inv_def)
  have "(seat y)(k \<mapsto> (lv_session ?l, lv_phase ?l = Departed)) = seat y" using inv(2,3) st by (auto simp: seat_def)
  then have "seats_ok ((seat y)(k \<mapsto> (lv_session ?l, lv_phase ?l = Departed))) (sy_active y) (session_keys (cn_engine ?c'))"
    using seats r(2) by simp
  moreover have "live_ok (cn_engine ?c') ?l" using live_ok_posts [OF live(1) rs s(3,4)] st by simp
  moreover have "wire_ok D ?l" using live(2) by (rule wire_ok_cong) (simp_all add: st)
  moreover have "reaches (engine_step D) (sy_engine y) (cn_engine ?c')" using s(1) unfolding reaches_def by blast
  ultimately show ?thesis using settle_inv [OF inv(1) _ _ rs] st(1) by simp
qed

lemma depart_inv:
  assumes inv: "exchange_inv D policy y" "sy_live y k = Some l" "lv_phase l = Leaving logout"
    and c: "leave_session D (lv_peer l) logout (resume y l) = Some c"
  shows "exchange_inv D policy (settle y k (l\<lparr>lv_state := (lv_state l)\<lparr>ac_conn := c\<rparr>, lv_phase := Departed\<rparr>))"
    (is "exchange_inv D policy (settle y k ?l)")
proof -
  let ?s = "lv_session l" and ?bye = "case logout of Some fs \<Rightarrow> LogoutAndShutdown fs | None \<Rightarrow> OutShutdown"
  obtain e' where e': "session_disconnect D (sy_engine y) ?s = Some e'"
    and c': "c = (after_engine ?s (ac_conn (resume y l)) e')\<lparr>cn_tx := post (cn_tx (after_engine ?s (ac_conn (resume y l)) e')) ?bye\<rparr>"
    using c by (auto simp: leave_session_def rust_bind Let_def resume_def)
  note d = session_disconnect_frame [OF e']
  have quiet: "engine_reports t (sy_engine y) e' = []" for t using d(2) by (simp add: engine_reports_def)
  have st: "cn_engine c = e'" "lv_box ?l = post (lv_box l) ?bye"
    using quiet by (simp_all add: c' after_engine_def lv_box_def deliver_def resume_def)
  have seats: "seats_ok (seat y) (sy_active y) (session_keys (sy_engine y))" and live: "live_ok (sy_engine y) l" "wire_ok D l"
    using inv(1,2) by (auto simp: exchange_inv_def)
  have "mail_posts (lv_box l) [?bye] (lv_box ?l)" unfolding st(2) by (rule mail_post)
  moreover have "posted_reports [?bye] = engine_reports ?s (sy_engine y) e'" by (simp add: quiet split: option.split)
  ultimately have "live_ok e' ?l" by (rule live_ok_posts [OF live(1), rotated]) (simp_all add: d(2))
  moreover have "wire_ok D ?l" using live(2) by (rule wire_ok_cong) simp_all
  moreover have "seats_ok ((seat y)(k \<mapsto> (lv_session ?l, lv_phase ?l = Departed))) (sy_active y) (session_keys e')"
    using seats_leave [OF seats, of k ?s] inv(2,3) d(3) by (simp add: seat_def)
  moreover have "reaches (engine_step D) (sy_engine y) e'"
    by (rule reaches_step [of _ _ "SessionDisconnect ?s"]) (simp add: engine_step_def e')
  ultimately show ?thesis using settle_inv [OF inv(1), of e' ?l "[]"] st(1) d(2) by simp
qed

lemma bootstrap_quiet: "posted_reports (bootstrap e ident) = []"
  unfolding bootstrap_def Let_def posted_reports_def by (simp add: List.map_filter_def)

lemma connect_inv:
  assumes inv: "exchange_inv D policy y" "sy_live y k = None"
    and a: "accept_logon D wd pt cfg ident time now ready (sy_active y) (sy_engine y) logon = Some (Established p st, active)"
  shows "exchange_inv D policy (y\<lparr>sy_engine := cn_engine (ac_conn st), sy_active := active,
    sy_live := (sy_live y)(k \<mapsto> live_connection (sy_engine y) p st)\<rparr>)" (is "exchange_inv D policy ?y")
proof -
  obtain client heart n where est: "establish cfg ident now (sy_engine y) logon client heart n = (p, st)"
    and act: "logon_session_id cfg client \<notin> sy_active y" "active = insert (logon_session_id cfg client) (sy_active y)"
    by (rule established_conn [OF a])
  let ?s = "logon_session_id cfg client" and ?l = "live_connection (sy_engine y) p st"
  define ms where "ms = OutMessage ''A'' (build_logon heart @ (if fm_get logon 141 = Some ''Y'' then [(141, ''Y'')] else []))
    # bootstrap (sy_engine y) ident @ (if 1 < n then [resend_request 1] else [])"
  have st: "pe_session p = ?s" "cn_engine (ac_conn st) = register_session (sy_engine y) ?s"
    "lv_box ?l = foldl post channel_new ms"
    using est by (auto simp: establish_def Let_def live_connection_def lv_box_def ms_def simp del: foldl.simps)
  have quiet: "posted_reports ms = []" by (simp add: ms_def bootstrap_quiet resend_request_def)
  note r = register_session_log(1,2) [of "sy_engine y" ?s]
  obtain qs where "run queue_step channel_new qs (lv_box ?l)" "list_all sending qs" "attempted qs = ms"
    using mail_foldl [of channel_new ms] unfolding mail_posts_def st(3) by blast
  then have "live_ok (register_session (sy_engine y) ?s) ?l"
    unfolding live_ok_def using sending_receives_nothing [of qs] quiet r(2)
    by (intro conjI exI [of _ qs]) (auto simp: live_connection_def reports_since_def)
  moreover have "wire_ok D ?l"
    unfolding wire_ok_def by (intro exI [of _ "[]"]) (simp add: live_connection_def mails_def List.map_filter_def)
  moreover have "live_ok (register_session (sy_engine y) ?s) m \<and> wire_ok D m" if "sy_live y j = Some m" for j m
    using that inv(1) r(2) by (simp add: exchange_inv_def live_ok_def reports_since_def)
  moreover have "seat ?y = (seat y)(k \<mapsto> (?s, False))" using st(1) by (auto simp: seat_def live_connection_def)
  moreover have "seats_ok ((seat y)(k \<mapsto> (?s, False))) active (insert ?s (session_keys (sy_engine y)))"
    unfolding act(2) by (rule seats_join) (use inv act(1) in \<open>auto simp: exchange_inv_def seat_def\<close>)
  moreover have "reaches (engine_step D) (with_fill_policy policy) (register_session (sy_engine y) ?s)"
    using inv(1) reaches_step [of "engine_step D" "sy_engine y" "RegisterSession ?s"]
    unfolding exchange_inv_def engine_step_def by (auto intro: reaches_trans)
  ultimately show ?thesis unfolding exchange_inv_def st(2) r(1) by (simp add: r(1) st(2))
qed

lemma refused_active: "accept_logon D wd pt cfg ident time now ready active e logon = Some (Refused b, active') \<Longrightarrow> active' = active"
  by (auto simp: accept_logon_def split: sum.splits option.splits if_splits prod.splits)

lemma exchange_act_inv:
  assumes "exchange_inv D policy y" "exchange_act D wd pt cfg y ev = Some y'"
  shows "exchange_inv D policy y'"
proof (cases ev)
  case (Connect k ident time now ready logon)
  then show ?thesis using assms
    by (auto split: option.splits logon_result.splits prod.splits intro: connect_inv dest!: refused_active)
next
  case (PollTurn k env)
  then obtain l t where "sy_live y k = Some l" "lv_phase l = Reading" "turn_poll D (lv_peer l) env (resume y l) = Some t"
    "y' = settle y k (after_turn Polled l t)"
    using assms(2) by (auto split: option.splits if_splits)
  then show ?thesis using turn_inv [OF assms(1), of k l Polled t] turn_poll_step [of D "lv_peer l" "resume y l" env] by simp
next
  case (MessageTurn k env)
  then obtain l t where "sy_live y k = Some l" "lv_phase l = Polled" "turn_message D wd pt (lv_peer l) env (resume y l) = Some t"
    "y' = settle y k (after_turn Reading l t)"
    using assms(2) by (auto split: option.splits if_splits)
  then show ?thesis using turn_inv [OF assms(1), of k l Reading t] turn_message_step [of D "lv_peer l" "resume y l" wd pt env] by simp
next
  case (Depart k)
  then show ?thesis using assms by (auto split: option.splits phase.splits intro: depart_inv)
next
  case (WriterTurn k time ok)
  then obtain l where l: "sy_live y k = Some l" "y' = y\<lparr>sy_live := (sy_live y)(k \<mapsto> writer_turn_live D time ok l)\<rparr>" "lv_writing l"
    using assms(2) by (auto split: option.splits if_splits)
  have live: "live_ok (sy_engine y) l" "wire_ok D l" using assms(1) l(1) by (auto simp: exchange_inv_def)
  note w = writer_turn_ok [OF live(1), of D time ok] wire_ok_writer_turn [OF live(2) l(3), of time ok]
  have "seat y' = seat y" using l w(2,3) by (auto simp: seat_def)
  then show ?thesis using assms(1) l(2) w(1,4) by (simp add: exchange_inv_def)
next
  case (Release k)
  then obtain l where l: "sy_live y k = Some l" "lv_phase l = Departed"
    "y' = y\<lparr>sy_active := release_session (lv_peer l) (sy_active y), sy_live := (sy_live y)(k := None)\<rparr>"
    using assms(2) by (auto split: option.splits if_splits)
  have "seat y' = (seat y)(k := None)" using l by (auto simp: seat_def)
  then show ?thesis using assms(1) l seats_release [of "seat y" "sy_active y" _ k "lv_session l"]
    by (simp add: exchange_inv_def seat_def release_session_def)
qed

lemma exchange_new_inv: "exchange_new policy ls = Some y \<Longrightarrow> exchange_inv D policy y"
proof -
  assume "exchange_new policy ls = Some y"
  then have y: "sy_engine y = snd (load_instruments (with_fill_policy policy) ls)" "sy_active y = {}" "sy_live y = Map.empty"
    by (auto simp: exchange_new_def split: prod.splits sum.splits)
  have "reaches (engine_step D) (with_fill_policy policy) (sy_engine y)"
    by (rule reaches_step [of _ _ "LoadInstruments ls"]) (simp add: engine_step_def y(1))
  moreover have "session_keys (sy_engine y) = {}"
    by (simp add: y(1) load_instruments_log) (simp add: session_keys_def with_fill_policy_def)
  ultimately show ?thesis by (simp add: exchange_inv_def y(2,3) seats_ok_def seat_def)
qed

interpretation exchange: invariant_system "\<lambda>y. \<exists>ls. exchange_new policy ls = Some y" "exchange_step D wd pt cfg"
    "exchange_inv D policy" for D policy wd pt cfg
  by unfold_locales (auto simp: exchange_step_def intro: exchange_new_inv exchange_act_inv)

section \<open>Properties\<close>

text \<open>
  C7. The exchange refines its engine, however its connections interleave: after any steps of any number of
  readers and writers on any input, the engine has seen a sequence of its own calls and nothing else, so that
  every theorem about its histories applies and nothing is left unpublished; no two connections hold the same session; the active sessions are
  those of the connections, and the engine knows exactly the sessions whose connection has not departed; and
  no mailbox exceeds its capacity.
\<close>

theorem exchange_refines_engine:
  assumes "exchange_new policy ls = Some y0" "run (exchange_step D wd pt cfg) y0 evs y"
  shows "(\<exists>cs. run (engine_step D) (with_fill_policy policy) cs (sy_engine y)) \<and> en_pending (sy_engine y) = [] \<and>
    (\<forall>j k l m. sy_live y j = Some l \<longrightarrow> sy_live y k = Some m \<longrightarrow> lv_session l = lv_session m \<longrightarrow> j = k) \<and>
    sy_active y = {lv_session l |k l. sy_live y k = Some l} \<and>
    set (session_ids (sy_engine y)) = {lv_session l |k l. sy_live y k = Some l \<and> lv_phase l \<noteq> Departed} \<and>
    (\<forall>k l. sy_live y k = Some l \<longrightarrow> length (ch_items (lv_box l)) \<le> CAPACITY)"
proof (intro conjI)
  have inv: "exchange_inv D policy y" using exchange.reachable_inv [OF _ assms(2)] assms(1) by blast
  then have e: "reaches (engine_step D) (with_fill_policy policy) (sy_engine y)"
    and seats: "seats_ok (seat y) (sy_active y) (session_keys (sy_engine y))"
    by (simp_all add: exchange_inv_def)
  show "\<exists>cs. run (engine_step D) (with_fill_policy policy) cs (sy_engine y)" using e by (simp add: reaches_def)
  show "en_pending (sy_engine y) = []" using e market.reachable_inv unfolding reaches_def market_inv_def by blast
  show "\<forall>j k l m. sy_live y j = Some l \<longrightarrow> sy_live y k = Some m \<longrightarrow> lv_session l = lv_session m \<longrightarrow> j = k"
    using seats unfolding seats_ok_def seat_def by (metis (no_types, lifting) option.simps(9))
  show "sy_active y = {lv_session l |k l. sy_live y k = Some l}"
    using seats unfolding seats_ok_def seat_def by auto
  have "set (session_ids (sy_engine y)) = session_keys (sy_engine y)"
    by (simp add: session_ids_def session_keys_def dom_map_of_conv_image_fst)
  then show "set (session_ids (sy_engine y)) = {lv_session l |k l. sy_live y k = Some l \<and> lv_phase l \<noteq> Departed}"
    using seats unfolding seats_ok_def seat_def by auto
  show "\<forall>k l. sy_live y k = Some l \<longrightarrow> length (ch_items (lv_box l)) \<le> CAPACITY"
    using inv mailbox_bounded unfolding exchange_inv_def live_ok_def by blast
qed

text \<open>
  C8. Clients are told everything, in order, once: however the connections of an exchange interleave, for every
  connection the reports its writer has taken and those waiting in its mailbox are, in order and without
  repetition or gap, the first of the reports that the engine addressed to its session since the Logon, whoever
  caused them; they are all of them as long as the mailbox has not failed and the writer runs; and the frames on the socket are what
  the writer's loop makes of the messages it took.
\<close>

theorem reports_delivered_in_order:
  assumes "exchange_new policy ls = Some y0" "run (exchange_step D wd pt cfg) y0 evs y" "sy_live y k = Some l"
  shows "\<exists>rest. reports_since (sy_engine y) l = posted_reports (lv_taken l) @ posted_reports (ch_items (lv_box l)) @ rest \<and>
    (lv_writing l \<and> \<not> ch_failed (lv_box l) \<longrightarrow> rest = []) \<and>
    (\<exists>ps. writer_loop D (peer_writer (lv_peer l)) ps = (lv_wire l, lv_writer l) \<and> mails ps = lv_taken l)"
proof -
  have "exchange_inv D policy y" using exchange.reachable_inv [OF _ assms(2)] assms(1) by blast
  then have live: "live_ok (sy_engine y) l" "wire_ok D l" using assms(3) by (auto simp: exchange_inv_def)
  obtain qs where qs: "run queue_step channel_new qs (lv_box l)" "received qs = lv_taken l"
    "lv_writing l \<longrightarrow> DropReceiver \<notin> set qs" "posted_reports (attempted qs) = reports_since (sy_engine y) l"
    using live(1) by (auto simp: live_ok_def)
  show ?thesis
  proof (cases "lv_writing l \<and> \<not> ch_failed (lv_box l)")
    case True
    then have "attempted qs = lv_taken l @ ch_items (lv_box l)" using fresh_taken(2) [OF qs(1)] qs(2,3) by simp
    then show ?thesis using qs(4) live(2) unfolding wire_ok_def by (intro exI [of _ "[]"]) auto
  next
    case False
    obtain ms where "attempted qs = lv_taken l @ ch_items (lv_box l) @ ms" using fresh_taken(1) [OF qs(1)] qs(2) by auto
    then show ?thesis using qs(4) live(2) False unfolding wire_ok_def by (intro exI [of _ "posted_reports ms"]) auto
  qed
qed

section \<open>Witnesses\<close>

text \<open>An exchange with one instrument to which a client logs on, and whose writer has sent the answer.\<close>

definition sample_events :: "exchange_event list" where
  "sample_events = [Connect 7 (\<lambda>s. s) sample_time 0 True sample_logon, WriterTurn 7 sample_time True]"

lemma sample_exchange:
  "\<exists>y. exchange_new Real_Fill [Inr ''7 IBM''] = Some y \<and> sy_active y = {} \<and> sy_live y = Map.empty \<and>
    all_symbols (en_instruments (sy_engine y)) = [''IBM'']"
  by (simp add: exchange_new_def load_instruments_def with_fill_policy_def text_eval all_symbols_def)

lemma post_room: "\<not> ch_failed tx \<Longrightarrow> ch_open tx \<Longrightarrow> length (ch_items tx) < ch_capacity tx \<Longrightarrow>
   post tx m = tx\<lparr>ch_items := ch_items tx @ [m]\<rparr>"
  by (simp add: post_def send_q_def try_send_def)

lemma sample_exchange_run:
  "\<exists>y0 y l. exchange_new Real_Fill [Inr ''7 IBM''] = Some y0 \<and>
    run (exchange_step sample_codec sample_wording sample_parser sample_config) y0 sample_events y \<and>
    sy_live y 7 = Some l \<and> length (lv_taken l) = 1 \<and> lv_writing l \<and> \<not> ch_failed (lv_box l)"
proof -
  obtain y0 where y0: "exchange_new Real_Fill [Inr ''7 IBM''] = Some y0" "sy_active y0 = {}" "sy_live y0 = Map.empty"
    "all_symbols (en_instruments (sy_engine y0)) = [''IBM'']"
    using sample_exchange by (elim exE conjE) (rule that)
  obtain p st where est: "establish sample_config (\<lambda>s. s) 0 (sy_engine y0) sample_logon ''C1'' 30 1 = (p, st)" by fastforce
  let ?l = "live_connection (sy_engine y0) p st"
  have a: "exchange_act sample_codec sample_wording sample_parser sample_config y0 (Connect 7 (\<lambda>s. s) sample_time 0 True sample_logon) =
    Some (y0\<lparr>sy_engine := cn_engine (ac_conn st), sy_active := {logon_session_id sample_config ''C1''}, sy_live := [7 \<mapsto> ?l]\<rparr>)"
    (is "_ = Some ?y1") using y0(2,3) est by (simp add: sample_logon_accepted)
  obtain fs d where tx: "lv_box ?l = foldl post channel_new [OutMessage ''A'' fs, d]"
    using est y0(4) by (auto simp: establish_def Let_def live_connection_def lv_box_def bootstrap_def simp del: foldl.simps)
  have box: "lv_box ?l = channel_new\<lparr>ch_items := [OutMessage ''A'' fs, d]\<rparr>"
    unfolding tx by (simp add: post_room channel_new_def channel_with_flag_def CAPACITY_def)
  let ?l' = "writer_turn_live sample_codec sample_time True ?l"
  have "lv_writing ?l" "lv_taken ?l = []" by (simp_all add: live_connection_def)
  then have l': "length (lv_taken ?l') = 1" "lv_writing ?l'" "\<not> ch_failed (lv_box ?l')"
    using box by (simp_all add: writer_turn_live_def take_mail_def recv_def write_one_def Let_def channel_new_def channel_with_flag_def)
      (simp add: lv_box_def with_box_def)
  have b: "exchange_act sample_codec sample_wording sample_parser sample_config ?y1 (WriterTurn 7 sample_time True) =
    Some (?y1\<lparr>sy_live := [7 \<mapsto> ?l']\<rparr>)" using \<open>lv_writing ?l\<close> by simp
  have "run (exchange_step sample_codec sample_wording sample_parser sample_config) y0 sample_events (?y1\<lparr>sy_live := [7 \<mapsto> ?l']\<rparr>)"
    unfolding sample_events_def
    by (rule run_cons, rule a [folded exchange_step_def], rule run_cons, rule b [folded exchange_step_def], rule run_nil)
  then show ?thesis using y0(1) l' by (intro exI [of _ y0] exI [of _ "?y1\<lparr>sy_live := [7 \<mapsto> ?l']\<rparr>"] exI [of _ ?l']) simp
qed

theorem exchange_refines_engine_witness:
  "\<exists>y0 y l. exchange_new Real_Fill [Inr ''7 IBM''] = Some y0 \<and>
    run (exchange_step sample_codec sample_wording sample_parser sample_config) y0 sample_events y \<and>
    sy_live y 7 = Some l \<and> lv_session l \<in> sy_active y \<and> length (ch_items (lv_box l)) \<le> CAPACITY"
proof -
  obtain y0 y l where r: "exchange_new Real_Fill [Inr ''7 IBM''] = Some y0"
    "run (exchange_step sample_codec sample_wording sample_parser sample_config) y0 sample_events y" "sy_live y 7 = Some l"
    using sample_exchange_run by (elim exE conjE) (rule that)
  have "sy_active y = {lv_session l |k l. sy_live y k = Some l}" and box: "length (ch_items (lv_box l)) \<le> CAPACITY"
    using exchange_refines_engine [OF r(1,2)] r(3) by (elim conjE, simp)+
  then have "lv_session l \<in> sy_active y" using r(3) by auto
  with r box show ?thesis by (intro exI [of _ y0] exI [of _ y] exI [of _ l]) simp
qed

theorem reports_delivered_in_order_witness:
  "\<exists>y0 y l. exchange_new Real_Fill [Inr ''7 IBM''] = Some y0 \<and>
    run (exchange_step sample_codec sample_wording sample_parser sample_config) y0 sample_events y \<and>
    sy_live y 7 = Some l \<and> length (lv_taken l) = 1 \<and>
    reports_since (sy_engine y) l = posted_reports (lv_taken l) @ posted_reports (ch_items (lv_box l)) \<and>
    (\<exists>ps. writer_loop sample_codec (peer_writer (lv_peer l)) ps = (lv_wire l, lv_writer l) \<and> mails ps = lv_taken l)"
proof -
  obtain y0 y l where r: "exchange_new Real_Fill [Inr ''7 IBM''] = Some y0"
    "run (exchange_step sample_codec sample_wording sample_parser sample_config) y0 sample_events y" "sy_live y 7 = Some l"
    "length (lv_taken l) = 1" "lv_writing l" "\<not> ch_failed (lv_box l)"
    using sample_exchange_run by (elim exE conjE) (rule that)
  from reports_delivered_in_order [OF r(1-3)] r show ?thesis by force
qed

end
