(* ===== verification/Initiator.thy ===== *)
theory Initiator
  imports Acceptor
begin

text \<open>
  The client side of a session (\<open>Initiator\<close>, \<open>initiator_reader\<close> and \<open>handle_execution_report\<close> in
  \<open>src/fix/session.rs\<close>). One record holds what the application's handle and the reader thread share (the
  signals, the table of orders, the instruments, the calls made of the callback), the mailbox of the writer,
  the counter of identifiers and the locals of the reader. A call of the application and a turn of the
  reader are functions on it; \<open>client_step\<close> interleaves them. Time stamps and quote identifiers are
  arguments; a turn is \<^const>\<open>None\<close> where the code panics.
\<close>

section \<open>State\<close>

record order_view =
  ov_id :: order_id
  ov_exchange_id :: string
  ov_symbol :: string
  ov_side :: side
  ov_price :: rat
  ov_quantity :: rat
  ov_remaining :: rat
  ov_state :: order_state

record fill_view =
  fv_is_quote :: bool
  fv_order_id :: "order_id option"
  fv_exchange_id :: string
  fv_symbol :: string
  fv_side :: side
  fv_price :: rat
  fv_quantity :: rat

text \<open>The methods of the trait \<open>Callback\<close>; the model keeps the log of their calls.\<close>

datatype callback_call = OnInstrument instrument | OnOrderStatus order_view | OnFill fill_view

record initiator_shared =
  sh_logged_in :: bool
  sh_connected :: bool
  sh_logout_requested :: bool
  sh_logged_out :: bool
  sh_calls :: "callback_call list"
  sh_orders :: "order_id \<Rightarrow> order_view option"
  sh_instruments :: instrument_map

record client =
  ct_shared :: initiator_shared
  ct_tx :: mailbox
  ct_next_order :: order_id
  ct_running :: bool
  ct_seq :: sequence_state
  ct_started :: nat
  ct_first :: bool
  ct_last :: nat
  ct_pending :: "(string \<times> nat) option"

abbreviation LOGON_READ_TIMEOUT :: nat where "LOGON_READ_TIMEOUT \<equiv> 10000"

abbreviation ct_post :: "client \<Rightarrow> out_msg \<Rightarrow> client" where
  "ct_post c m \<equiv> c\<lparr>ct_tx := post (ct_tx c) m\<rparr>"

abbreviation on_shared :: "(initiator_shared \<Rightarrow> initiator_shared) \<Rightarrow> client \<Rightarrow> client" where
  "on_shared f c \<equiv> c\<lparr>ct_shared := f (ct_shared c)\<rparr>"

definition shared_new :: initiator_shared where
  "shared_new = \<lparr>sh_logged_in = False, sh_connected = True, sh_logout_requested = False, sh_logged_out = False,
     sh_calls = [], sh_orders = Map.empty, sh_instruments = im_new\<rparr>"

text \<open>\<open>Initiator::connect\<close> up to the wait for the Logon reply, on a socket that connects.\<close>

definition client_connect :: "initiator_config \<Rightarrow> nat \<Rightarrow> initiator_config_error + client" where
  "client_connect cfg now =
     (case validate_initiator_config cfg of
        Inl e \<Rightarrow> Inl e
      | Inr _ \<Rightarrow>
          Inr (ct_post \<lparr>ct_shared = shared_new, ct_tx = channel_new, ct_next_order = 0, ct_running = True,
                 ct_seq = sequence_new 1, ct_started = now, ct_first = True, ct_last = now, ct_pending = None\<rparr>
               (OutMessage ''A'' (build_logon (ini_heart cfg)))))"

section \<open>Calls of the application\<close>

text \<open>A message for the writer: whether it was taken, and the client after it.\<close>

definition submit :: "client \<Rightarrow> string \<Rightarrow> fields \<Rightarrow> bool \<times> client" where
  "submit c msg_type fs =
     (case send_q (ct_tx c) (OutMessage msg_type fs) of (r, tx) \<Rightarrow> (\<not> isl r, c\<lparr>ct_tx := tx\<rparr>))"

definition new_view :: "order_id \<Rightarrow> string \<Rightarrow> side \<Rightarrow> rat \<Rightarrow> rat \<Rightarrow> order_view" where
  "new_view i symbol sd price quantity =
     \<lparr>ov_id = i, ov_exchange_id = [], ov_symbol = symbol, ov_side = sd, ov_price = price, ov_quantity = quantity,
      ov_remaining = quantity, ov_state = New\<rparr>"

definition next_order_id :: "client \<Rightarrow> order_id \<times> client" where
  "next_order_id c = (let i = wrap_i32 (ct_next_order c + 1) in (i, c\<lparr>ct_next_order := i\<rparr>))"

definition track :: "order_view \<Rightarrow> client \<Rightarrow> client" where
  "track v = on_shared (\<lambda>sh. sh\<lparr>sh_orders := (sh_orders sh)(ov_id v \<mapsto> v)\<rparr>)"

definition client_create_order ::
  "decimal_ops \<Rightarrow> string \<Rightarrow> client \<Rightarrow> string \<Rightarrow> side \<Rightarrow> order_type \<Rightarrow> rat \<Rightarrow> rat \<Rightarrow> order_id option \<times> client" where
  "client_create_order D time c symbol sd ty price quantity =
     (if \<not> sh_logged_in (ct_shared c) then (None, c)
      else case next_order_id c of (i, c) \<Rightarrow>
        (case submit (track (new_view i symbol sd price quantity) c) ''D''
                (build_new_order_single D time (show_int i) symbol sd ty price quantity) of
           (sent, c) \<Rightarrow> (if sent then Some i else None, c)))"

definition client_modify_order ::
  "decimal_ops \<Rightarrow> string \<Rightarrow> client \<Rightarrow> order_id \<Rightarrow> rat \<Rightarrow> rat \<Rightarrow> bool \<times> client" where
  "client_modify_order D time c i price quantity =
     (if \<not> sh_logged_in (ct_shared c) then (False, c)
      else case sh_orders (ct_shared c) i of
        None \<Rightarrow> (False, c)
      | Some v \<Rightarrow>
          (case next_order_id c of (req, c) \<Rightarrow>
             submit (track (new_view req (ov_symbol v) (ov_side v) price quantity) c) ''G''
               (build_cancel_replace D time (show_int i) (show_int req) (ov_symbol v) (ov_side v) price quantity)))"

definition client_cancel_order :: "string \<Rightarrow> client \<Rightarrow> order_id \<Rightarrow> bool \<times> client" where
  "client_cancel_order time c i =
     (if \<not> sh_logged_in (ct_shared c) then (False, c)
      else case sh_orders (ct_shared c) i of
        None \<Rightarrow> (False, c)
      | Some v \<Rightarrow>
          (case next_order_id c of (req, c) \<Rightarrow>
             submit c ''F'' (build_cancel_request time (show_int i) (show_int req) (ov_symbol v) (ov_side v))))"

definition client_quote :: "decimal_ops \<Rightarrow> string \<Rightarrow> client \<Rightarrow> string \<Rightarrow> rat \<Rightarrow> rat \<Rightarrow> rat \<Rightarrow> rat \<Rightarrow> bool \<times> client" where
  "client_quote D ident c symbol bid_price bid_quantity ask_price ask_quantity =
     (if \<not> sh_logged_in (ct_shared c) then (False, c)
      else submit c ''i'' (build_mass_quote D ident symbol bid_price bid_quantity ask_price ask_quantity))"

definition client_instrument_id :: "client \<Rightarrow> string \<Rightarrow> int option" where
  "client_instrument_id c symbol = map_option in_id (get_by_symbol (sh_instruments (ct_shared c)) symbol)"

text \<open>\<open>disconnect\<close> asks for the Logout, waits, and then stops the threads as \<open>drop\<close> does.\<close>

definition client_request_logout :: "client \<Rightarrow> client" where
  "client_request_logout c =
     (if sh_connected (ct_shared c) \<and> \<not> sh_logout_requested (ct_shared c)
      then ct_post (on_shared (\<lambda>sh. sh\<lparr>sh_logout_requested := True\<rparr>) c) (OutMessage ''5'' [])
      else c)"

text \<open>
  What follows the reader's loop, as one step. The code resets the signals one after the other, \<open>connected\<close> first, so
  for a moment another thread can see a client that is still logged in and no longer connected; the model has
  no state between the two.
\<close>

definition end_reader :: "client \<Rightarrow> client" where
  "end_reader c =
     ct_post (on_shared (\<lambda>sh. sh\<lparr>sh_connected := False, sh_logged_in := False, sh_logged_out := True\<rparr>) c\<lparr>ct_running := False\<rparr>)
       OutShutdown"

definition client_stop_threads :: "client \<Rightarrow> client" where
  "client_stop_threads c =
     (let c = ct_post c OutShutdown;
          c = (if ct_running c then end_reader c else c)
      in on_shared (\<lambda>sh. sh\<lparr>sh_connected := False, sh_logged_in := False\<rparr>) c)"

section \<open>Reports\<close>

definition report_view :: "exec_report_data \<Rightarrow> order_view \<Rightarrow> order_view" where
  "report_view data v =
     v\<lparr>ov_exchange_id := er_exchange_id data, ov_remaining := er_remaining data, ov_price := er_price data,
       ov_quantity := er_quantity data, ov_state := er_state data\<rparr>"

text \<open>The table after a report for order \<open>i\<close>, and the record that changed.\<close>

definition apply_report ::
  "exec_report_data \<Rightarrow> order_id \<Rightarrow> (order_id \<Rightarrow> order_view option) \<Rightarrow> order_view option \<times> (order_id \<Rightarrow> order_view option)" where
  "apply_report data i orders =
     (let original = Option.bind (er_orig_cl_ord_id data) parse_i32;
          template = Option.bind original orders;
          orders = (case (orders i, template) of
                      (None, Some old) \<Rightarrow> orders(i \<mapsto> old\<lparr>ov_id := i\<rparr>)
                    | _ \<Rightarrow> orders);
          view = map_option (report_view data) (orders i);
          orders = (case view of None \<Rightarrow> orders | Some v \<Rightarrow> orders(i \<mapsto> v));
          orders = (case original of
                      Some n \<Rightarrow> if n \<noteq> i then orders(n := None) else orders
                    | None \<Rightarrow> orders)
      in (view, orders))"

definition report_is_quote :: "exec_report_data \<Rightarrow> bool" where
  "report_is_quote data \<longleftrightarrow> er_cl_ord_id data = [] \<or> starts_with ''quote.'' (er_exchange_id data)"

definition report_fill_view :: "exec_report_data \<Rightarrow> order_id option \<Rightarrow> fill_view" where
  "report_fill_view data i =
     \<lparr>fv_is_quote = report_is_quote data, fv_order_id = i, fv_exchange_id = er_exchange_id data, fv_symbol = er_symbol data,
      fv_side = er_side data, fv_price = er_last_price data, fv_quantity = er_last_quantity data\<rparr>"

definition handle_execution_report :: "initiator_shared \<Rightarrow> exec_report_data \<Rightarrow> initiator_shared" where
  "handle_execution_report sh data =
     (let fill = (\<lambda>i. if er_is_fill data then [OnFill (report_fill_view data i)] else [])
      in if report_is_quote data then sh\<lparr>sh_calls := sh_calls sh @ fill None\<rparr>
         else case parse_i32 (er_cl_ord_id data) of
                None \<Rightarrow> sh
              | Some i \<Rightarrow>
                  (case apply_report data i (sh_orders sh) of (view, orders) \<Rightarrow>
                     sh\<lparr>sh_orders := orders,
                        sh_calls := sh_calls sh @ fill (Some i) @ (case view of None \<Rightarrow> [] | Some v \<Rightarrow> [OnOrderStatus v])\<rparr>))"

definition handle_cancel_reject :: "initiator_shared \<Rightarrow> string \<Rightarrow> string \<Rightarrow> order_state \<Rightarrow> initiator_shared" where
  "handle_cancel_reject sh cl orig state =
     (let orders = (case parse_i32 cl of None \<Rightarrow> sh_orders sh | Some i \<Rightarrow> (sh_orders sh)(i := None))
      in case Option.bind (parse_i32 orig) orders of
           None \<Rightarrow> sh\<lparr>sh_orders := orders\<rparr>
         | Some v \<Rightarrow>
             let v = v\<lparr>ov_state := state\<rparr>
             in sh\<lparr>sh_orders := (case parse_i32 orig of None \<Rightarrow> orders | Some i \<Rightarrow> orders(i \<mapsto> v)),
                   sh_calls := sh_calls sh @ [OnOrderStatus v]\<rparr>)"

definition handle_security_definition :: "initiator_shared \<Rightarrow> string \<Rightarrow> int \<Rightarrow> initiator_shared" where
  "handle_security_definition sh symbol i =
     sh\<lparr>sh_instruments := im_put (sh_instruments sh) (instrument_new i symbol),
        sh_calls := sh_calls sh @ [OnInstrument (instrument_new i symbol)]\<rparr>"

section \<open>The reader\<close>

record client_env =
  cv_now :: nat
  cv_input :: wire_input

text \<open>A turn goes on or leaves the loop.\<close>

datatype client_outcome = Stay client | Quit client

abbreviation quit_with :: "client \<Rightarrow> string \<Rightarrow> client_outcome" where
  "quit_with c reason \<equiv> Quit (c\<lparr>ct_tx := send_session_logout (ct_tx c) reason\<rparr>)"

definition client_dispatch :: "initiator_config \<Rightarrow> client \<Rightarrow> fix_message \<Rightarrow> inbound \<Rightarrow> client_outcome option" where
  "client_dispatch cfg c msg inb =
     (case inb of
        Logon heart \<Rightarrow>
          Some (if sh_logged_in (ct_shared c) \<or> heart \<noteq> ini_heart cfg then quit_with c ''unexpected Logon or HeartBtInt''
                else Stay (on_shared (\<lambda>sh. sh\<lparr>sh_logged_in := True\<rparr>) c))
      | Logout \<Rightarrow>
          let c = (if sh_logout_requested (ct_shared c) then c else ct_post c (OutMessage ''5'' []))
          in Some (Quit (on_shared (\<lambda>sh. sh\<lparr>sh_logged_out := True\<rparr>) c))
      | Heartbeat \<Rightarrow> Some (Stay c)
      | SequenceReset _ _ \<Rightarrow> Some (Stay c)
      | TestRequest i \<Rightarrow> Some (Stay (ct_post c (OutMessage ''0'' (build_heartbeat (Some i)))))
      | ResendRequest \<Rightarrow>
          (case parse_resend_range msg of
             Inl _ \<Rightarrow> None
           | Inr (b, n) \<Rightarrow> Some (Stay (ct_post c (OutGapFill b n))))
      | SecurityDefinition _ symbol i \<Rightarrow> Some (Stay (on_shared (\<lambda>sh. handle_security_definition sh symbol i) c))
      | ExecutionReport data \<Rightarrow> Some (Stay (on_shared (\<lambda>sh. handle_execution_report sh data) c))
      | CancelReject cl orig state _ \<Rightarrow> Some (Stay (on_shared (\<lambda>sh. handle_cancel_reject sh cl orig state) c))
      | BusinessReject _ \<Rightarrow> Some (Stay c)
      | SessionReject _ \<Rightarrow> Some (Stay c)
      | QuoteAcknowledgement _ _ _ \<Rightarrow> Some (Stay c)
      | _ \<Rightarrow>
          (case fm_msg_type msg of
             None \<Rightarrow> None
           | Some kind \<Rightarrow>
               Some (Stay (c\<lparr>ct_tx := send_business_reject (ct_tx c) (fm_seq msg) kind 3 ''unsupported incoming message''\<rparr>))))"

definition client_clear_test :: "client \<Rightarrow> fix_message \<Rightarrow> client" where
  "client_clear_test c msg =
     (case ct_pending c of
        None \<Rightarrow> c
      | Some (i, _) \<Rightarrow> if fm_msg_type msg = Some ''0'' \<and> fm_get msg 112 = Some i then c\<lparr>ct_pending := None\<rparr> else c)"

definition client_react :: "wording \<Rightarrow> initiator_config \<Rightarrow> client \<Rightarrow> verdict \<Rightarrow> client_outcome option" where
  "client_react wd cfg c v =
     (case v of
        Broken err \<Rightarrow> Some (quit_with c (wd_session wd err))
      | Repeated \<Rightarrow> Some (Stay c)
      | Held_Back None \<Rightarrow> Some (Stay c)
      | Held_Back (Some n) \<Rightarrow> Some (Stay (ct_post c (resend_request n)))
      | Undecodable msg err \<Rightarrow>
          Some (Stay (c\<lparr>ct_tx := send_session_reject (ct_tx c) (fm_seq msg) (fm_msg_type msg) 5 (wd_codec wd err)\<rparr>))
      | Accepted msg inb \<Rightarrow> client_dispatch cfg (client_clear_test c msg) msg inb)"

definition client_sequence ::
  "decimal_ops \<Rightarrow> wording \<Rightarrow> time_parser \<Rightarrow> initiator_config \<Rightarrow> client \<Rightarrow> fix_message \<Rightarrow> client_outcome option" where
  "client_sequence D wd parse_time cfg c msg =
     (case judge D parse_time (ct_seq c) msg of
        None \<Rightarrow> None
      | Some (v, sq) \<Rightarrow> client_react wd cfg (c\<lparr>ct_seq := sq\<rparr>) v)"

definition client_message ::
  "decimal_ops \<Rightarrow> wording \<Rightarrow> time_parser \<Rightarrow> initiator_config \<Rightarrow> client \<Rightarrow> fix_message \<Rightarrow> client_outcome option" where
  "client_message D wd parse_time cfg c msg =
     (case validate_header parse_time msg ''FIX.4.2'' (ini_target cfg) (ini_sender cfg) of
        Inl err \<Rightarrow> Some (quit_with c (wd_session wd err))
      | Inr _ \<Rightarrow>
          if ct_first c \<and> fm_msg_type msg \<notin> {Some ''A'', Some ''5''}
          then Some (quit_with c ''expected Logon response'')
          else client_sequence D wd parse_time cfg (c\<lparr>ct_first := False\<rparr>) msg)"

definition client_probe :: "initiator_config \<Rightarrow> nat \<Rightarrow> client \<Rightarrow> client" where
  "client_probe cfg now c =
     (if sh_logged_in (ct_shared c) \<and> \<not> sh_logout_requested (ct_shared c) \<and> ct_pending c = None \<and>
         fst (peer_timeouts (ini_heart cfg)) \<le> now - ct_last c
      then let i = ''client-probe-'' @ show_nat (sq_expected (ct_seq c))
           in ct_post (c\<lparr>ct_pending := Some (i, now + snd (peer_timeouts (ini_heart cfg)))\<rparr>)
                (OutMessage ''1'' (build_test_request i))
      else c)"

definition client_turn ::
  "decimal_ops \<Rightarrow> wording \<Rightarrow> time_parser \<Rightarrow> initiator_config \<Rightarrow> client_env \<Rightarrow> client \<Rightarrow> client_outcome option" where
  "client_turn D wd parse_time cfg env c =
     (if ch_failed (ct_tx c) then Some (Quit c)
      else if \<not> sh_logged_in (ct_shared c) \<and> LOGON_READ_TIMEOUT \<le> cv_now env - ct_started c then Some (Quit c)
      else if (case ct_pending c of None \<Rightarrow> False | Some (_, deadline) \<Rightarrow> deadline \<le> cv_now env)
      then Some (quit_with c ''TestRequest timeout'')
      else case take_ready (ct_seq c) of
             (Some msg, sq) \<Rightarrow> client_message D wd parse_time cfg (c\<lparr>ct_seq := sq\<rparr>) msg
           | (None, sq) \<Rightarrow>
               let c = c\<lparr>ct_seq := sq\<rparr>
               in case cv_input env of
                    Got msg \<Rightarrow> client_message D wd parse_time cfg (c\<lparr>ct_last := cv_now env\<rparr>) msg
                  | Eof \<Rightarrow> Some (Quit c)
                  | TimedOut \<Rightarrow> Some (Stay (client_probe cfg (cv_now env) c))
                  | ReadFailed \<Rightarrow> Some (Quit c))"

text \<open>One iteration of the reader thread, with what follows the loop.\<close>

definition reader_turn ::
  "decimal_ops \<Rightarrow> wording \<Rightarrow> time_parser \<Rightarrow> initiator_config \<Rightarrow> client_env \<Rightarrow> client \<Rightarrow> client option" where
  "reader_turn D wd parse_time cfg env c =
     map_option (\<lambda>t. case t of Stay c \<Rightarrow> c | Quit c \<Rightarrow> end_reader c) (client_turn D wd parse_time cfg env c)"

section \<open>Interleaving\<close>

text \<open>The calls of the application and the turns of the reader, in any order.\<close>

datatype client_event =
    DoCreate string string side order_type rat rat "order_id option"
  | DoModify string order_id rat rat bool
  | DoCancel string order_id bool
  | DoQuote string string rat rat rat rat bool
  | DoLogout
  | DoStop
  | DoTurn client_env

inductive client_step :: "decimal_ops \<Rightarrow> wording \<Rightarrow> time_parser \<Rightarrow> initiator_config \<Rightarrow> client \<Rightarrow> client_event \<Rightarrow> client \<Rightarrow> bool"
  for D wd pt cfg where
  step_create: "client_create_order D time c symb sd ty p q = (r, c') \<Longrightarrow> client_step D wd pt cfg c (DoCreate time symb sd ty p q r) c'"
| step_modify: "client_modify_order D time c i p q = (r, c') \<Longrightarrow> client_step D wd pt cfg c (DoModify time i p q r) c'"
| step_cancel: "client_cancel_order time c i = (r, c') \<Longrightarrow> client_step D wd pt cfg c (DoCancel time i r) c'"
| step_quote: "client_quote D ident c symb bp bq ap aq = (r, c') \<Longrightarrow> client_step D wd pt cfg c (DoQuote ident symb bp bq ap aq r) c'"
| step_logout: "client_step D wd pt cfg c DoLogout (client_request_logout c)"
| step_stop: "client_step D wd pt cfg c DoStop (client_stop_threads c)"
| step_turn: "ct_running c \<Longrightarrow> reader_turn D wd pt cfg env c = Some c' \<Longrightarrow> client_step D wd pt cfg c (DoTurn env) c'"

inductive_cases client_stepE: "client_step D wd pt cfg c l c'"

end
