(* ===== verification/Initiator_Steps.thy ===== *)
theory Initiator_Steps
  imports Initiator Writer_Properties
begin

text \<open>
  What the calls of the application and the turns of the reader do to the parts of a client, and the
  invariant of all interleavings: the signals agree with the life of the reader, and every record of the
  table stands under its own identifier.
\<close>

section \<open>Effects\<close>

lemma submit_fields [simp]:
  "submit c kind fs = (r, c') \<Longrightarrow> \<exists>tx. c' = c\<lparr>ct_tx := tx\<rparr>"
  by (auto simp: submit_def split: prod.splits)

lemma next_order_id_eq: "next_order_id c = (wrap_i32 (ct_next_order c + 1), c\<lparr>ct_next_order := wrap_i32 (ct_next_order c + 1)\<rparr>)"
  by (simp add: next_order_id_def Let_def)

text \<open>The part of a client that the life of the session is about.\<close>

definition own_ids :: "(order_id \<Rightarrow> order_view option) \<Rightarrow> bool" where
  "own_ids orders \<longleftrightarrow> (\<forall>i v. orders i = Some v \<longrightarrow> ov_id v = i)"

definition signals_ok :: "client \<Rightarrow> bool" where
  "signals_ok c \<longleftrightarrow>
     (if ct_running c then sh_connected (ct_shared c)
      else \<not> sh_connected (ct_shared c) \<and> \<not> sh_logged_in (ct_shared c) \<and> sh_logged_out (ct_shared c)) \<and>
     (sh_logged_in (ct_shared c) \<longrightarrow> \<not> ct_first c)"

definition client_inv :: "client \<Rightarrow> bool" where
  "client_inv c \<longleftrightarrow> signals_ok c \<and> own_ids (sh_orders (ct_shared c))"

lemma own_ids_update: "own_ids orders \<Longrightarrow> ov_id v = i \<Longrightarrow> own_ids (orders(i \<mapsto> v))"
  by (simp add: own_ids_def)

lemma own_ids_remove: "own_ids orders \<Longrightarrow> own_ids (orders(i := None))"
  by (simp add: own_ids_def)

lemma apply_report_own_ids: "own_ids orders \<Longrightarrow> apply_report data i orders = (view, orders') \<Longrightarrow> own_ids orders'"
  by (auto simp: apply_report_def Let_def own_ids_def report_view_def split: option.splits if_splits)

lemma handle_report_own_ids: "own_ids (sh_orders sh) \<Longrightarrow> own_ids (sh_orders (handle_execution_report sh data))"
  by (auto simp: handle_execution_report_def Let_def split: option.split prod.split dest: apply_report_own_ids)

lemma cancel_reject_own_ids: "own_ids (sh_orders sh) \<Longrightarrow> own_ids (sh_orders (handle_cancel_reject sh cl orig st))"
  by (auto simp: handle_cancel_reject_def Let_def own_ids_def split: option.splits bind_splits)

text \<open>Handling a message of the peer leaves the signals alone, but for the Logon and the Logout.\<close>

definition same_signals :: "initiator_shared \<Rightarrow> initiator_shared \<Rightarrow> bool" where
  "same_signals sh sh' \<longleftrightarrow> sh_logged_in sh' = sh_logged_in sh \<and> sh_connected sh' = sh_connected sh \<and>
     sh_logout_requested sh' = sh_logout_requested sh \<and> sh_logged_out sh' = sh_logged_out sh"

lemma handlers_same_signals [simp]:
  "same_signals sh (handle_execution_report sh data)" "same_signals sh (handle_cancel_reject sh cl orig st)"
  "same_signals sh (handle_security_definition sh symb i)"
  by (auto simp: same_signals_def handle_execution_report_def handle_cancel_reject_def handle_security_definition_def Let_def
      split: option.split prod.split)

fun turn_client :: "client_outcome \<Rightarrow> client" where
  "turn_client (Stay c) = c"
| "turn_client (Quit c) = c"

text \<open>A turn before the end of the loop: the reader still runs and is connected, and has seen the first message if it is logged in.\<close>

definition turn_ok :: "client \<Rightarrow> client_outcome option \<Rightarrow> bool" where
  "turn_ok c t \<longleftrightarrow> (\<forall>t'. t = Some t' \<longrightarrow>
     ct_running (turn_client t') \<and> sh_connected (ct_shared (turn_client t')) \<and>
     ct_next_order (turn_client t') = ct_next_order c \<and>
     (sh_logged_in (ct_shared (turn_client t')) \<longrightarrow> \<not> ct_first (turn_client t')) \<and>
     own_ids (sh_orders (ct_shared (turn_client t'))))"

lemma client_dispatch_ok:
  assumes "ct_running c" "sh_connected (ct_shared c)" "\<not> ct_first c" "own_ids (sh_orders (ct_shared c))"
  shows "turn_ok c (client_dispatch cfg c msg inb)"
proof -
  have s: "sh_connected sh' = sh_connected sh" if "same_signals sh sh'" for sh sh' using that by (simp add: same_signals_def)
  show ?thesis
    using assms handle_report_own_ids cancel_reject_own_ids handlers_same_signals [THEN s]
    by (cases inb)
      (auto simp: client_dispatch_def turn_ok_def handle_security_definition_def Let_def split: option.splits sum.splits prod.splits)
qed

lemma client_sequence_ok:
  assumes "ct_running c" "sh_connected (ct_shared c)" "\<not> ct_first c" "own_ids (sh_orders (ct_shared c))"
  shows "turn_ok c (client_sequence D wd pt cfg c msg)"
proof -
  have d: "turn_ok c (client_dispatch cfg (client_clear_test (c\<lparr>ct_seq := sq\<rparr>) m) m inb)" for sq m inb
  proof -
    have "turn_ok (client_clear_test (c\<lparr>ct_seq := sq\<rparr>) m) (client_dispatch cfg (client_clear_test (c\<lparr>ct_seq := sq\<rparr>) m) m inb)"
      by (rule client_dispatch_ok) (use assms in \<open>auto simp: client_clear_test_def split: option.split\<close>)
    moreover have "ct_next_order (client_clear_test (c\<lparr>ct_seq := sq\<rparr>) m) = ct_next_order c"
      by (auto simp: client_clear_test_def split: option.split)
    ultimately show ?thesis by (simp add: turn_ok_def)
  qed
  have "turn_ok c (client_react wd cfg (c\<lparr>ct_seq := sq\<rparr>) v)" for sq v
    using assms d by (cases v) (auto simp: client_react_def turn_ok_def split: option.splits)
  then show ?thesis by (auto simp: client_sequence_def turn_ok_def split: option.splits)
qed

lemma client_message_ok:
  assumes "ct_running c" "sh_connected (ct_shared c)" "sh_logged_in (ct_shared c) \<longrightarrow> \<not> ct_first c" "own_ids (sh_orders (ct_shared c))"
  shows "turn_ok c (client_message D wd pt cfg c msg)"
  using assms client_sequence_ok [of "c\<lparr>ct_first := False\<rparr>" D wd pt cfg msg]
  by (auto simp: client_message_def turn_ok_def split: sum.splits)

lemma client_turn_ok:
  assumes "ct_running c" "client_inv c"
  shows "turn_ok c (client_turn D wd pt cfg env c)"
proof -
  have c: "sh_connected (ct_shared c)" "sh_logged_in (ct_shared c) \<longrightarrow> \<not> ct_first c" "own_ids (sh_orders (ct_shared c))"
    using assms by (simp_all add: client_inv_def signals_ok_def)
  have m: "turn_ok c (client_message D wd pt cfg (c\<lparr>ct_seq := sq\<rparr>) msg)"
    "turn_ok c (client_message D wd pt cfg (c\<lparr>ct_seq := sq, ct_last := n\<rparr>) msg)" for sq n msg
    using client_message_ok [of "c\<lparr>ct_seq := sq\<rparr>"] client_message_ok [of "c\<lparr>ct_seq := sq, ct_last := n\<rparr>"] assms(1) c
    by (simp_all add: turn_ok_def)
  have p: "turn_ok c (Some (Stay (client_probe cfg n (c\<lparr>ct_seq := sq\<rparr>))))" for n sq
    using assms(1) c by (simp add: turn_ok_def client_probe_def Let_def)
  have q: "turn_ok c (Some (Quit (c\<lparr>ct_seq := sq\<rparr>)))" "turn_ok c (Some (Quit c))" "turn_ok c (Some (quit_with c why))" for sq why
    using assms(1) c by (simp_all add: turn_ok_def)
  show ?thesis
    unfolding client_turn_def Let_def using m p q by (simp split: prod.split option.split wire_input.split)
qed

section \<open>Interleavings\<close>

lemma reader_turn_inv:
  assumes "ct_running c" "client_inv c" "reader_turn D wd pt cfg env c = Some c'"
  shows "client_inv c'" "ct_next_order c' = ct_next_order c"
proof -
  obtain t where t: "client_turn D wd pt cfg env c = Some t" "c' = (case t of Stay c \<Rightarrow> c | Quit c \<Rightarrow> end_reader c)"
    using assms(3) by (auto simp: reader_turn_def)
  have ok: "turn_ok c (Some t)" using client_turn_ok [OF assms(1,2)] t(1) by metis
  show "client_inv c'" using ok t(2) by (cases t) (simp_all add: turn_ok_def client_inv_def signals_ok_def end_reader_def)
  show "ct_next_order c' = ct_next_order c" using ok t(2) by (cases t) (simp_all add: turn_ok_def end_reader_def)
qed

text \<open>A call of the application changes at most the mailbox, the counter and the record of its own new identifier.\<close>

lemma tracked_inv:
  "client_inv c \<Longrightarrow> client_inv (c\<lparr>ct_tx := tx, ct_next_order := n\<rparr>)"
  "client_inv c \<Longrightarrow> client_inv ((track (new_view i symb sd p q) (c\<lparr>ct_next_order := n\<rparr>))\<lparr>ct_tx := tx\<rparr>)"
  by (simp_all add: client_inv_def signals_ok_def track_def new_view_def own_ids_def)

lemma client_step_inv:
  assumes "client_step D wd pt cfg c l c'" "client_inv c"
  shows "client_inv c'"
  using assms
proof (cases rule: client_step.cases)
  case (step_create time symb sd ty p q r)
  then show ?thesis
    using assms(2) tracked_inv(2)
    by (auto simp: client_create_order_def next_order_id_eq split: prod.splits if_splits dest!: submit_fields)
next
  case (step_modify time i p q r)
  then show ?thesis
    using assms(2) tracked_inv(2)
    by (auto simp: client_modify_order_def next_order_id_eq split: prod.splits if_splits option.splits dest!: submit_fields)
next
  case (step_cancel time i r)
  then show ?thesis
    using assms(2) tracked_inv(1)
    by (auto simp: client_cancel_order_def next_order_id_eq client_inv_def signals_ok_def split: prod.splits if_splits option.splits dest!: submit_fields)
next
  case (step_quote ident symb bp bq ap aq r)
  then show ?thesis
    using assms(2)
    by (auto simp: client_quote_def client_inv_def signals_ok_def split: prod.splits if_splits dest!: submit_fields)
next
  case (step_turn env)
  then show ?thesis using reader_turn_inv(1) assms(2) by blast
qed (auto simp: client_request_logout_def client_stop_threads_def end_reader_def client_inv_def signals_ok_def Let_def split: if_splits)

lemma connected_inv: "client_connect cfg now = Inr c \<Longrightarrow> client_inv c"
  by (auto simp: client_connect_def client_inv_def signals_ok_def shared_new_def own_ids_def split: sum.splits)

end
