(* ===== verification/Initiator_Properties.thy ===== *)
theory Initiator_Properties
  imports Initiator_Steps Acceptor_Properties
begin

text \<open>
  Properties of the client: its life under every interleaving of application and reader, the way of an
  order from the application to the engine, and the way of a report back into the client's table.
\<close>

section \<open>Life of a client\<close>

interpretation client_runs: invariant_system "\<lambda>c. \<exists>now. client_connect cfg now = Inr c" "client_step D wd pt cfg" client_inv
  for D wd pt cfg
  by unfold_locales (auto intro: connected_inv client_step_inv)

text \<open>The identifiers that the application got for its new orders.\<close>

fun created :: "client_event list \<Rightarrow> order_id list" where
  "created [] = []"
| "created (DoCreate _ _ _ _ _ _ (Some i) # ls) = i # created ls"
| "created (_ # ls) = created ls"

lemma created_Cons: "created (l # ls) = created [l] @ created ls"
  by (cases l rule: created.cases [of "[l]" for l, simplified]) auto

lemma wrap_i32_next: "0 \<le> n \<Longrightarrow> n < i32_max \<Longrightarrow> wrap_i32 (n + 1) = n + 1"
  by (simp add: wrap_i32_def)

text \<open>One step uses at most one identifier, the next.\<close>

lemma client_step_counter:
  assumes "client_step D wd pt cfg c l c'" "client_inv c" "0 \<le> ct_next_order c" "ct_next_order c < i32_max"
  shows "ct_next_order c \<le> ct_next_order c'" "ct_next_order c' \<le> ct_next_order c + 1"
    "created [l] = [] \<or> created [l] = [ct_next_order c'] \<and> ct_next_order c' = ct_next_order c + 1"
proof -
  note w = wrap_i32_next [OF assms(3,4)]
  have "ct_next_order c \<le> ct_next_order c' \<and> ct_next_order c' \<le> ct_next_order c + 1 \<and>
    (created [l] = [] \<or> created [l] = [ct_next_order c'] \<and> ct_next_order c' = ct_next_order c + 1)"
    using assms(1)
  proof (cases rule: client_step.cases)
    case (step_create time symb sd ty p q r)
    then show ?thesis
      using w by (cases r)
        (auto simp: client_create_order_def next_order_id_eq track_def split: prod.splits if_splits dest!: submit_fields)
  next
    case (step_modify time i p q r)
    then show ?thesis
      using w by (auto simp: client_modify_order_def next_order_id_eq track_def split: prod.splits if_splits option.splits dest!: submit_fields)
  next
    case (step_cancel time i r)
    then show ?thesis
      using w by (auto simp: client_cancel_order_def next_order_id_eq split: prod.splits if_splits option.splits dest!: submit_fields)
  next
    case (step_quote ident symb bp bq ap aq r)
    then show ?thesis
      using w by (auto simp: client_quote_def split: prod.splits if_splits dest!: submit_fields)
  next
    case (step_turn env)
    then show ?thesis using reader_turn_inv(2) [OF step_turn(2) assms(2) step_turn(3)] by simp
  qed (auto simp: client_request_logout_def client_stop_threads_def end_reader_def Let_def)
  then show "ct_next_order c \<le> ct_next_order c'" "ct_next_order c' \<le> ct_next_order c + 1"
    "created [l] = [] \<or> created [l] = [ct_next_order c'] \<and> ct_next_order c' = ct_next_order c + 1" by blast+
qed

lemma client_run_counter:
  assumes "run (client_step D wd pt cfg) c ls c'" "client_inv c" "0 \<le> ct_next_order c" "ct_next_order c + int (length ls) \<le> i32_max"
  shows "sorted_wrt (<) (created ls) \<and> ct_next_order c \<le> ct_next_order c' \<and>
    (\<forall>i \<in> set (created ls). ct_next_order c < i \<and> i \<le> ct_next_order c')"
  using assms
proof (induction rule: run.induct)
  case (run_cons c l c1 ls c')
  have lt: "ct_next_order c < i32_max" using run_cons.prems by simp
  note s = client_step_counter [OF run_cons.hyps(1) run_cons.prems(1,2) lt]
  have "client_inv c1" by (rule client_step_inv [OF run_cons.hyps(1) run_cons.prems(1)])
  then have ih: "sorted_wrt (<) (created ls)" "ct_next_order c1 \<le> ct_next_order c'"
    "\<forall>i \<in> set (created ls). ct_next_order c1 < i \<and> i \<le> ct_next_order c'"
    using run_cons.IH s(1,2) run_cons.prems by simp_all
  show ?case
    using s ih unfolding created_Cons [of l ls] by (auto simp: sorted_wrt_append)
qed simp

lemma refused_when_out:
  assumes "\<not> sh_logged_in (ct_shared c)"
  shows "client_create_order D time c symb sd ty p q = (None, c)" "client_modify_order D time c i p q = (False, c)"
    "client_cancel_order time c i = (False, c)" "client_quote D ident c symb p q p' q' = (False, c)"
  using assms by (simp_all add: client_create_order_def client_modify_order_def client_cancel_order_def client_quote_def)

lemma ended_for_good: "client_step D wd pt cfg c l c' \<Longrightarrow> client_inv c \<Longrightarrow> \<not> ct_running c \<Longrightarrow> \<not> ct_running c'"
  by (cases rule: client_step.cases)
    (auto simp: refused_when_out client_inv_def signals_ok_def client_request_logout_def client_stop_threads_def Let_def)

lemma ended_run: "run (client_step D wd pt cfg) c ls c' \<Longrightarrow> client_inv c \<Longrightarrow> \<not> ct_running c \<Longrightarrow> \<not> ct_running c'"
  by (induction rule: run.induct) (auto dest: ended_for_good client_step_inv)

text \<open>
  C34. The life of a client, whatever the peer sends and however the calls of the application interleave with
  the turns of the reader, seen between calls and turns: it is logged in only while its reader runs, is connected and has had its first message
  checked; every record of the order table stands under its own identifier; the identifiers of new
  orders increase strictly; and once the reader has ended it never comes back, and from then on every request is
  refused without any effect.
\<close>

theorem client_lifecycle:
  assumes "client_connect cfg now = Inr c0" "run (client_step D wd pt cfg) c0 ls c" "int (length ls) \<le> i32_max"
  shows "(sh_logged_in (ct_shared c) \<longrightarrow> ct_running c \<and> sh_connected (ct_shared c) \<and> \<not> ct_first c) \<and>
    (\<forall>i v. sh_orders (ct_shared c) i = Some v \<longrightarrow> ov_id v = i) \<and>
    sorted_wrt (<) (created ls) \<and> (\<forall>i \<in> set (created ls). 0 < i \<and> i \<le> ct_next_order c) \<and>
    (\<not> ct_running c \<longrightarrow>
       \<not> sh_connected (ct_shared c) \<and> (\<forall>ls' c'. run (client_step D wd pt cfg) c ls' c' \<longrightarrow>
         \<not> ct_running c' \<and> client_create_order D time c' symb sd ty p q = (None, c') \<and>
         client_modify_order D time c' i p q = (False, c') \<and> client_cancel_order time c' i = (False, c') \<and>
         client_quote D ident c' symb p q p' q' = (False, c')))"
proof -
  have i0: "client_inv c0" by (rule connected_inv [OF assms(1)])
  have i: "client_inv c" using client_runs.inv_run [OF assms(2) i0] .
  have n0: "ct_next_order c0 = 0" using assms(1) by (auto simp: client_connect_def split: sum.splits)
  have cnt: "sorted_wrt (<) (created ls) \<and> (\<forall>i \<in> set (created ls). 0 < i \<and> i \<le> ct_next_order c)"
    using client_run_counter [OF assms(2) i0] n0 assms(3) by simp
  have dead: "\<not> ct_running c' \<and> \<not> sh_logged_in (ct_shared c')"
    if "\<not> ct_running c" "run (client_step D wd pt cfg) c ls' c'" for ls' c'
    using ended_run [OF that(2) i that(1)] client_runs.inv_run [OF that(2) i] by (simp add: client_inv_def signals_ok_def)
  have live: "(sh_logged_in (ct_shared c) \<longrightarrow> ct_running c \<and> sh_connected (ct_shared c) \<and> \<not> ct_first c) \<and>
      (\<forall>i v. sh_orders (ct_shared c) i = Some v \<longrightarrow> ov_id v = i) \<and> (\<not> ct_running c \<longrightarrow> \<not> sh_connected (ct_shared c))"
    using i by (auto simp: client_inv_def signals_ok_def own_ids_def split: if_splits)
  show ?thesis
  proof (intro conjI impI allI)
    fix ls' c' assume "\<not> ct_running c" "run (client_step D wd pt cfg) c ls' c'"
    note out = dead [OF this]
    show "\<not> ct_running c'" using out by blast
    show "client_create_order D time c' symb sd ty p q = (None, c')" "client_modify_order D time c' i p q = (False, c')"
      "client_cancel_order time c' i = (False, c')" "client_quote D ident c' symb p q p' q' = (False, c')"
      using out by (simp_all add: refused_when_out)
  qed (use live cnt in auto)
qed

definition sample_initiator :: initiator_config where
  "sample_initiator = \<lparr>ini_sender = ''C1'', ini_target = ''EX'', ini_host = ''localhost'', ini_port = 5001, ini_heart = 30\<rparr>"

lemma sample_connects: "\<exists>c. client_connect sample_initiator 0 = Inr c \<and> ct_running c \<and> ct_next_order c = 0"
  by (simp add: client_connect_def validate_initiator_config_def sample_initiator_def valid_component_id_def
      is_ascii_graphic_def is_ascii_char_def)

theorem client_lifecycle_witness:
  "\<exists>c0. client_connect sample_initiator 0 = Inr c0 \<and>
     \<not> sh_connected (ct_shared (client_stop_threads c0)) \<and>
     client_quote sample_codec ''q'' (client_stop_threads c0) ''IBM'' 1 1 2 1 = (False, client_stop_threads c0)"
proof -
  obtain c0 where c0: "client_connect sample_initiator 0 = Inr c0" using sample_connects by blast
  let ?c = "client_stop_threads c0"
  have r: "run (client_step sample_codec sample_wording sample_parser sample_initiator) c0 [DoStop] ?c"
    by (rule run_cons, rule step_stop, rule run_nil)
  have d: "\<not> ct_running ?c" by (simp add: client_stop_threads_def end_reader_def Let_def)
  have "run (client_step sample_codec sample_wording sample_parser sample_initiator) ?c [] ?c" by (rule run_nil)
  with client_lifecycle [OF c0 r, of sample_time "''IBM''" Buy Limit 1 1 1 "''q''" 2 1] d c0 show ?thesis by auto
qed

section \<open>An order on its way to the engine\<close>

lemma show_int_inj: "show_int i = show_int j \<Longrightarrow> i32_min \<le> i \<Longrightarrow> i \<le> i32_max \<Longrightarrow> i32_min \<le> j \<Longrightarrow> j \<le> i32_max \<Longrightarrow> i = j"
  by (metis option.inject parse_sint_show_int)

lemma show_int_preferred: "0 < i \<Longrightarrow> i \<le> i32_max \<Longrightarrow> preferred_id (show_int i) = Some i"
  by (simp add: preferred_id_def parse_sint_show_int QUOTE_ORDER_ID_def)

lemma show_int_nonempty: "show_int i \<noteq> []"
  by (simp add: show_int_def show_nat_nonempty del: show_nat.simps)

text \<open>A client that numbers its requests keeps its numbers in the engine.\<close>

lemma intern_numeric:
  assumes "wire_ids_ok ids" "\<forall>j w. wi_wire ids j = Some w \<longrightarrow> w = show_int j" "0 < i" "i \<le> i32_max" "wi_wire ids i = None"
  shows "wi_internal ids (show_int i) = None"
    "intern ids (show_int i) = (Inr i, \<lparr>wi_internal = (wi_internal ids)(show_int i \<mapsto> i), wi_wire = (wi_wire ids)(i \<mapsto> show_int i), wi_next = wi_next ids\<rparr>)"
proof -
  show n: "wi_internal ids (show_int i) = None"
  proof (rule ccontr)
    assume "wi_internal ids (show_int i) \<noteq> None"
    then obtain j where j: "wi_wire ids j = Some (show_int i)" using assms(1) by (auto simp: wire_ids_ok_def)
    then have "0 < j" "j \<le> i32_max" "show_int i = show_int j" using assms(1,2) by (auto simp: wire_ids_ok_def)
    then have "i = j" using assms(3,4) show_int_inj [of i j] by simp
    then show False using j assms(5) by simp
  qed
  show "intern ids (show_int i) = (Inr i, \<lparr>wi_internal = (wi_internal ids)(show_int i \<mapsto> i), wi_wire = (wi_wire ids)(i \<mapsto> show_int i), wi_next = wi_next ids\<rparr>)"
    using n assms(3-5) show_int_preferred show_int_nonempty by (simp add: intern_def choose_id_def)
qed

lemma interned_snoc: "interned (ws @ [w]) = snd (intern (interned ws) w)"
  by (simp add: interned_def adds_def)

lemma interned_numeric:
  assumes "\<forall>j \<in> set js. 0 < j \<and> j \<le> i32_max"
  shows "wi_wire (interned (map show_int js)) j = (if j \<in> set js then Some (show_int j) else None)"
  using assms
proof (induction js arbitrary: j rule: rev_induct)
  case Nil
  then show ?case by (simp add: interned_def adds_def wire_ids_new_def)
next
  case (snoc k js)
  let ?ids = "interned (map show_int js)"
  have ih: "wi_wire ?ids j = (if j \<in> set js then Some (show_int j) else None)" for j using snoc by simp
  have s: "interned (map show_int (js @ [k])) = snd (intern ?ids (show_int k))" using interned_snoc by simp
  show ?case
  proof (cases "k \<in> set js")
    case True
    then have "wi_internal ?ids (show_int k) = Some k" using ih interned_ok by (simp add: wire_ids_ok_def)
    then have "intern ?ids (show_int k) = (Inr k, ?ids)" using show_int_nonempty by (simp add: intern_def)
    then show ?thesis using ih s True by auto
  next
    case False
    then have "wi_wire ?ids k = None" using ih by simp
    then show ?thesis
      using intern_numeric(2) [OF interned_ok, of "map show_int js" k] ih snoc.prems s by (simp split: if_splits)
  qed
qed

lemma fresh_id_numeric:
  assumes "\<forall>j \<in> set js. 0 < j \<and> j \<le> i32_max" "0 < i" "i \<le> i32_max" "i \<notin> set js"
  shows "fresh_id (interned (map show_int js)) (show_int i) = (Inr i, interned (map show_int (js @ [i])))"
proof -
  let ?ids = "interned (map show_int js)"
  have w: "\<forall>j w. wi_wire ?ids j = Some w \<longrightarrow> w = show_int j" "wi_wire ?ids i = None"
    using interned_numeric [OF assms(1)] assms(4) by simp_all
  note n = intern_numeric [OF interned_ok w(1) assms(2,3) w(2)]
  then show ?thesis using interned_snoc [of "map show_int js" "show_int i"] by (simp add: fresh_id_def)
qed

lemma submit_sent:
  assumes "submit c kind fs = (True, c')"
  shows "ct_shared c' = ct_shared c" "ch_items (ct_tx c') = ch_items (ct_tx c) @ [OutMessage kind fs]"
  using assms by (auto simp: submit_def send_q_def try_send_def split: prod.splits if_splits sum.splits)

text \<open>
  C35. A client's order arrives in the engine as the client meant it and under the client's own number: when the
  application's call succeeds, the order is in the client's table, its message is the last of the mailbox, the
  writer frames it, the exchange parses and decodes it to the same order (a market order without a
  price), and the business handler passes it to the engine with the very number the application got,
  whatever smaller numbers the client has used before.
\<close>

theorem client_order_reaches_engine:
  assumes "client_create_order D time c symb sd ty p q = (Some i, c')" "0 \<le> ct_next_order c" "ct_next_order c < i32_max"
    "ty = Limit \<longrightarrow> wire_exact D p \<and> 0 < p" "wire_exact D q" "0 < q" "ws_seq ws < u64_max"
    "validate_timestamp chrono time = Inr ()"
    "sendable time (ws_begin ws) ''D'' (ws_sender ws) (ws_target ws) (build_new_order_single D time (show_int i) symb sd ty p q)"
    "cn_ids conn = interned (map show_int js)" "\<forall>j \<in> set js. 0 < j \<and> j \<le> ct_next_order c"
    "get_by_symbol (en_instruments (cn_engine conn)) symb = Some ins" "price = (if ty = Limit then p else 0)"
  shows "sh_orders (ct_shared c') i = Some (new_view i symb sd p q) \<and>
    (\<exists>m bytes ws' msg. ch_items (ct_tx c') = ch_items (ct_tx c) @ [m] \<and> write_one D time None ws m = (Write bytes, ws') \<and>
       parse_wire bytes = Inr msg \<and> decode D chrono msg = Some (Inr (NewOrderSingle (show_int i) symb sd ty price q)) \<and>
       new_order_request D today s conn (show_int i) symb sd ty price q =
         map_option (engine_result s (conn\<lparr>cn_ids := interned (map show_int (js @ [i]))\<rparr>))
           (create_order D today (cn_engine conn) s
              \<lparr>no_id = i, no_instrument = in_id ins, no_side = sd, no_type = ty, no_price = price, no_quantity = q\<rparr>))"
proof -
  let ?fs = "build_new_order_single D time (show_int i) symb sd ty p q"
  let ?bytes = "frame time (ws_begin ws) ''D'' (Suc (ws_seq ws)) (ws_sender ws) (ws_target ws) ?fs"
  have i: "i = ct_next_order c + 1"
    "submit (track (new_view i symb sd p q) (c\<lparr>ct_next_order := i\<rparr>)) ''D'' ?fs = (True, c')"
    using assms(1) wrap_i32_next [OF assms(2,3)]
    by (auto simp: client_create_order_def next_order_id_eq split: prod.splits if_splits)
  note sent = submit_sent [OF i(2)]
  have "encodes D time [] (NewOrderSingle (show_int i) symb sd ty price q) ''D'' ?fs"
    using assms(4-6,13) by (cases ty) (auto intro: limit_order market_order)
  then have "decode D chrono (wire_message (ws_begin ws) ''D'' (Suc (ws_seq ws)) (ws_sender ws) (ws_target ws) time ?fs ?bytes) =
      Some (Inr (NewOrderSingle (show_int i) symb sd ty price q))"
    by (rule decode_encodes [OF _ sendable_values [OF assms(9)] assms(8)])
  moreover have "write_one D time None ws (OutMessage ''D'' ?fs) = (Write ?bytes, ws\<lparr>ws_seq := Suc (ws_seq ws)\<rparr>)"
    using assms(7) by (simp add: write_one_def writer_frame_def saturating_inc_u64_def Let_def)
  moreover have "fresh_id (cn_ids conn) (show_int i) = (Inr i, interned (map show_int (js @ [i])))"
    unfolding assms(10) by (rule fresh_id_numeric) (use assms(2,3,11) i(1) in auto)
  ultimately show ?thesis
    using sent frame_parses [OF assms(9)] assms(12) by (auto simp: new_order_request_def track_def new_view_def Let_def)
qed

definition sample_logged_in :: client where
  "sample_logged_in =
     \<lparr>ct_shared = shared_new\<lparr>sh_logged_in := True\<rparr>, ct_tx = channel_new, ct_next_order = 0, ct_running = True, ct_seq = sequence_new 2,
      ct_started = 0, ct_first = False, ct_last = 0, ct_pending = None\<rparr>"

definition sample_ibm_engine :: engine where
  "sample_ibm_engine = engine_new\<lparr>en_instruments := im_put im_new (instrument_new 7 ''IBM'')\<rparr>"

lemma plain_show_int: "0 \<le> i \<Longrightarrow> plain_value (show_int i)"
  using plain_show_nat by (simp add: show_int_def)

theorem client_order_reaches_engine_witness:
  "\<exists>c' m bytes ws' msg. client_create_order sample_codec sample_time sample_logged_in ''IBM'' Buy Limit 100 5 = (Some 1, c') \<and>
     ch_items (ct_tx c') = [m] \<and> write_one sample_codec sample_time None sample_writer m = (Write bytes, ws') \<and>
     parse_wire bytes = Inr msg \<and> decode sample_codec sample_chrono msg = Some (Inr (NewOrderSingle (show_int 1) ''IBM'' Buy Limit 100 5))"
proof -
  let ?conn = "\<lparr>cn_engine = sample_ibm_engine, cn_tx = channel_new, cn_ids = interned (map show_int [])\<rparr>"
  have "fst (client_create_order sample_codec sample_time sample_logged_in ''IBM'' Buy Limit 100 5) = Some 1"
    by (simp add: client_create_order_def sample_logged_in_def next_order_id_def wrap_i32_def submit_def send_q_def try_send_def
        channel_new_def channel_with_flag_def CAPACITY_def track_def shared_new_def Let_def)
  then obtain c' where c': "client_create_order sample_codec sample_time sample_logged_in ''IBM'' Buy Limit 100 5 = (Some 1, c')"
    by (metis prod.collapse)
  have t: "validate_timestamp sample_chrono sample_time = Inr ()"
    by (simp add: validate_timestamp_def sample_chrono_def sample_time_def)
  have s: "sendable sample_time (ws_begin sample_writer) ''D'' (ws_sender sample_writer) (ws_target sample_writer)
      (build_new_order_single sample_codec sample_time (show_int 1) ''IBM'' Buy Limit 100 5)"
    using plain_show_int [of 1] plain_show_nat [of 100] plain_show_nat [of 5]
    by (simp add: sendable_def build_new_order_single_def plain_field_def sample_writer_def) (simp add: sample_plain sample_time_def)
  have e: "get_by_symbol (en_instruments (cn_engine ?conn)) ''IBM'' = Some (instrument_new 7 ''IBM'')"
    by (simp add: sample_ibm_engine_def get_by_symbol_def im_put_def im_new_def instrument_new_def)
  have "ch_items (ct_tx sample_logged_in) = []" by (simp add: sample_logged_in_def channel_new_def channel_with_flag_def)
  with client_order_reaches_engine [OF c' _ _ _ _ _ _ t s _ _ e, of "[]" 100 0 "''s''"] show ?thesis
    using c' by (simp add: sample_exact sample_logged_in_def sample_writer_def) blast
qed

section \<open>A report on its way back\<close>

text \<open>The record a report for order \<open>i\<close> starts from: its own, or that of the order it replaces or cancels.\<close>

definition starting_view :: "initiator_shared \<Rightarrow> report \<Rightarrow> order_view option" where
  "starting_view sh r =
     (case sh_orders sh (report_cl_ord_id r) of
        Some v \<Rightarrow> Some v
      | None \<Rightarrow> map_option (\<lambda>v. v\<lparr>ov_id := report_cl_ord_id r\<rparr>) (Option.bind (rp_orig r) (sh_orders sh)))"

text \<open>The record that shows the order of the engine's report.\<close>

definition engine_view :: "report \<Rightarrow> order_view \<Rightarrow> order_view" where
  "engine_view r v =
     v\<lparr>ov_exchange_id := o_exchange_id (rp_order r), ov_remaining := open_quantity (rp_order r),
       ov_price := (if o_type (rp_order r) = Limit then o_price (rp_order r) else 0), ov_quantity := o_quantity (rp_order r),
       ov_state := wire_state r\<rparr>"

lemma handle_report_for:
  assumes "0 < report_cl_ord_id r" "report_cl_ord_id r \<le> i32_max" "\<forall>k. rp_orig r = Some k \<longrightarrow> 0 < k \<and> k \<le> i32_max"
    "\<not> starts_with ''quote.'' (o_exchange_id (rp_order r))" "starting_view sh r = Some v"
    "data = report_data_for r (Some (show_int (report_cl_ord_id r))) (map_option show_int (rp_orig r))"
  shows "handle_execution_report sh data =
    sh\<lparr>sh_orders := (\<lambda>k. if k = report_cl_ord_id r then Some (engine_view r v) else if rp_orig r = Some k then None else sh_orders sh k),
       sh_calls := sh_calls sh @
         (if er_is_fill data then [OnFill (report_fill_view data (Some (report_cl_ord_id r)))] else []) @ [OnOrderStatus (engine_view r v)]\<rparr>"
proof -
  let ?i = "report_cl_ord_id r"
  have q: "\<not> report_is_quote data" using assms(4,6) show_int_nonempty by (simp add: report_is_quote_def report_data_for_def)
  have p: "parse_i32 (er_cl_ord_id data) = Some ?i" "Option.bind (er_orig_cl_ord_id data) parse_i32 = rp_orig r"
    using assms(1-3,6) by (simp_all add: report_data_for_def parse_sint_show_int split: option.split)
      (cases "rp_orig r"; simp add: parse_sint_show_int)
  have v: "report_view data = engine_view r" by (simp add: fun_eq_iff report_view_def engine_view_def assms(6) report_data_for_def)
  have "apply_report data ?i (sh_orders sh) =
      (Some (engine_view r v), \<lambda>k. if k = ?i then Some (engine_view r v) else if rp_orig r = Some k then None else sh_orders sh k)"
    using assms(5) unfolding apply_report_def p(2) v Let_def
    by (cases "rp_orig r") (auto simp: starting_view_def fun_eq_iff split: option.splits)
  then show ?thesis using q p(1) by (simp add: handle_execution_report_def Let_def)
qed

text \<open>
  C36. A report brings the client's table to the state of the engine: written for a client that numbers its own
  requests, parsed and decoded by its reader, the report puts the engine's order under the client's number
  (exchange identifier, price, quantity, open quantity and state), starting from the record of that number
  or of the order it replaces or cancels, drops the record of the latter, leaves all others alone,
  and calls back first with the fill, if it is one, and then with the new record.
\<close>

theorem client_view_follows_engine:
  assumes "report_ok D r" "dec_add D (o_cum (rp_order r)) (open_quantity (rp_order r)) = Some tot_q" "ws_seq ws < u64_max"
    "validate_timestamp chrono time = Inr ()" "\<forall>j \<in> set js. 0 < j \<and> j \<le> i32_max" "report_cl_ord_id r \<in> set js"
    "\<forall>k. rp_orig r = Some k \<longrightarrow> k \<in> set js" "ids = interned (map show_int js)"
    "sendable time (ws_begin ws) ''8'' (ws_sender ws) (ws_target ws) (report_fields D time (Some ids) r)"
    "\<not> starts_with ''quote.'' (o_exchange_id (rp_order r))" "starting_view sh r = Some v"
  shows "\<exists>bytes ws' m data. write_one D time (Some ids) ws (OutReport r) = (Write bytes, ws') \<and> parse_wire bytes = Inr m \<and>
    decode D chrono m = Some (Inr (ExecutionReport data)) \<and>
    er_is_fill data = (report_event r \<in> {ExecPartialFill, ExecFill}) \<and>
    handle_execution_report sh data =
      sh\<lparr>sh_orders := (\<lambda>k. if k = report_cl_ord_id r then Some (engine_view r v) else if rp_orig r = Some k then None else sh_orders sh k),
         sh_calls := sh_calls sh @
           (if er_is_fill data then [OnFill (report_fill_view data (Some (report_cl_ord_id r)))] else []) @ [OnOrderStatus (engine_view r v)]\<rparr>"
proof -
  let ?i = "report_cl_ord_id r" and ?data = "report_data_for r (Some (show_int (report_cl_ord_id r))) (map_option show_int (rp_orig r))"
  note num = interned_numeric [OF assms(5)]
  have i: "0 < ?i" "?i \<le> i32_max" "\<forall>k. rp_orig r = Some k \<longrightarrow> 0 < k \<and> k \<le> i32_max" using assms(5-7) by blast+
  have "client_cl ids r = Some (show_int ?i)" using i(1) assms(6,8) num by (simp add: client_cl_def wire_for_def)
  moreover have "client_orig ids r = map_option show_int (rp_orig r)"
    using assms(7,8) num by (cases "rp_orig r") (simp_all add: client_orig_def wire_for_def)
  moreover have "\<forall>k. rp_orig r = Some k \<longrightarrow> i32_min \<le> k \<and> k \<le> i32_max" using i(3) by force
  moreover have "wire_ids_ok ids" using assms(8) interned_ok by simp
  ultimately have "\<exists>bytes ws' m. write_one D time (Some ids) ws (OutReport r) = (Write bytes, ws') \<and> parse_wire bytes = Inr m \<and>
      decode D chrono m = Some (Inr (ExecutionReport ?data))"
    using report_delivered [OF _ assms(1) _ assms(2-4,9)] by simp
  moreover have "er_is_fill ?data = (report_event r \<in> {ExecPartialFill, ExecFill})" by (simp add: report_data_for_def)
  ultimately show ?thesis using handle_report_for [OF i assms(10,11) refl] by blast
qed

theorem client_view_follows_engine_witness:
  "\<exists>bytes ws' m data v. write_one sample_codec sample_time (Some (interned (map show_int [1]))) sample_writer (OutReport sample_report) =
      (Write bytes, ws') \<and> parse_wire bytes = Inr m \<and> decode sample_codec sample_chrono m = Some (Inr (ExecutionReport data)) \<and>
    sh_orders (handle_execution_report (shared_new\<lparr>sh_orders := [1 \<mapsto> new_view 1 ''IBM'' Buy 100 5]\<rparr>) data) 1 = Some v \<and>
    ov_remaining v = 3 \<and> ov_state v = PartialFill"
proof -
  let ?ids = "interned (map show_int [1])" and ?sh = "shared_new\<lparr>sh_orders := [1 \<mapsto> new_view 1 ''IBM'' Buy 100 5]\<rparr>"
  have r: "report_cl_ord_id sample_report = 1" "rp_orig sample_report = None" "wire_state sample_report = PartialFill"
    by (simp_all add: sample_report_def report_cl_ord_id_def order_limit_def wire_state_def report_event_def)
  have w: "wire_for ?ids 1 = Some (show_int 1)" using interned_numeric [of "[1]" 1] by (simp add: wire_for_def)
  have c: "client_cl ?ids sample_report = Some (show_int 1)" "client_orig ?ids sample_report = None"
    using w r by (simp_all add: client_cl_def client_orig_def)
  have e: "report_ok sample_codec sample_report"
    by (simp add: report_ok_def sample_report_def open_quantity_def order_limit_def report_event_def report_fill_def sample_exact)
  have a: "dec_add sample_codec (o_cum (rp_order sample_report)) (open_quantity (rp_order sample_report)) = Some 5"
    by (simp add: sample_report_def open_quantity_def sample_codec_def sample_decimal_def checked_dec_def dec_limit_def)
  have t: "validate_timestamp sample_chrono sample_time = Inr ()"
    by (simp add: validate_timestamp_def sample_chrono_def sample_time_def)
  have o: "\<forall>i. rp_orig sample_report = Some i \<longrightarrow> i32_min \<le> i \<and> i \<le> i32_max" using r(2) by simp
  have fs: "report_fields sample_codec sample_time (Some ?ids) sample_report =
     [(37, ''x1''), (17, ''exec.1''), (20, ''0''), (150, ''1''), (39, ''1''), (55, ''IBM''), (54, ''1''),
      (38, show_nat 5), (40, ''2''), (151, show_nat 3), (14, show_nat 2), (6, show_nat 100), (60, sample_time),
      (11, show_int 1), (44, show_nat 100), (31, show_nat 100), (32, show_nat 2)]"
    unfolding report_fields_translated [OF interned_ok o] c
    by (simp add: exec_fields_def sample_report_def report_event_def report_status_def order_limit_def open_quantity_def
        report_fill_def Let_def)
  have s: "sendable sample_time (ws_begin sample_writer) ''8'' (ws_sender sample_writer) (ws_target sample_writer)
      (report_fields sample_codec sample_time (Some ?ids) sample_report)"
    unfolding fs by (simp add: sendable_def plain_field_def plain_show_nat plain_show_int sample_writer_def)
      (simp add: sample_plain sample_time_def)
  have q: "\<not> starts_with ''quote.'' (o_exchange_id (rp_order sample_report))" by (simp add: sample_report_def starts_with_def)
  have v: "starting_view ?sh sample_report = Some (new_view 1 ''IBM'' Buy 100 5)" using r(1) by (simp add: starting_view_def)
  have n: "ws_seq sample_writer < u64_max" by (simp add: sample_writer_def)
  have "ov_remaining (engine_view sample_report u) = 3" "ov_state (engine_view sample_report u) = PartialFill" for u
    using r(3) by (simp_all add: engine_view_def sample_report_def open_quantity_def)
  with client_view_follows_engine [OF e a n t _ _ _ refl s q v] r(1,2) show ?thesis by fastforce
qed

end
