(* ===== verification/Config.thy ===== *)
theory Config
  imports Session_Messages
begin

text \<open>
  Session settings (\<open>src/fix/config.rs\<close>): the settings file with one \<open>[DEFAULT]\<close> section and any number of
  \<open>[SESSION]\<close> sections, the typed accessors, the resolution of a session against the defaults, and the checks made
  when a file is loaded. The file is the list of its lines, a line that cannot be read being \<^term>\<open>Inl ()\<close>.
  A message text of an error is a constructor of \<open>config_fault\<close>, or left out where key and value tell it.
\<close>

definition KNOWN_KEYS :: "string list" where
  "KNOWN_KEYS =
     [''ConnectionType'', ''BeginString'', ''SenderCompID'', ''TargetCompID'', ''SocketAcceptPort'', ''SocketConnectHost'',
      ''SocketConnectPort'', ''HeartBtInt'', ''ResetOnLogout'', ''ResetOnDisconnect'', ''PersistMessages'',
      ''UseDataDictionary'', ''DataDictionary'', ''FileLogPath'', ''Logging'', ''DynamicSessions'', ''TargetCompIDs'',
      ''FillPolicy'']"

datatype config_fault =
    UnclosedHeader | UnsupportedSection string | NotKeyValue | EmptyKey | EmptyValue string | BeforeSection
  | ManyInitiators | ManySessions string | DuplicateIdentity nat

datatype config_error =
    CfgIo
  | CfgInvalid nat config_fault
  | CfgUnknownKey nat string
  | CfgDuplicateKey nat string string
  | CfgMissing string string
  | CfgUnsupported string string

section \<open>Typed access\<close>

type_synonym settings = "string \<Rightarrow> string option"

definition parse_bool :: "string \<Rightarrow> string \<Rightarrow> config_error + bool" where
  "parse_bool key value =
     (if value = ''Y'' then Inr True else if value = ''N'' then Inr False else Inl (CfgUnsupported key value))"

definition parse_port :: "string \<Rightarrow> string \<Rightarrow> config_error + nat" where
  "parse_port key value =
     (case parse_u16 value of
        None \<Rightarrow> Inl (CfgUnsupported key value)
      | Some n \<Rightarrow> if n = 0 then Inl (CfgUnsupported key value) else Inr n)"

definition parse_count :: "string \<Rightarrow> string \<Rightarrow> config_error + nat" where
  "parse_count key value =
     (case parse_u32 value of
        None \<Rightarrow> Inl (CfgUnsupported key value)
      | Some n \<Rightarrow> if key = ''HeartBtInt'' \<and> n = 0 then Inl (CfgUnsupported key value) else Inr n)"

definition cfg_get_or :: "settings \<Rightarrow> string \<Rightarrow> string \<Rightarrow> string" where
  "cfg_get_or s key dflt = (case s key of None \<Rightarrow> dflt | Some v \<Rightarrow> v)"

definition cfg_required :: "settings \<Rightarrow> string \<Rightarrow> string \<Rightarrow> config_error + string" where
  "cfg_required s sect key = (case s key of None \<Rightarrow> Inl (CfgMissing sect key) | Some v \<Rightarrow> Inr v)"

definition cfg_bool :: "settings \<Rightarrow> string \<Rightarrow> bool \<Rightarrow> config_error + bool" where
  "cfg_bool s key dflt = (case s key of None \<Rightarrow> Inr dflt | Some v \<Rightarrow> parse_bool key v)"

definition cfg_required_bool :: "settings \<Rightarrow> string \<Rightarrow> string \<Rightarrow> config_error + bool" where
  "cfg_required_bool s sect key = (case s key of None \<Rightarrow> Inl (CfgMissing sect key) | Some v \<Rightarrow> parse_bool key v)"

definition cfg_u16 :: "settings \<Rightarrow> string \<Rightarrow> nat \<Rightarrow> config_error + nat" where
  "cfg_u16 s key dflt = (case s key of None \<Rightarrow> Inr dflt | Some v \<Rightarrow> parse_port key v)"

definition cfg_required_u16 :: "settings \<Rightarrow> string \<Rightarrow> string \<Rightarrow> config_error + nat" where
  "cfg_required_u16 s sect key = and_then (cfg_required s sect key) (parse_port key)"

definition cfg_u32 :: "settings \<Rightarrow> string \<Rightarrow> nat \<Rightarrow> config_error + nat" where
  "cfg_u32 s key dflt = (case s key of None \<Rightarrow> Inr dflt | Some v \<Rightarrow> parse_count key v)"

definition cfg_required_u32 :: "settings \<Rightarrow> string \<Rightarrow> string \<Rightarrow> config_error + nat" where
  "cfg_required_u32 s sect key = and_then (cfg_required s sect key) (parse_count key)"

section \<open>Resolution\<close>

record fix_config =
  fc_defaults :: settings
  fc_sessions :: "settings list"

definition fc_session :: "fix_config \<Rightarrow> nat \<Rightarrow> settings option" where
  "fc_session c i = (if i < length (fc_sessions c) then Some (fc_defaults c ++ (fc_sessions c ! i)) else None)"

definition resolved_sessions :: "fix_config \<Rightarrow> settings list" where
  "resolved_sessions c = map (\<lambda>i. the (fc_session c i)) (filter (\<lambda>i. fc_session c i \<noteq> None) [0..<length (fc_sessions c)])"

definition with_role :: "string \<Rightarrow> fix_config \<Rightarrow> settings list" where
  "with_role role c = filter (\<lambda>s. s ''ConnectionType'' = Some role) (resolved_sessions c)"

definition unique_role :: "fix_config \<Rightarrow> string \<Rightarrow> config_error + settings" where
  "unique_role c role =
     (case with_role role c of
        [only] \<Rightarrow> Inr only
      | [] \<Rightarrow> Inl (CfgMissing ''[SESSION]'' (role @ '' session''))
      | _ \<Rightarrow> Inl (CfgInvalid 0 (ManySessions role)))"

definition fc_initiator :: "fix_config \<Rightarrow> string option \<Rightarrow> config_error + settings" where
  "fc_initiator c sender_comp_id =
     (let selected = with_role ''initiator'' c;
          selected = (case sender_comp_id of None \<Rightarrow> selected | Some v \<Rightarrow> filter (\<lambda>s. s ''SenderCompID'' = Some v) selected)
      in case selected of
           [only] \<Rightarrow> Inr only
         | [] \<Rightarrow> Inl (CfgMissing ''[SESSION]'' ''initiator session'')
         | _ \<Rightarrow> Inl (CfgInvalid 0 ManyInitiators))"

definition validate_supported_runtime :: "settings \<Rightarrow> config_error + unit" where
  "validate_supported_runtime s =
     and_then (cfg_bool s ''PersistMessages'' True) (\<lambda>persist.
       if persist then Inl (CfgUnsupported ''PersistMessages'' ''Y'')
       else
     and_then (cfg_bool s ''ResetOnDisconnect'' False) (\<lambda>reset_disconnect.
       if \<not> reset_disconnect then Inl (CfgUnsupported ''ResetOnDisconnect'' ''N'')
       else
     and_then (cfg_bool s ''ResetOnLogout'' False) (\<lambda>reset_logout.
       if \<not> reset_logout then Inl (CfgUnsupported ''ResetOnLogout'' ''N'')
       else
     and_then (cfg_bool s ''UseDataDictionary'' True) (\<lambda>dictionary.
       if \<not> dictionary then Inl (CfgUnsupported ''UseDataDictionary'' ''N'')
       else case s ''DataDictionary'' of
              None \<Rightarrow> Inr ()
            | Some path \<Rightarrow>
                if path \<noteq> ''FIX42.xml'' \<and> path \<noteq> ''builtin'' then Inl (CfgUnsupported ''DataDictionary'' path) else Inr ()))))"

section \<open>Checks of a loaded file\<close>

text \<open>\<open>validate_comp_id\<close>: 1 to 64 ASCII characters that are neither control characters nor white space.\<close>

definition comp_id_ok :: "string \<Rightarrow> bool" where
  "comp_id_ok value \<longleftrightarrow> value \<noteq> [] \<and> length value \<le> 64 \<and> list_all is_ascii_char value \<and>
     \<not> list_ex (\<lambda>c. (of_char c :: nat) < 32 \<or> (of_char c :: nat) = 127 \<or> is_ascii_whitespace_char c) value"

definition validate_comp_id :: "string \<Rightarrow> string \<Rightarrow> config_error + unit" where
  "validate_comp_id key value = (if comp_id_ok value then Inr () else Inl (CfgUnsupported key value))"

text \<open>The first error of a check made for each element.\<close>

fun for_each :: "('a \<Rightarrow> 'e + unit) \<Rightarrow> 'a list \<Rightarrow> 'e + unit" where
  "for_each check [] = Inr ()"
| "for_each check (x # xs) = and_then (check x) (\<lambda>_. for_each check xs)"

definition check_value :: "settings \<Rightarrow> string \<Rightarrow> (string \<Rightarrow> config_error + 'a) \<Rightarrow> config_error + unit" where
  "check_value s key check = (case s key of None \<Rightarrow> Inr () | Some v \<Rightarrow> and_then (check v) (\<lambda>_. Inr ()))"

definition one_of :: "string \<Rightarrow> string list \<Rightarrow> string \<Rightarrow> config_error + unit" where
  "one_of key allowed value = (if value \<in> set allowed then Inr () else Inl (CfgUnsupported key value))"

definition BOOLEAN_KEYS :: "string list" where
  "BOOLEAN_KEYS = [''ResetOnLogout'', ''ResetOnDisconnect'', ''PersistMessages'', ''UseDataDictionary'', ''Logging'', ''DynamicSessions'']"

definition target_ids :: "string \<Rightarrow> string list" where
  "target_ids value = map trim (split_char (CHR '','') value)"

definition check_settings :: "settings \<Rightarrow> config_error + unit" where
  "check_settings s =
     and_then (check_value s ''ConnectionType'' (one_of ''ConnectionType'' [''acceptor'', ''initiator''])) (\<lambda>_.
     and_then (check_value s ''BeginString'' (one_of ''BeginString'' [''FIX.4.2''])) (\<lambda>_.
     and_then (for_each (\<lambda>key. check_value s key (parse_bool key)) BOOLEAN_KEYS) (\<lambda>_.
     and_then (check_value s ''HeartBtInt'' (parse_count ''HeartBtInt'')) (\<lambda>_.
     and_then (for_each (\<lambda>key. check_value s key (parse_port key)) [''SocketAcceptPort'', ''SocketConnectPort'']) (\<lambda>_.
     and_then (for_each (\<lambda>key. check_value s key (validate_comp_id key)) [''SenderCompID'', ''TargetCompID'']) (\<lambda>_.
       check_value s ''TargetCompIDs'' (\<lambda>value.
         for_each (\<lambda>target. if target = [] then Inl (CfgUnsupported ''TargetCompIDs'' value)
                             else validate_comp_id ''TargetCompIDs'' target) (target_ids value))))))))"

definition session_identity :: "settings \<Rightarrow> string option" where
  "session_identity s =
     (case (s ''BeginString'', s ''SenderCompID'', s ''TargetCompID'') of
        (Some begin_string, Some sender, Some target) \<Rightarrow> Some (begin_string @ ''|'' @ sender @ ''|'' @ target)
      | _ \<Rightarrow> None)"

fun check_identities :: "nat \<Rightarrow> string set \<Rightarrow> settings list \<Rightarrow> config_error + unit" where
  "check_identities index identities [] = Inr ()"
| "check_identities index identities (s # ss) =
     (let sect = ''[SESSION] #'' @ show_nat index
      in and_then (cfg_required s sect ''ConnectionType'') (\<lambda>_.
         and_then (cfg_required s sect ''BeginString'') (\<lambda>_.
           case session_identity s of
             None \<Rightarrow> check_identities (index + 1) identities ss
           | Some identity \<Rightarrow>
               if identity \<in> identities then Inl (CfgInvalid 0 (DuplicateIdentity index))
               else check_identities (index + 1) (insert identity identities) ss)))"

definition validate_values :: "fix_config \<Rightarrow> config_error + unit" where
  "validate_values c =
     and_then (for_each check_settings (fc_defaults c # resolved_sessions c)) (\<lambda>_.
     and_then (check_value (fc_defaults c) ''FillPolicy'' (one_of ''FillPolicy'' [''Real'', ''Tiered''])) (\<lambda>_.
     and_then (for_each (\<lambda>s. case s ''FillPolicy'' of None \<Rightarrow> Inr () | Some v \<Rightarrow> Inl (CfgUnsupported ''FillPolicy'' v)) (fc_sessions c)) (\<lambda>_.
       check_identities 0 {} (resolved_sessions c))))"

section \<open>Loading\<close>

datatype section_kind = NoSection | DefaultSection | SessionSection nat

fun section_name :: "section_kind \<Rightarrow> string" where
  "section_name NoSection = ''<none>''"
| "section_name DefaultSection = ''[DEFAULT]''"
| "section_name (SessionSection _) = ''[SESSION]''"

record load_state =
  ld_defaults :: settings
  ld_sessions :: "settings list"
  ld_section :: section_kind

definition load_header :: "nat \<Rightarrow> string \<Rightarrow> load_state \<Rightarrow> config_error + load_state" where
  "load_header n line st =
     (if \<not> ends_with_char (CHR '']'') line then Inl (CfgInvalid n UnclosedHeader)
      else if line = ''[DEFAULT]'' then Inr (st\<lparr>ld_section := DefaultSection\<rparr>)
      else if line = ''[SESSION]'' then
        Inr (st\<lparr>ld_sessions := ld_sessions st @ [Map.empty], ld_section := SessionSection (length (ld_sessions st))\<rparr>)
      else Inl (CfgInvalid n (UnsupportedSection line)))"

definition load_setting :: "nat \<Rightarrow> string \<Rightarrow> string \<Rightarrow> load_state \<Rightarrow> config_error + load_state" where
  "load_setting n key value st =
     (if key = [] then Inl (CfgInvalid n EmptyKey)
      else if value = [] then Inl (CfgInvalid n (EmptyValue key))
      else if key \<notin> set KNOWN_KEYS then Inl (CfgUnknownKey n key)
      else case ld_section st of
        NoSection \<Rightarrow> Inl (CfgInvalid n BeforeSection)
      | DefaultSection \<Rightarrow>
          if ld_defaults st key \<noteq> None then Inl (CfgDuplicateKey n key (section_name (ld_section st)))
          else Inr (st\<lparr>ld_defaults := (ld_defaults st)(key \<mapsto> value)\<rparr>)
      | SessionSection i \<Rightarrow>
          if (ld_sessions st ! i) key \<noteq> None then Inl (CfgDuplicateKey n key (section_name (ld_section st)))
          else Inr (st\<lparr>ld_sessions := (ld_sessions st)[i := (ld_sessions st ! i)(key \<mapsto> value)]\<rparr>))"

definition load_line :: "nat \<Rightarrow> unit + string \<Rightarrow> load_state \<Rightarrow> config_error + load_state" where
  "load_line n raw st =
     (case raw of
        Inl _ \<Rightarrow> Inl CfgIo
      | Inr raw_line \<Rightarrow>
          let line = trim raw_line
          in if line = [] \<or> starts_with ''#'' line \<or> starts_with ''//'' line then Inr st
             else if starts_with ''['' line then load_header n line st
             else case split_once (CHR ''='') line of
                    None \<Rightarrow> Inl (CfgInvalid n NotKeyValue)
                  | Some (key, value) \<Rightarrow> load_setting n (trim key) (trim value) st)"

fun load_settings :: "nat \<Rightarrow> (unit + string) list \<Rightarrow> load_state \<Rightarrow> config_error + load_state" where
  "load_settings n [] st = Inr st"
| "load_settings n (l # ls) st = and_then (load_line n l st) (load_settings (n + 1) ls)"

definition load_config :: "(unit + string) list \<Rightarrow> config_error + fix_config" where
  "load_config ls =
     and_then (load_settings 1 ls \<lparr>ld_defaults = Map.empty, ld_sessions = [], ld_section = NoSection\<rparr>) (\<lambda>st.
       let c = \<lparr>fc_defaults = ld_defaults st, fc_sessions = ld_sessions st\<rparr>
       in and_then (validate_values c) (\<lambda>_. Inr c))"

end
