(* ===== verification/Startup.thy ===== *)
theory Startup
  imports Config
begin

text \<open>
  What the exchange makes of its settings file before it listens (\<open>main\<close> of \<open>src/bin/exchange.rs\<close>, and
  \<open>LogConfig::from_settings\<close> of \<open>src/fix/log.rs\<close>): the identity and the port of the acceptor, the fill policy, and
  the clients it admits. Every \<open>die\<close> is an error; opening the log files and loading the instruments,
  which come in between, are left out.
\<close>

datatype startup_error =
    BadSettings config_error
  | BadPolicy string
  | MixedIdentity
  | MixedPorts
  | NoTargets

definition settings_ok :: "config_error + 'a \<Rightarrow> startup_error + 'a" where
  "settings_ok r = (case r of Inl e \<Rightarrow> Inl (BadSettings e) | Inr x \<Rightarrow> Inr x)"

record log_config =
  lg_enabled :: bool
  lg_dir :: string

definition log_from_settings :: "settings \<Rightarrow> string \<Rightarrow> config_error + log_config" where
  "log_from_settings s default_dir =
     (let dir = cfg_get_or s ''FileLogPath'' default_dir
      in if trim dir = [] then Inl (CfgUnsupported ''FileLogPath'' dir)
         else and_then (cfg_bool s ''Logging'' True) (\<lambda>enabled. Inr \<lparr>lg_enabled = enabled, lg_dir = dir\<rparr>))"

definition setup_required :: "settings \<Rightarrow> string \<Rightarrow> string \<Rightarrow> startup_error + string" where
  "setup_required s key sect =
     (case s key of
        Some v \<Rightarrow> if v = [] then Inl (BadSettings (CfgMissing sect key)) else Inr v
      | None \<Rightarrow> Inl (BadSettings (CfgMissing sect key)))"

abbreviation acceptor_section :: string where "acceptor_section \<equiv> ''acceptor [SESSION]''"

definition session_targets :: "settings \<Rightarrow> string list" where
  "session_targets s =
     (case s ''TargetCompID'' of None \<Rightarrow> [] | Some t \<Rightarrow> [t]) @
     (case s ''TargetCompIDs'' of None \<Rightarrow> [] | Some v \<Rightarrow> filter (\<lambda>t. t \<noteq> []) (target_ids v))"

definition setup_session :: "string \<Rightarrow> string \<Rightarrow> nat \<Rightarrow> bool \<Rightarrow> settings \<Rightarrow> startup_error + string list" where
  "setup_session begin_string sender port dynamic s =
     and_then (settings_ok (validate_supported_runtime s)) (\<lambda>_.
     and_then (setup_required s ''BeginString'' acceptor_section) (\<lambda>b.
       if b \<noteq> begin_string then Inl MixedIdentity
       else
     and_then (setup_required s ''SenderCompID'' acceptor_section) (\<lambda>i.
       if i \<noteq> sender then Inl MixedIdentity
       else
     and_then (settings_ok (cfg_required_u16 s acceptor_section ''SocketAcceptPort'')) (\<lambda>session_port.
       if session_port \<noteq> port then Inl MixedPorts
       else
     and_then (settings_ok (log_from_settings s ''logs/exchange'')) (\<lambda>_.
       if s ''TargetCompID'' = None \<and> \<not> dynamic then Inl (BadSettings (CfgMissing acceptor_section ''TargetCompID''))
       else Inr (session_targets s))))))"

fun setup_sessions :: "string \<Rightarrow> string \<Rightarrow> nat \<Rightarrow> bool \<Rightarrow> settings list \<Rightarrow> startup_error + string list" where
  "setup_sessions begin_string sender port dynamic [] = Inr []"
| "setup_sessions begin_string sender port dynamic (s # ss) =
     and_then (setup_session begin_string sender port dynamic s) (\<lambda>ts.
     and_then (setup_sessions begin_string sender port dynamic ss) (\<lambda>us. Inr (ts @ us)))"

definition setup_policy :: "settings \<Rightarrow> startup_error + fill_policy" where
  "setup_policy s =
     (case s ''FillPolicy'' of
        None \<Rightarrow> Inr Real_Fill
      | Some v \<Rightarrow> if v = ''Tiered'' then Inr Tiered_Fill else if v = ''Real'' then Inr Real_Fill else Inl (BadPolicy v))"

definition acceptor_setup :: "fix_config \<Rightarrow> startup_error + (acceptor_config \<times> fill_policy)" where
  "acceptor_setup c =
     (case with_role ''acceptor'' c of
        [] \<Rightarrow> Inl (BadSettings (CfgMissing ''[SESSION]'' ''acceptor session''))
      | first # rest \<Rightarrow>
          and_then (setup_required first ''BeginString'' acceptor_section) (\<lambda>begin_string.
          and_then (setup_required first ''SenderCompID'' acceptor_section) (\<lambda>sender.
          and_then (settings_ok (cfg_required_u16 first acceptor_section ''SocketAcceptPort'')) (\<lambda>port.
          and_then (settings_ok (validate_supported_runtime first)) (\<lambda>_.
          and_then (setup_policy first) (\<lambda>policy.
          and_then (settings_ok (log_from_settings first ''logs/exchange'')) (\<lambda>_.
          and_then (settings_ok (cfg_bool first ''DynamicSessions'' False)) (\<lambda>dynamic.
          and_then (setup_sessions begin_string sender port dynamic (first # rest)) (\<lambda>ts.
            let targets = remdups_adj (sort ts)
            in if dynamic
               then Inr (\<lparr>cfg_port = port, cfg_sender = sender, cfg_begin = begin_string, cfg_admission = Dynamic\<rparr>, policy)
               else if targets = [] then Inl NoTargets
               else Inr (\<lparr>cfg_port = port, cfg_sender = sender, cfg_begin = begin_string, cfg_admission = Declared targets\<rparr>,
                         policy))))))))))"

end
