(* ===== verification/Config_Properties.thy ===== *)
theory Config_Properties
  imports Startup
begin

text \<open>
  A settings file that loads is well typed: every accessor the program uses on it succeeds, in the defaults and
  in every session; and the exchange that starts from it admits exactly the clients it names.
\<close>

section \<open>Chains of checks\<close>

lemma for_each_Inr [rust_bind]: "for_each check xs = Inr u \<longleftrightarrow> (\<forall>x \<in> set xs. check x = Inr ())"
  by (induction xs) (auto simp: rust_bind)

lemma check_value_Inr [rust_bind]: "check_value s key check = Inr u \<longleftrightarrow> (\<forall>v. s key = Some v \<longrightarrow> (\<exists>x. check v = Inr x))"
  by (cases "s key") (auto simp: check_value_def rust_bind)

lemma one_of_Inr [rust_bind]: "one_of key allowed v = Inr u \<longleftrightarrow> v \<in> set allowed"
  by (simp add: one_of_def)

lemma settings_ok_Inr [rust_bind]: "settings_ok r = Inr x \<longleftrightarrow> r = Inr x"
  by (cases r) (simp_all add: settings_ok_def)

lemma cfg_required_Inr [rust_bind]: "cfg_required s sect key = Inr v \<longleftrightarrow> s key = Some v"
  by (cases "s key") (simp_all add: cfg_required_def)

lemma setup_required_Inr [rust_bind]: "setup_required s key sect = Inr v \<longleftrightarrow> s key = Some v \<and> v \<noteq> []"
  by (cases "s key") (auto simp: setup_required_def)

lemma validate_comp_id_Inr [rust_bind]: "validate_comp_id key v = Inr u \<longleftrightarrow> comp_id_ok v"
  by (simp add: validate_comp_id_def)

lemma parse_port_Inr: "parse_port key v = Inr n \<Longrightarrow> 0 < n \<and> n \<le> 65535"
  using parse_uint_bound by (auto simp: parse_port_def split: option.splits if_splits)

lemma parse_count_Inr: "parse_count ''HeartBtInt'' v = Inr n \<Longrightarrow> 0 < n \<and> n \<le> u32_max"
  using parse_uint_bound by (auto simp: parse_count_def split: option.splits if_splits)

section \<open>Loading\<close>

lemma resolved_sessions_eq: "resolved_sessions c = map (\<lambda>s. fc_defaults c ++ s) (fc_sessions c)"
proof -
  have "resolved_sessions c = map (\<lambda>i. fc_defaults c ++ (fc_sessions c ! i)) [0..<length (fc_sessions c)]"
    by (auto simp: resolved_sessions_def fc_session_def intro!: map_cong filter_True)
  also have "\<dots> = map (\<lambda>s. fc_defaults c ++ s) (map (\<lambda>i. fc_sessions c ! i) [0..<length (fc_sessions c)])" by simp
  finally show ?thesis by (simp only: map_nth)
qed

text \<open>What every section holds while a file is read: known keys with values.\<close>

definition entries_ok :: "settings \<Rightarrow> bool" where
  "entries_ok s \<longleftrightarrow> (\<forall>k v. s k = Some v \<longrightarrow> k \<in> set KNOWN_KEYS \<and> v \<noteq> [])"

definition load_ok :: "load_state \<Rightarrow> bool" where
  "load_ok st \<longleftrightarrow> entries_ok (ld_defaults st) \<and> (\<forall>s \<in> set (ld_sessions st). entries_ok s) \<and>
     (\<forall>i. ld_section st = SessionSection i \<longrightarrow> i < length (ld_sessions st))"

lemma entries_ok_update: "entries_ok s \<Longrightarrow> k \<in> set KNOWN_KEYS \<Longrightarrow> v \<noteq> [] \<Longrightarrow> entries_ok (s(k \<mapsto> v))"
  by (simp add: entries_ok_def)

lemma entries_ok_add: "entries_ok s \<Longrightarrow> entries_ok t \<Longrightarrow> entries_ok (s ++ t)"
  by (auto simp: entries_ok_def map_add_Some_iff)

lemma load_setting_ok: "load_ok st \<Longrightarrow> load_setting n key value st = Inr st' \<Longrightarrow> load_ok st'"
  by (cases "ld_section st")
    (auto simp: load_setting_def load_ok_def rust_bind intro!: entries_ok_update split: if_splits dest!: set_update_subset_insert [THEN subsetD])

lemma load_line_ok: "load_ok st \<Longrightarrow> load_line n raw st = Inr st' \<Longrightarrow> load_ok st'"
  by (auto simp: load_line_def load_header_def Let_def load_ok_def [of "_\<lparr>ld_section := _\<rparr>"] split: sum.splits if_splits option.splits
      dest: load_setting_ok)
    (auto simp: load_ok_def entries_ok_def nth_append)

lemma load_settings_ok: "load_ok st \<Longrightarrow> load_settings n ls st = Inr st' \<Longrightarrow> load_ok st'"
  by (induction ls arbitrary: n st) (auto simp: rust_bind dest: load_line_ok)

lemma load_config_Inr:
  assumes "load_config ls = Inr c"
  shows "validate_values c = Inr ()" "entries_ok (fc_defaults c)" "\<forall>s \<in> set (fc_sessions c). entries_ok s"
proof -
  obtain st where st: "load_settings 1 ls \<lparr>ld_defaults = Map.empty, ld_sessions = [], ld_section = NoSection\<rparr> = Inr st"
    "c = \<lparr>fc_defaults = ld_defaults st, fc_sessions = ld_sessions st\<rparr>" "validate_values c = Inr ()"
    using assms by (auto simp: load_config_def rust_bind Let_def)
  have "load_ok st" by (rule load_settings_ok [OF _ st(1)]) (simp add: load_ok_def entries_ok_def)
  then show "validate_values c = Inr ()" "entries_ok (fc_defaults c)" "\<forall>s \<in> set (fc_sessions c). entries_ok s"
    using st(2,3) by (simp_all add: load_ok_def)
qed

lemma check_identities_Inr:
  assumes "check_identities n ids ss = Inr u"
  shows "\<forall>s \<in> set ss. s ''ConnectionType'' \<noteq> None \<and> s ''BeginString'' \<noteq> None"
    "distinct (List.map_filter session_identity ss)" "set (List.map_filter session_identity ss) \<inter> ids = {}"
  using assms
proof (induction n ids ss rule: check_identities.induct)
  case (2 n ids s ss)
  {
    case 1
    then show ?case using 2 by (auto simp: rust_bind Let_def split: option.splits if_splits)
  next
    case 2
    then show ?case using "2.IH" by (auto simp: rust_bind Let_def List.map_filter_simps split: option.splits if_splits)
  next
    case 3
    then show ?case using "2.IH" by (auto simp: rust_bind Let_def List.map_filter_simps split: option.splits if_splits)
  }
qed (simp_all add: List.map_filter_simps)

text \<open>The settings of a loaded file, one section at a time.\<close>

lemma loaded_settings:
  assumes "load_config ls = Inr c" "s \<in> set (fc_defaults c # resolved_sessions c)"
  shows "check_settings s = Inr ()" "entries_ok s" "s ''FillPolicy'' = fc_defaults c ''FillPolicy''"
    "s ''FillPolicy'' \<in> {None, Some ''Real'', Some ''Tiered''}"
proof -
  note l = load_config_Inr [OF assms(1)]
  show "check_settings s = Inr ()" using l(1) assms(2) by (auto simp: validate_values_def rust_bind)
  show "entries_ok s" using l(2,3) assms(2) by (auto simp: resolved_sessions_eq intro: entries_ok_add)
  have none: "t ''FillPolicy'' = None" if "t \<in> set (fc_sessions c)" for t
    using l(1) that by (auto simp: validate_values_def rust_bind split: option.splits)
  have "(fc_defaults c ++ t) ''FillPolicy'' = fc_defaults c ''FillPolicy''" if "t \<in> set (fc_sessions c)" for t
    using none [OF that] by (simp add: map_add_def)
  then show f: "s ''FillPolicy'' = fc_defaults c ''FillPolicy''"
    using assms(2) unfolding resolved_sessions_eq by auto
  have "fc_defaults c ''FillPolicy'' \<in> {None, Some ''Real'', Some ''Tiered''}"
    using l(1) by (cases "fc_defaults c ''FillPolicy''") (auto simp: validate_values_def rust_bind)
  then show "s ''FillPolicy'' \<in> {None, Some ''Real'', Some ''Tiered''}" using f by simp
qed

lemma check_settings_Inr:
  assumes "check_settings s = Inr ()"
  shows "s ''ConnectionType'' \<in> {None, Some ''acceptor'', Some ''initiator''}" "s ''BeginString'' \<in> {None, Some ''FIX.4.2''}"
    "k \<in> set BOOLEAN_KEYS \<Longrightarrow> s k = Some v \<Longrightarrow> \<exists>b. parse_bool k v = Inr b"
    "s ''HeartBtInt'' = Some v \<Longrightarrow> \<exists>n. parse_count ''HeartBtInt'' v = Inr n"
    "k \<in> {''SocketAcceptPort'', ''SocketConnectPort''} \<Longrightarrow> s k = Some v \<Longrightarrow> \<exists>n. parse_port k v = Inr n"
    "k \<in> {''SenderCompID'', ''TargetCompID''} \<Longrightarrow> s k = Some v \<Longrightarrow> comp_id_ok v"
    "s ''TargetCompIDs'' = Some v \<Longrightarrow> \<forall>t \<in> set (target_ids v). comp_id_ok t"
proof -
  note c = assms [unfolded check_settings_def rust_bind]
  show "s ''ConnectionType'' \<in> {None, Some ''acceptor'', Some ''initiator''}" "s ''BeginString'' \<in> {None, Some ''FIX.4.2''}"
    using c by (cases "s ''ConnectionType''"; auto; fail) (use c in \<open>cases "s ''BeginString''"; auto\<close>)
  show "\<exists>b. parse_bool k v = Inr b" if "k \<in> set BOOLEAN_KEYS" "s k = Some v" using c that by blast
  show "\<exists>n. parse_count ''HeartBtInt'' v = Inr n" if "s ''HeartBtInt'' = Some v" using c that by blast
  show "\<exists>n. parse_port k v = Inr n" if "k \<in> {''SocketAcceptPort'', ''SocketConnectPort''}" "s k = Some v"
    using c that by auto
  show "comp_id_ok v" if "k \<in> {''SenderCompID'', ''TargetCompID''}" "s k = Some v" using c that by auto
  show "\<forall>t \<in> set (target_ids v). comp_id_ok t" if "s ''TargetCompIDs'' = Some v"
    using c that by (auto split: if_splits)
qed

section \<open>A sample file\<close>

definition sample_file :: "(unit + string) list" where
  "sample_file = map Inr
     [''[DEFAULT]'', ''ConnectionType=acceptor'', ''BeginString=FIX.4.2'', ''PersistMessages=N'', ''ResetOnDisconnect=Y'',
      ''ResetOnLogout=Y'', ''[SESSION]'', ''SenderCompID=GOX'', ''TargetCompID=C1'', ''SocketAcceptPort=5001'']"

definition sample_settings :: fix_config where
  "sample_settings = \<lparr>fc_defaults = [''ConnectionType'' \<mapsto> ''acceptor'', ''BeginString'' \<mapsto> ''FIX.4.2'', ''PersistMessages'' \<mapsto> ''N'',
       ''ResetOnDisconnect'' \<mapsto> ''Y'', ''ResetOnLogout'' \<mapsto> ''Y''],
     fc_sessions = [[''SenderCompID'' \<mapsto> ''GOX'', ''TargetCompID'' \<mapsto> ''C1'', ''SocketAcceptPort'' \<mapsto> ''5001'']]\<rparr>"

lemmas text_eval = trim_def starts_with_def ends_with_char_def split_once_def is_ascii_whitespace_char_def

lemma sample_lines:
  "load_settings 1 sample_file \<lparr>ld_defaults = Map.empty, ld_sessions = [], ld_section = NoSection\<rparr> =
     Inr \<lparr>ld_defaults = fc_defaults sample_settings, ld_sessions = fc_sessions sample_settings, ld_section = SessionSection 0\<rparr>"
  by (simp add: sample_file_def sample_settings_def load_line_def load_header_def load_setting_def KNOWN_KEYS_def text_eval and_then_def)


lemma sample_resolved:
  "resolved_sessions sample_settings = [fc_defaults sample_settings ++ hd (fc_sessions sample_settings)]"
  by (simp add: resolved_sessions_def fc_session_def sample_settings_def)

lemma sample_port: "parse_u16 ''5001'' = Some 5001"
  by (simp add: parse_uint_def strip_plus_def all_digits_def is_ascii_digit_def digits_val_def digit_val_def)

lemmas settings_eval = check_value_def one_of_def parse_bool_def parse_port_def sample_port validate_comp_id_def comp_id_ok_def BOOLEAN_KEYS_def and_then_def check_settings_def

lemma sample_checks: "check_settings (fc_defaults sample_settings) = Inr ()"
  "check_settings (fc_defaults sample_settings ++ hd (fc_sessions sample_settings)) = Inr ()"
  by (simp_all add: sample_settings_def settings_eval is_ascii_whitespace_char_def is_ascii_char_def)


lemma sample_valid: "validate_values sample_settings = Inr ()"
  unfolding validate_values_def sample_resolved for_each.simps sample_checks
  by (simp add: sample_settings_def and_then_def check_value_def session_identity_def cfg_required_def)

lemma sample_file_loads: "load_config sample_file = Inr sample_settings"
proof -
  have "\<lparr>fc_defaults = fc_defaults sample_settings, fc_sessions = fc_sessions sample_settings\<rparr> = sample_settings" by simp
  note same = this
  show ?thesis
    unfolding load_config_def sample_lines and_then_def [of "Inr _"] sum.case load_state.simps Let_def same sample_valid by simp
qed

lemma sample_role: "with_role ''acceptor'' sample_settings = [fc_defaults sample_settings ++ hd (fc_sessions sample_settings)]"
  unfolding with_role_def sample_resolved by (simp add: sample_settings_def)

lemma sample_setup:
  "acceptor_setup sample_settings =
     Inr (\<lparr>cfg_port = 5001, cfg_sender = ''GOX'', cfg_begin = ''FIX.4.2'', cfg_admission = Declared [''C1'']\<rparr>, Real_Fill)"
  unfolding acceptor_setup_def sample_role
  by (simp add: sample_settings_def settings_eval setup_required_def settings_ok_def cfg_required_u16_def cfg_required_def validate_supported_runtime_def
     cfg_bool_def setup_policy_def log_from_settings_def cfg_get_or_def trim_def is_ascii_whitespace_char_def setup_session_def session_targets_def Let_def)

section \<open>Loaded files are well typed\<close>

text \<open>
  C38. A settings file that loads is well typed, in its defaults and in every session resolved against them: it
  has known keys with values only, the values of enumerated settings are among those allowed, every typed
  accessor succeeds whatever its default and stays within its width and above zero, component identifiers are
  well formed, the fill policy is the one of the defaults; and every session says its role and
  protocol, and no two have the same identity.
\<close>

theorem load_config_typed:
  assumes "load_config ls = Inr c" "s \<in> set (fc_defaults c # resolved_sessions c)"
  shows "(\<forall>k v. s k = Some v \<longrightarrow> k \<in> set KNOWN_KEYS \<and> v \<noteq> []) \<and>
    s ''ConnectionType'' \<in> {None, Some ''acceptor'', Some ''initiator''} \<and> s ''BeginString'' \<in> {None, Some ''FIX.4.2''} \<and>
    s ''FillPolicy'' = fc_defaults c ''FillPolicy'' \<and> s ''FillPolicy'' \<in> {None, Some ''Real'', Some ''Tiered''} \<and>
    (\<forall>k \<in> set BOOLEAN_KEYS. \<forall>d. \<exists>b. cfg_bool s k d = Inr b) \<and>
    (\<forall>d. \<exists>n. cfg_u32 s ''HeartBtInt'' d = Inr n \<and> (0 < d \<and> d \<le> u32_max \<longrightarrow> 0 < n \<and> n \<le> u32_max)) \<and>
    (\<forall>k \<in> {''SocketAcceptPort'', ''SocketConnectPort''}. \<forall>d. \<exists>n. cfg_u16 s k d = Inr n \<and> (0 < d \<and> d \<le> 65535 \<longrightarrow> 0 < n \<and> n \<le> 65535)) \<and>
    (\<forall>k v. k \<in> {''SenderCompID'', ''TargetCompID''} \<and> s k = Some v \<longrightarrow> comp_id_ok v) \<and>
    (\<forall>t \<in> set (resolved_sessions c). t ''ConnectionType'' \<noteq> None \<and> t ''BeginString'' = Some ''FIX.4.2'') \<and>
    distinct (List.map_filter session_identity (resolved_sessions c))"
proof -
  note l = loaded_settings [OF assms]
  note t = check_settings_Inr [OF l(1)]
  have "check_identities 0 {} (resolved_sessions c) = Inr ()"
    using load_config_Inr(1) [OF assms(1)] by (simp add: validate_values_def rust_bind)
  note i = check_identities_Inr [OF this]
  have b: "t ''BeginString'' = Some ''FIX.4.2''" if "t \<in> set (resolved_sessions c)" for t
    using check_settings_Inr(2) [OF loaded_settings(1) [OF assms(1)]] i(1) that by fastforce
  have bools: "\<forall>k \<in> set BOOLEAN_KEYS. \<forall>d. \<exists>b. cfg_bool s k d = Inr b"
  proof (intro ballI allI)
    fix k d assume "k \<in> set BOOLEAN_KEYS"
    then show "\<exists>b. cfg_bool s k d = Inr b" using t(3) by (cases "s k") (auto simp: cfg_bool_def)
  qed
  have heart: "\<forall>d. \<exists>n. cfg_u32 s ''HeartBtInt'' d = Inr n \<and> (0 < d \<and> d \<le> u32_max \<longrightarrow> 0 < n \<and> n \<le> u32_max)"
    using t(4) parse_count_Inr by (cases "s ''HeartBtInt''") (fastforce simp: cfg_u32_def)+
  have ports: "\<forall>k \<in> {''SocketAcceptPort'', ''SocketConnectPort''}. \<forall>d. \<exists>n. cfg_u16 s k d = Inr n \<and> (0 < d \<and> d \<le> 65535 \<longrightarrow> 0 < n \<and> n \<le> 65535)"
  proof (intro ballI allI)
    fix k d assume k: "k \<in> {''SocketAcceptPort'', ''SocketConnectPort''}"
    show "\<exists>n. cfg_u16 s k d = Inr n \<and> (0 < d \<and> d \<le> 65535 \<longrightarrow> 0 < n \<and> n \<le> 65535)"
    proof (cases "s k")
      case (Some v)
      obtain n where "parse_port k v = Inr n" using t(5) [OF k Some] by (elim exE) (rule that)
      then show ?thesis using Some parse_port_Inr [of k v n] by (simp add: cfg_u16_def)
    qed (simp add: cfg_u16_def)
  qed
  have ids: "\<forall>k v. k \<in> {''SenderCompID'', ''TargetCompID''} \<and> s k = Some v \<longrightarrow> comp_id_ok v"
    using t(6) by (intro allI impI, elim conjE)
  have roles: "\<forall>t \<in> set (resolved_sessions c). t ''ConnectionType'' \<noteq> None \<and> t ''BeginString'' = Some ''FIX.4.2''"
    using i(1) b by (intro ballI conjI) (blast, rule b)
  have entries: "\<forall>k v. s k = Some v \<longrightarrow> k \<in> set KNOWN_KEYS \<and> v \<noteq> []" using l(2) unfolding entries_ok_def .
  show ?thesis by (intro conjI) (fact entries t(1) t(2) l(3) l(4) bools heart ports ids roles i(2))+
qed

theorem load_config_typed_witness:
  "load_config sample_file = Inr sample_settings \<and>
   (\<forall>d. \<exists>n. cfg_u16 (hd (resolved_sessions sample_settings)) ''SocketAcceptPort'' d = Inr n \<and> (0 < d \<and> d \<le> 65535 \<longrightarrow> 0 < n \<and> n \<le> 65535)) \<and>
   (\<forall>d. \<exists>b. cfg_bool (hd (resolved_sessions sample_settings)) ''Logging'' d = Inr b)"
proof -
  have h: "hd (resolved_sessions sample_settings) \<in> set (fc_defaults sample_settings # resolved_sessions sample_settings)"
    unfolding sample_resolved by simp
  have k: "''Logging'' \<in> set BOOLEAN_KEYS" by (simp add: BOOLEAN_KEYS_def)
  let ?s = "hd (resolved_sessions sample_settings)"
  note t = load_config_typed [OF sample_file_loads h]
  from t have "\<forall>k \<in> set BOOLEAN_KEYS. \<forall>d. \<exists>b. cfg_bool ?s k d = Inr b" by (elim conjE)
  then have b: "\<forall>d. \<exists>b. cfg_bool ?s ''Logging'' d = Inr b" using k by (rule bspec)
  from t have "\<forall>k \<in> {''SocketAcceptPort'', ''SocketConnectPort''}. \<forall>d. \<exists>n. cfg_u16 ?s k d = Inr n \<and> (0 < d \<and> d \<le> 65535 \<longrightarrow> 0 < n \<and> n \<le> 65535)"
    by (elim conjE)
  then have p: "\<forall>d. \<exists>n. cfg_u16 ?s ''SocketAcceptPort'' d = Inr n \<and> (0 < d \<and> d \<le> 65535 \<longrightarrow> 0 < n \<and> n \<le> 65535)"
    by (rule bspec) (rule insertI1)
  show ?thesis by (intro conjI) (fact sample_file_loads p b)+
qed

section \<open>Starting the exchange\<close>

lemma comp_id_component: "comp_id_ok v \<Longrightarrow> valid_component_id v \<longleftrightarrow> CHR ''='' \<notin> set v"
proof -
  have "is_ascii_graphic ch" if "is_ascii_char ch" "\<not> ((of_char ch :: nat) < 32 \<or> (of_char ch :: nat) = 127 \<or> is_ascii_whitespace_char ch)" for ch
    using that by (auto simp: is_ascii_graphic_def is_ascii_char_def is_ascii_whitespace_char_def)
  then show "comp_id_ok v \<Longrightarrow> valid_component_id v \<longleftrightarrow> CHR ''='' \<notin> set v"
    by (auto simp: comp_id_ok_def valid_component_id_def list_all_iff list_ex_iff)
qed

lemma setup_sessions_Inr:
  "setup_sessions b i n d ss = Inr ts \<Longrightarrow> ts = concat (map session_targets ss)"
proof (induction ss arbitrary: ts)
  case (Cons s ss)
  have "setup_session b i n d s = Inr us \<Longrightarrow> us = session_targets s" for us
    by (auto simp: setup_session_def rust_bind)
  then show ?case using Cons by (auto simp: rust_bind)
qed simp

lemma with_role_subset: "set (with_role r c) \<subseteq> set (resolved_sessions c)"
  by (auto simp: with_role_def)

lemma acceptor_setup_Inr:
  assumes "acceptor_setup c = Inr (cfg, policy)" "with_role ''acceptor'' c = first # rest"
  obtains dynamic ts where "first ''BeginString'' = Some (cfg_begin cfg)" "first ''SenderCompID'' = Some (cfg_sender cfg)"
    "cfg_required_u16 first acceptor_section ''SocketAcceptPort'' = Inr (cfg_port cfg)"
    "setup_sessions (cfg_begin cfg) (cfg_sender cfg) (cfg_port cfg) dynamic (first # rest) = Inr ts"
    "cfg_admission cfg = (if dynamic then Dynamic else Declared (remdups_adj (sort ts)))" "\<not> dynamic \<longrightarrow> ts \<noteq> []"
    "cfg_bool first ''DynamicSessions'' False = Inr dynamic"
proof -
  obtain b i n d ts where r: "first ''BeginString'' = Some b" "first ''SenderCompID'' = Some i"
    "cfg_required_u16 first acceptor_section ''SocketAcceptPort'' = Inr n" "setup_sessions b i n d (first # rest) = Inr ts"
    "cfg_bool first ''DynamicSessions'' False = Inr d"
    "(let targets = remdups_adj (sort ts)
      in if d then Inr (\<lparr>cfg_port = n, cfg_sender = i, cfg_begin = b, cfg_admission = Dynamic\<rparr>, policy)
         else if targets = [] then Inl NoTargets
         else Inr (\<lparr>cfg_port = n, cfg_sender = i, cfg_begin = b, cfg_admission = Declared targets\<rparr>, policy)) = Inr (cfg, policy)"
    using assms(1) unfolding acceptor_setup_def assms(2) list.case
  proof (unfold and_then_Inr settings_ok_Inr setup_required_Inr, elim exE conjE)
    fix b i n u p l d ts
    assume h: "first ''BeginString'' = Some b" "first ''SenderCompID'' = Some i"
      "cfg_required_u16 first acceptor_section ''SocketAcceptPort'' = Inr n" "setup_sessions b i n d (first # rest) = Inr ts"
      "cfg_bool first ''DynamicSessions'' False = Inr d"
      and f: "(let targets = remdups_adj (sort ts)
      in if d then Inr (\<lparr>cfg_port = n, cfg_sender = i, cfg_begin = b, cfg_admission = Dynamic\<rparr>, p)
         else if targets = [] then Inl NoTargets
         else Inr (\<lparr>cfg_port = n, cfg_sender = i, cfg_begin = b, cfg_admission = Declared targets\<rparr>, p)) = Inr (cfg, policy)"
    from f have "p = policy" by (cases d) (simp_all add: Let_def split: if_splits)
    then show thesis using that [OF h] f by blast
  qed
  have cfg: "cfg = \<lparr>cfg_port = n, cfg_sender = i, cfg_begin = b,
      cfg_admission = (if d then Dynamic else Declared (remdups_adj (sort ts)))\<rparr>"
    using r(6) by (cases d) (simp_all add: Let_def split: if_splits)
  have ts: "\<not> d \<longrightarrow> ts \<noteq> []"
  proof (intro impI notI)
    assume "\<not> d" "ts = []"
    then show False using r(6) by simp
  qed
  show thesis
    by (rule that [of d ts]) (unfold cfg acceptor_config.simps, fact r(1), fact r(2), fact r(3), fact r(4), rule refl, fact ts, fact r(5))
qed

text \<open>The clients a file names for the acceptor.\<close>

definition named_clients :: "fix_config \<Rightarrow> string set" where
  "named_clients c =
     {t. \<exists>s \<in> set (with_role ''acceptor'' c). s ''TargetCompID'' = Some t \<or>
        (\<exists>v. s ''TargetCompIDs'' = Some v \<and> t \<in> set (target_ids v))}"

lemma named_clients_ok: "load_config ls = Inr c \<Longrightarrow> t \<in> named_clients c \<Longrightarrow> comp_id_ok t"
proof -
  assume "load_config ls = Inr c" "t \<in> named_clients c"
  then obtain s where "s \<in> set (resolved_sessions c)" "check_settings s = Inr ()"
    "s ''TargetCompID'' = Some t \<or> (\<exists>v. s ''TargetCompIDs'' = Some v \<and> t \<in> set (target_ids v))"
    using loaded_settings(1) by (auto simp: named_clients_def with_role_def)
  then show "comp_id_ok t" using check_settings_Inr(6,7) by blast
qed

lemma set_session_targets:
  "t \<in> set (session_targets s) \<longleftrightarrow>
     s ''TargetCompID'' = Some t \<or> (\<exists>v. s ''TargetCompIDs'' = Some v \<and> t \<in> set (target_ids v) \<and> t \<noteq> [])"
  by (cases "s ''TargetCompID''"; cases "s ''TargetCompIDs''") (auto simp: session_targets_def)

lemma session_targets_named:
  assumes "load_config ls = Inr c"
  shows "set (concat (map session_targets (with_role ''acceptor'' c))) = named_clients c"
proof (rule set_eqI)
  fix t
  have "t \<noteq> []" if "t \<in> named_clients c" using named_clients_ok [OF assms that] by (simp add: comp_id_ok_def)
  moreover have "t \<in> set (concat (map session_targets (with_role ''acceptor'' c))) \<longleftrightarrow>
      (\<exists>s \<in> set (with_role ''acceptor'' c). t \<in> set (session_targets s))" by simp
  ultimately show "t \<in> set (concat (map session_targets (with_role ''acceptor'' c))) \<longleftrightarrow> t \<in> named_clients c"
    unfolding set_session_targets named_clients_def mem_Collect_eq by blast
qed

text \<open>
  C39. The exchange that starts from a loaded file admits exactly the clients the file names: with dynamic
  sessions everybody, else those that are the target or among the targets of an acceptor session, of which
  there is at least one. Its protocol is FIX 4.2, its port is one, and the configuration check of the acceptor
  accepts it unless an identifier contains an equals sign, which the check of the file lets through.
\<close>

theorem startup_admits_named_clients:
  assumes "load_config ls = Inr c" "acceptor_setup c = Inr (cfg, policy)"
  shows "cfg_begin cfg = ''FIX.4.2'' \<and> 0 < cfg_port cfg \<and> cfg_port cfg \<le> 65535 \<and> comp_id_ok (cfg_sender cfg) \<and>
    (cfg_admission cfg = Dynamic \<longleftrightarrow> cfg_bool (hd (with_role ''acceptor'' c)) ''DynamicSessions'' False = Inr True) \<and>
    (cfg_admission cfg = Dynamic \<or> named_clients c \<noteq> {} \<and> (\<forall>client. client_admitted (cfg_admission cfg) client \<longleftrightarrow> client \<in> named_clients c)) \<and>
    (validate_acceptor_config cfg = Inr () \<longleftrightarrow>
       CHR ''='' \<notin> set (cfg_sender cfg) \<and> (cfg_admission cfg = Dynamic \<or> (\<forall>t \<in> named_clients c. CHR ''='' \<notin> set t)))"
proof -
  obtain first rest where f: "with_role ''acceptor'' c = first # rest"
  proof (cases "with_role ''acceptor'' c")
    case Nil
    then show thesis using assms(2) by (simp add: acceptor_setup_def)
  next
    case (Cons a l)
    then show thesis by (rule that)
  qed
  then have first: "first \<in> set (resolved_sessions c)" using with_role_subset [of "''acceptor''" c] by auto
  note chk = check_settings_Inr [OF loaded_settings(1) [OF assms(1)]]
  obtain dynamic ts where a: "first ''BeginString'' = Some (cfg_begin cfg)" "first ''SenderCompID'' = Some (cfg_sender cfg)"
    "cfg_required_u16 first acceptor_section ''SocketAcceptPort'' = Inr (cfg_port cfg)"
    "setup_sessions (cfg_begin cfg) (cfg_sender cfg) (cfg_port cfg) dynamic (first # rest) = Inr ts"
    "cfg_admission cfg = (if dynamic then Dynamic else Declared (remdups_adj (sort ts)))" "\<not> dynamic \<longrightarrow> ts \<noteq> []"
    "cfg_bool first ''DynamicSessions'' False = Inr dynamic"
    by (rule acceptor_setup_Inr [OF assms(2) f])
  have ts: "set ts = named_clients c"
    using setup_sessions_Inr [OF a(4)] session_targets_named [OF assms(1)] f by simp
  have b: "cfg_begin cfg = ''FIX.4.2''" using chk(2) [of first] first a(1) by simp
  have p: "0 < cfg_port cfg \<and> cfg_port cfg \<le> 65535"
    using a(3) parse_port_Inr by (auto simp: cfg_required_u16_def rust_bind)
  have i: "comp_id_ok (cfg_sender cfg)" using chk(6) [of first "''SenderCompID''" "cfg_sender cfg"] first a(2) by simp
  have dyn: "cfg_admission cfg = Dynamic \<longleftrightarrow> cfg_bool (hd (with_role ''acceptor'' c)) ''DynamicSessions'' False = Inr True"
    using a(5,7) by (simp add: f)
  have adm: "cfg_admission cfg = Dynamic \<or> named_clients c \<noteq> {} \<and> (\<forall>client. client_admitted (cfg_admission cfg) client \<longleftrightarrow> client \<in> named_clients c)"
    using a(5,6) ts by (auto simp: client_admitted_def)
  have sort_empty: "sort ts = [] \<longleftrightarrow> ts = []" by (metis set_empty set_sort)
  have "list_ex (\<lambda>t. \<not> valid_component_id t) (remdups_adj (sort ts)) \<longleftrightarrow> (\<exists>t \<in> named_clients c. CHR ''='' \<in> set t)"
    using ts comp_id_component named_clients_ok [OF assms(1)] by (auto simp: list_ex_iff)
  then have "validate_acceptor_config cfg = Inr () \<longleftrightarrow>
      CHR ''='' \<notin> set (cfg_sender cfg) \<and> (cfg_admission cfg = Dynamic \<or> (\<forall>t \<in> named_clients c. CHR ''='' \<notin> set t))"
    using b p a(5,6) comp_id_component [OF i] sort_empty by (auto simp: validate_acceptor_config_def)
  then show ?thesis using b p i dyn adm by (intro conjI) simp_all
qed

theorem startup_admits_named_clients_witness:
  "\<exists>cfg. acceptor_setup sample_settings = Inr (cfg, Real_Fill) \<and> validate_acceptor_config cfg = Inr () \<and>
     client_admitted (cfg_admission cfg) ''C1'' \<and> \<not> client_admitted (cfg_admission cfg) ''C2''"
proof -
  let ?cfg = "\<lparr>cfg_port = 5001, cfg_sender = ''GOX'', cfg_begin = ''FIX.4.2'', cfg_admission = Declared [''C1'']\<rparr>"
  have "named_clients sample_settings = {''C1''}"
    by (auto simp: named_clients_def sample_role) (simp_all add: sample_settings_def)
  then have "validate_acceptor_config ?cfg = Inr ()"
    using startup_admits_named_clients [OF sample_file_loads sample_setup] by simp
  moreover have "client_admitted (cfg_admission ?cfg) ''C1'' \<and> \<not> client_admitted (cfg_admission ?cfg) ''C2''"
    by (simp add: client_admitted_def)
  ultimately show ?thesis using sample_setup by (intro exI [of _ ?cfg] conjI) simp_all
qed

end
