(* ===== verification/Rest.thy ===== *)
theory Rest
  imports Engine_Ops
begin

text \<open>
  The read-only HTTP endpoints (\<open>src/rest.rs\<close>): what a request path is answered with. The reader of market data
  is the publisher whose slots it shares. The JSON printer and the conversion of a decimal to
  binary floating point are arguments; the threads and sockets of the server are left out.
\<close>

record 'f level_dto =
  lv_price :: 'f
  lv_quantity :: 'f

record 'f book_dto =
  bd_symbol :: string
  bd_sequence :: nat
  bd_bids :: "'f level_dto list"
  bd_asks :: "'f level_dto list"

record 'f stats_dto =
  sd_symbol :: string
  sd_bid_price :: 'f
  sd_bid_qty :: 'f
  sd_ask_price :: 'f
  sd_ask_qty :: 'f
  sd_volume :: 'f
  sd_high :: 'f
  sd_low :: 'f
  sd_has_high_low :: bool

text \<open>The code of other crates: \<open>Decimal::to_f64\<close>, the literal \<open>0.0\<close> and \<open>serde_json::to_string\<close>.\<close>

record 'f json =
  js_f64 :: "rat \<Rightarrow> 'f option"
  js_zero :: 'f
  js_strings :: "string list \<Rightarrow> string"
  js_book :: "'f book_dto \<Rightarrow> string"
  js_stats :: "'f stats_dto \<Rightarrow> string"

definition to_f64 :: "'f json \<Rightarrow> rat \<Rightarrow> 'f" where
  "to_f64 J d = (case js_f64 J d of None \<Rightarrow> js_zero J | Some x \<Rightarrow> x)"

datatype rest_snapshot =
    Strings "string list"
  | Book string instrument_snapshot
  | Stats string instrument_snapshot
  | Missing string

definition strip_prefix :: "string \<Rightarrow> string \<Rightarrow> string option" where
  "strip_prefix p s = (if starts_with p s then Some (drop (length p) s) else None)"

fun market_routes :: "publisher \<Rightarrow> string \<Rightarrow> (string \<times> bool) list \<Rightarrow> rest_snapshot" where
  "market_routes reader path [] = Missing ''404 page not found''"
| "market_routes reader path ((prefix, as_book) # routes) =
     (case strip_prefix prefix path of
        None \<Rightarrow> market_routes reader path routes
      | Some symb \<Rightarrow>
          if symb = [] then Missing ''404 page not found''
          else case reader_snapshot reader symb of
                 None \<Rightarrow> Missing (''the symbol '' @ symb @ '' is unknown'' @ [CHR 0x0A])
               | Some market \<Rightarrow> if as_book then Book symb market else Stats symb market)"

definition market_snapshot :: "publisher \<Rightarrow> string \<Rightarrow> rest_snapshot" where
  "market_snapshot reader path =
     (if starts_with ''/api/instruments/'' path \<or> path = ''/api/instruments'' then Strings (reader_symbols reader)
      else market_routes reader path [(''/api/book/'', True), (''/api/stats/'', False)])"

definition request_snapshot :: "publisher \<Rightarrow> engine \<Rightarrow> string \<Rightarrow> rest_snapshot" where
  "request_snapshot reader e path =
     (if path = ''/api/sessions'' then Strings (session_ids e) else market_snapshot reader path)"

definition levels_dto :: "'f json \<Rightarrow> book_level list \<Rightarrow> 'f level_dto list" where
  "levels_dto J ls = map (\<lambda>l. \<lparr>lv_price = to_f64 J (bl_price l), lv_quantity = to_f64 J (bl_quantity l)\<rparr>) ls"

definition book_dto_of :: "'f json \<Rightarrow> string \<Rightarrow> book \<Rightarrow> 'f book_dto" where
  "book_dto_of J symb bk =
     \<lparr>bd_symbol = symb, bd_sequence = bk_sequence bk, bd_bids = levels_dto J (bk_bids bk), bd_asks = levels_dto J (bk_asks bk)\<rparr>"

definition stats_dto_of :: "'f json \<Rightarrow> string \<Rightarrow> statistics \<Rightarrow> 'f stats_dto" where
  "stats_dto_of J symb st =
     \<lparr>sd_symbol = symb, sd_bid_price = to_f64 J (st_bid_price st), sd_bid_qty = to_f64 J (st_bid_qty st),
      sd_ask_price = to_f64 J (st_ask_price st), sd_ask_qty = to_f64 J (st_ask_qty st),
      sd_volume = to_f64 J (st_volume st), sd_high = to_f64 J (st_high st), sd_low = to_f64 J (st_low st),
      sd_has_high_low = st_has_high_low st\<rparr>"

fun serialize :: "'f json \<Rightarrow> rest_snapshot \<Rightarrow> nat \<times> string" where
  "serialize J (Missing message) = (404, message)"
| "serialize J (Strings values) = (200, js_strings J values)"
| "serialize J (Book symb market) = (200, js_book J (book_dto_of J symb (sn_book market)))"
| "serialize J (Stats symb market) = (200, js_stats J (stats_dto_of J symb (sn_stats market)))"

definition respond :: "'f json \<Rightarrow> engine \<Rightarrow> string \<Rightarrow> nat \<times> string" where
  "respond J e path =
     (let reader = en_market_data e;
          data = (if path = ''/api/sessions'' then Strings (session_ids e) else market_snapshot reader path)
      in serialize J data)"

text \<open>One turn of a worker: status, content type and body of the answer to a request.\<close>

definition rest_answer :: "'f json \<Rightarrow> publisher \<Rightarrow> engine \<Rightarrow> string \<Rightarrow> nat \<times> string \<times> string" where
  "rest_answer J reader e path =
     (let (status, body) = serialize J (request_snapshot reader e path);
          content_type = (if starts_with ''{'' body \<or> starts_with ''['' body then ''application/json''
                          else ''text/plain; charset=utf-8'')
      in (status, content_type, body))"

end
