(* ===== verification/Rest_Properties.thy ===== *)
theory Rest_Properties
  imports Rest Engine_Invariants
begin

text \<open>
  What the endpoints serve in any history of the engine: the current books of the registered instruments.
  The invariant ties the catalog of the readers to the registry of the engine.
\<close>

section \<open>The catalog follows the registry\<close>

definition catalog_ok :: "publisher \<Rightarrow> bool" where
  "catalog_ok pb \<longleftrightarrow> bt_sorted (pb_catalog pb) \<and> (\<forall>symb i. bt_get (pb_catalog pb) symb = Some i \<longrightarrow> pb_slots pb i \<noteq> None)"

lemma register_one_catalog:
  assumes "catalog_ok pb"
  shows "catalog_ok (register_one ins pb)" "bt_get (pb_catalog (register_one ins pb)) = (bt_get (pb_catalog pb))(in_symbol ins \<mapsto> in_id ins)"
proof -
  have s: "pb_catalog (register_one ins pb) = bt_insert (in_symbol ins) (in_id ins) (pb_catalog pb)" by (simp add: register_one_def)
  show g: "bt_get (pb_catalog (register_one ins pb)) = (bt_get (pb_catalog pb))(in_symbol ins \<mapsto> in_id ins)"
    unfolding s by (rule bt.get_insert) (use assms in \<open>simp add: catalog_ok_def\<close>)
  have "bt_sorted (pb_catalog (register_one ins pb))"
    unfolding s by (rule bt_sorted_insert) (use assms in \<open>simp add: catalog_ok_def\<close>)
  then show "catalog_ok (register_one ins pb)"
    using assms unfolding catalog_ok_def g by (auto simp: slots_register_one)
qed

lemma md_register_catalog: "catalog_ok pb \<Longrightarrow> catalog_ok (md_register pb insts)"
  unfolding md_register_def by (induction insts arbitrary: pb) (auto intro: register_one_catalog)

lemma md_register_get:
  assumes "catalog_ok pb" "bt_get (pb_catalog pb) symb = Some i \<or> symb \<in> in_symbol ` set insts"
    "\<forall>ins \<in> set insts. in_symbol ins = symb \<longrightarrow> in_id ins = i"
  shows "bt_get (pb_catalog (md_register pb insts)) symb = Some i"
  using assms unfolding md_register_def
proof (induction insts arbitrary: pb)
  case (Cons a insts)
  have "bt_get (pb_catalog (register_one a pb)) symb = Some i \<or> symb \<in> in_symbol ` set insts"
    using Cons.prems(2,3) by (auto simp: register_one_catalog [OF Cons.prems(1)])
  from Cons.IH [OF register_one_catalog(1) [OF Cons.prems(1)] this] Cons.prems(3) show ?case by simp
qed simp

lemma slots_register_new:
  assumes "pb_slots (md_register pb insts) i = Some sn"
  shows "pb_slots pb i = Some sn \<or> (\<exists>ins. in_id ins = i \<and> sn = empty_snapshot ins)"
  using assms unfolding md_register_def
proof (induction insts arbitrary: pb)
  case (Cons a insts)
  from Cons.IH [of "register_one a pb"] Cons.prems show ?case by (auto simp: slots_register_one split: if_splits)
qed simp

section \<open>Every slot is consistent\<close>

definition slot_ok :: "engine \<Rightarrow> int \<Rightarrow> instrument_snapshot \<Rightarrow> bool" where
  "slot_ok e inst sn \<longleftrightarrow> stats_top (sn_stats sn) (sn_book sn) = sn_stats sn \<and> bk_sequence (sn_book sn) = sn_version sn \<and>
     (en_books e inst = None \<longrightarrow> sn_book sn = \<lparr>bk_instrument = inst, bk_sequence = sn_version sn, bk_bids = [], bk_asks = []\<rparr>)"

definition catalog_inv :: "int set \<Rightarrow> bool \<Rightarrow> engine \<Rightarrow> bool" where
  "catalog_inv X u e \<longleftrightarrow> books_ok e \<and> catalog_ok (en_market_data e) \<and>
     (\<forall>symb ins. get_by_symbol (en_instruments e) symb = Some ins \<longrightarrow> bt_get (pb_catalog (en_market_data e)) symb = Some (in_id ins)) \<and>
     (\<forall>inst sn. pb_slots (en_market_data e) inst = Some sn \<longrightarrow> slot_ok e inst sn)"

lemma slot_ok_empty: "slot_ok e (in_id ins) (empty_snapshot ins)"
  by (simp add: slot_ok_def empty_snapshot_def stats_top_def best_level_def statistics_default_def)

lemma catalog_inv_register:
  assumes "catalog_inv X u e" "catalogued e m insts"
  shows "catalog_inv X u (e\<lparr>en_instruments := m, en_market_data := md_register (en_market_data e) insts\<rparr>)"
proof -
  let ?md = "en_market_data e"
  let ?e = "e\<lparr>en_instruments := m, en_market_data := md_register ?md insts\<rparr>"
  have c: "catalog_ok ?md" using assms(1) by (simp add: catalog_inv_def)
  have "bt_get (pb_catalog (md_register ?md insts)) symb = Some (in_id ins)" if "get_by_symbol m symb = Some ins" for symb ins
  proof (rule md_register_get [OF c])
    have "get_by_symbol (en_instruments e) symb = Some ins \<or> ins \<in> set insts \<and> in_symbol ins = symb"
      using assms(2) that by (auto simp: catalogued_def)
    then show "bt_get (pb_catalog ?md) symb = Some (in_id ins) \<or> symb \<in> in_symbol ` set insts"
      using assms(1) by (auto simp: catalog_inv_def)
    show "\<forall>x \<in> set insts. in_symbol x = symb \<longrightarrow> in_id x = in_id ins"
      using assms(2) that by (auto simp: catalogued_def)
  qed
  moreover have "slot_ok ?e inst sn" if "pb_slots (md_register ?md insts) inst = Some sn" for inst sn
  proof -
    have "slot_ok e inst sn"
      using slots_register_new [OF that] assms(1) slot_ok_empty by (auto simp: catalog_inv_def)
    then show ?thesis by (simp add: slot_ok_def)
  qed
  ultimately show ?thesis
    using assms(1) md_register_catalog [OF c, of insts] by (simp add: catalog_inv_def books_ok_def)
qed

lemma catalog_inv_publish_one:
  assumes "catalog_inv X u e" "publish_one e p = Some e'"
  shows "catalog_inv X u e'"
proof -
  let ?b = "book_for e (fst p)"
  let ?bk = "(ob_build_book ?b)\<lparr>bk_sequence := snd p\<rparr>"
  have o: "books_ok e" using assms(1) by (simp add: catalog_inv_def)
  have i: "bk_instrument ?bk = fst p" using book_for_ok [OF o, of "fst p"] by (simp add: ob_build_book_def)
  obtain st md sts where p: "md_publish (en_market_data e) ?bk (stats_top st ?bk) = Some md"
    "e' = e\<lparr>en_books := (en_books e)(fst p \<mapsto> ?b), en_stats := sts, en_market_data := md\<rparr>"
    using assms(2) by (auto simp: publish_one_def Let_def rust_bind)
  let ?sn = "\<lparr>sn_book = ?bk, sn_stats = stats_top st ?bk, sn_version = snd p\<rparr>"
  have md: "md = (en_market_data e)\<lparr>pb_slots := (pb_slots (en_market_data e))(fst p \<mapsto> ?sn)\<rparr>"
    using p(1) i by (simp add: md_publish_def split: option.splits)
  have "catalog_ok md" using assms(1) by (auto simp: catalog_inv_def catalog_ok_def md)
  moreover have "slot_ok e' inst sn" if "pb_slots md inst = Some sn" for inst sn
  proof (cases "inst = fst p")
    case True
    then have "sn = ?sn" using that by (simp add: md)
    then show ?thesis using True p(2) by (simp add: slot_ok_def stats_top_def)
  next
    case False
    then show ?thesis using that assms(1) by (simp add: md p(2) catalog_inv_def slot_ok_def)
  qed
  moreover have "books_ok e'" using o book_for_ok [OF o, of "fst p"] by (simp add: p(2) books_ok_def)
  ultimately show ?thesis using assms(1) by (simp add: catalog_inv_def p(2) md)
qed

lemma catalog_inv_publish_all: "catalog_inv X u e \<Longrightarrow> publish_all e ps = Some e' \<Longrightarrow> catalog_inv X u e'"
  by (induction ps arbitrary: e) (auto simp: rust_bind dest: catalog_inv_publish_one)

lemma catalog_inv_cong:
  assumes "catalog_inv X u e" "en_books e' = en_books e" "en_market_data e' = en_market_data e" "en_instruments e' = en_instruments e"
  shows "catalog_inv Y v e'"
  using assms by (simp add: catalog_inv_def books_ok_def slot_ok_def)

interpretation catalog: engine_invariant D catalog_inv for D
proof unfold_locales
  fix X u e and inst :: int and ts e'
  assume a: "catalog_inv X u e" "record_market_data D e inst ts = Some e'"
  show "catalog_inv (X - {inst}) True e'"
    by (rule catalog_inv_cong [OF a(1)]) (simp_all add: record_frame [OF a(2)])
next
  fix X u e e'
  assume a: "catalog_inv X u e" "publish_market_data e = Some e'"
  have "catalog_inv X False (e\<lparr>en_pending := []\<rparr>)" by (rule catalog_inv_cong [OF a(1)]) simp_all
  then show "catalog_inv X False e'" using a(2) unfolding publish_market_data_def by (rule catalog_inv_publish_all)
next
  fix X u and e :: engine and b inst
  assume "catalog_inv X u e" "ob_instrument b = inst" "book_inst b"
  then show "catalog_inv (insert inst X) u (e\<lparr>en_books := (en_books e)(inst \<mapsto> b)\<rparr>)"
    by (auto simp: catalog_inv_def books_ok_def slot_ok_def)
next
  fix X u e x e' and r :: report
  assume a: "catalog_inv X u e" "next_exec_id e = (x, e')"
  have "en_instruments e' = en_instruments e" using a(2) by (auto simp: next_exec_id_def Let_def)
  then show "catalog_inv X u (send e' r)"
    by (intro catalog_inv_cong [OF a(1)]) (simp_all add: next_exec_frame [OF a(2)])
next
  fix p
  show "catalog_inv {} False (with_fill_policy p)"
    by (simp add: catalog_inv_def books_ok_def catalog_ok_def with_fill_policy_def publisher_new_def im_new_def get_by_symbol_def)
qed ((erule catalog_inv_cong; simp add: register_session_def; fail) | (erule catalog_inv_register; assumption) | simp add: catalog_inv_def)+

section \<open>Routes\<close>

lemma strip_prefix_append [simp]: "strip_prefix p (p @ s) = Some s"
  by (simp add: strip_prefix_def)

lemma respond_book:
  "symb \<noteq> [] \<Longrightarrow> respond J e (''/api/book/'' @ symb) = serialize J (case reader_snapshot (en_market_data e) symb of
     None \<Rightarrow> Missing (''the symbol '' @ symb @ '' is unknown'' @ [CHR 0x0A]) | Some market \<Rightarrow> Book symb market)"
  by (simp add: respond_def market_snapshot_def starts_with_def strip_prefix_def split: option.split)

lemma respond_stats:
  "symb \<noteq> [] \<Longrightarrow> respond J e (''/api/stats/'' @ symb) = serialize J (case reader_snapshot (en_market_data e) symb of
     None \<Rightarrow> Missing (''the symbol '' @ symb @ '' is unknown'' @ [CHR 0x0A]) | Some market \<Rightarrow> Stats symb market)"
  by (simp add: respond_def market_snapshot_def starts_with_def strip_prefix_def split: option.split)

lemma reader_snapshot_known:
  "catalog_ok pb \<Longrightarrow> reader_snapshot pb symb = None \<longleftrightarrow> symb \<notin> set (reader_symbols pb)"
proof (cases "bt_get (pb_catalog pb) symb")
  case None
  then have "symb \<notin> set (reader_symbols pb)" by (simp add: reader_symbols_def map_of_eq_None_iff)
  then show ?thesis using None by (simp add: reader_snapshot_def)
next
  case (Some i)
  assume "catalog_ok pb"
  then have "pb_slots pb i \<noteq> None" using Some by (simp add: catalog_ok_def)
  moreover have "symb \<in> set (reader_symbols pb)" using Some by (force simp: reader_symbols_def dest: map_of_SomeD)
  ultimately show ?thesis using Some by (simp add: reader_snapshot_def)
qed

text \<open>The snapshot of a registered instrument shows its book.\<close>

lemma registered_snapshot:
  assumes "catalog_inv {} False e" "market_inv {} False e" "get_by_symbol (en_instruments e) symb = Some ins"
  obtains sn where "reader_snapshot (en_market_data e) symb = Some sn" "md_snapshot (en_market_data e) (in_id ins) = Some sn"
    "sn_book sn = (ob_build_book (book_for e (in_id ins)))\<lparr>bk_sequence := sn_version sn\<rparr>"
    "sn_stats sn = stats_top (sn_stats sn) (sn_book sn)"
proof -
  have c: "bt_get (pb_catalog (en_market_data e)) symb = Some (in_id ins)" "catalog_ok (en_market_data e)"
    using assms(1,3) by (auto simp: catalog_inv_def)
  then obtain sn where s: "pb_slots (en_market_data e) (in_id ins) = Some sn" unfolding catalog_ok_def by blast
  then have o: "slot_ok e (in_id ins) sn" using assms(1) by (simp add: catalog_inv_def)
  have "sn_book sn = (ob_build_book (book_for e (in_id ins)))\<lparr>bk_sequence := sn_version sn\<rparr>"
  proof (cases "en_books e (in_id ins)")
    case None
    then show ?thesis using o by (simp add: slot_ok_def book_for_def ob_build_book_def ob_new_def build_levels_def)
  next
    case (Some b)
    then have "shown e (in_id ins) b" using assms(2) by (auto simp: market_inv_def)
    then show ?thesis using s Some by (simp add: shown_def md_snapshot_def book_for_def)
  qed
  then show thesis using that [of sn] s c(1) o by (simp add: reader_snapshot_def md_snapshot_def slot_ok_def)
qed

definition level_of :: "'f json \<Rightarrow> book_level \<Rightarrow> 'f level_dto" where
  "level_of J l = \<lparr>lv_price = to_f64 J (bl_price l), lv_quantity = to_f64 J (bl_quantity l)\<rparr>"

lemma served_snapshot:
  assumes "catalog_inv {} False e" "market_inv {} False e" "symb \<noteq> []" "get_by_symbol (en_instruments e) symb = Some ins"
  shows "\<exists>sn. md_snapshot (en_market_data e) (in_id ins) = Some sn \<and>
         respond J e (''/api/book/'' @ symb) = (200, js_book J
           \<lparr>bd_symbol = symb, bd_sequence = sn_version sn,
            bd_bids = map (level_of J) (bk_bids (ob_build_book (book_for e (in_id ins)))),
            bd_asks = map (level_of J) (bk_asks (ob_build_book (book_for e (in_id ins))))\<rparr>) \<and>
         respond J e (''/api/stats/'' @ symb) = (200, js_stats J
           \<lparr>sd_symbol = symb,
            sd_bid_price = to_f64 J (fst (best_level (bk_bids (ob_build_book (book_for e (in_id ins)))))),
            sd_bid_qty = to_f64 J (snd (best_level (bk_bids (ob_build_book (book_for e (in_id ins)))))),
            sd_ask_price = to_f64 J (fst (best_level (bk_asks (ob_build_book (book_for e (in_id ins)))))),
            sd_ask_qty = to_f64 J (snd (best_level (bk_asks (ob_build_book (book_for e (in_id ins)))))),
            sd_volume = to_f64 J (st_volume (sn_stats sn)), sd_high = to_f64 J (st_high (sn_stats sn)),
            sd_low = to_f64 J (st_low (sn_stats sn)), sd_has_high_low = st_has_high_low (sn_stats sn)\<rparr>)"
proof -
  obtain sn where s: "reader_snapshot (en_market_data e) symb = Some sn" "md_snapshot (en_market_data e) (in_id ins) = Some sn"
    "sn_book sn = (ob_build_book (book_for e (in_id ins)))\<lparr>bk_sequence := sn_version sn\<rparr>"
    "sn_stats sn = stats_top (sn_stats sn) (sn_book sn)"
    by (rule registered_snapshot [OF assms(1,2,4)])
  note st = arg_cong [OF s(4), of st_bid_price] arg_cong [OF s(4), of st_bid_qty]
    arg_cong [OF s(4), of st_ask_price] arg_cong [OF s(4), of st_ask_qty]
  show ?thesis
    unfolding respond_book [OF assms(3)] respond_stats [OF assms(3)] s(1) option.case serialize.simps
    by (intro exI [of _ sn] conjI)
      (use s(2) st in \<open>simp_all add: book_dto_of_def stats_dto_of_def levels_dto_def level_of_def [abs_def] s(3) stats_top_def\<close>)
qed

text \<open>
  C40. The endpoints agree with the engine: in every history, under either fill policy, the book served for a
  registered symbol is the depth of the current book of its instrument (empty before its first order), stamped with
  the version of the publication; the statistics served for it show the top of that same book; a
  symbol is served exactly if it is listed, and the list is sorted, without
  duplicates and has every registered symbol; and a worker sends the very answer the engine would give.
\<close>

theorem rest_serves_current_state:
  fixes J :: "'f json"
  assumes "run (engine_step D) (with_fill_policy p) cs e"
  shows "(\<forall>symb ins. symb \<noteq> [] \<and> get_by_symbol (en_instruments e) symb = Some ins \<longrightarrow>
      (\<exists>sn. md_snapshot (en_market_data e) (in_id ins) = Some sn \<and>
         respond J e (''/api/book/'' @ symb) = (200, js_book J
           \<lparr>bd_symbol = symb, bd_sequence = sn_version sn,
            bd_bids = map (level_of J) (bk_bids (ob_build_book (book_for e (in_id ins)))),
            bd_asks = map (level_of J) (bk_asks (ob_build_book (book_for e (in_id ins))))\<rparr>) \<and>
         respond J e (''/api/stats/'' @ symb) = (200, js_stats J
           \<lparr>sd_symbol = symb,
            sd_bid_price = to_f64 J (fst (best_level (bk_bids (ob_build_book (book_for e (in_id ins)))))),
            sd_bid_qty = to_f64 J (snd (best_level (bk_bids (ob_build_book (book_for e (in_id ins)))))),
            sd_ask_price = to_f64 J (fst (best_level (bk_asks (ob_build_book (book_for e (in_id ins)))))),
            sd_ask_qty = to_f64 J (snd (best_level (bk_asks (ob_build_book (book_for e (in_id ins)))))),
            sd_volume = to_f64 J (st_volume (sn_stats sn)), sd_high = to_f64 J (st_high (sn_stats sn)),
            sd_low = to_f64 J (st_low (sn_stats sn)), sd_has_high_low = st_has_high_low (sn_stats sn)\<rparr>))) \<and>
    (\<forall>symb. symb \<noteq> [] \<longrightarrow>
       fst (respond J e (''/api/book/'' @ symb)) = (if symb \<in> set (reader_symbols (en_market_data e)) then 200 else 404)) \<and>
    respond J e ''/api/instruments'' = (200, js_strings J (reader_symbols (en_market_data e))) \<and>
    sorted (reader_symbols (en_market_data e)) \<and> distinct (reader_symbols (en_market_data e)) \<and>
    set (all_symbols (en_instruments e)) \<subseteq> set (reader_symbols (en_market_data e)) \<and>
    (\<forall>path. (case rest_answer J (en_market_data e) e path of (status, _, body) \<Rightarrow> (status, body)) = respond J e path)"
proof (intro conjI allI impI)
  have c: "catalog_inv {} False e" using catalog.reachable_inv [OF _ assms] by blast
  have m: "market_inv {} False e" using market.reachable_inv [OF _ assms] by blast
  have ok: "catalog_ok (en_market_data e)" using c by (simp add: catalog_inv_def)
  {
    fix symb ins assume "symb \<noteq> [] \<and> get_by_symbol (en_instruments e) symb = Some ins"
    then show "\<exists>sn. md_snapshot (en_market_data e) (in_id ins) = Some sn \<and>
         respond J e (''/api/book/'' @ symb) = (200, js_book J
           \<lparr>bd_symbol = symb, bd_sequence = sn_version sn,
            bd_bids = map (level_of J) (bk_bids (ob_build_book (book_for e (in_id ins)))),
            bd_asks = map (level_of J) (bk_asks (ob_build_book (book_for e (in_id ins))))\<rparr>) \<and>
         respond J e (''/api/stats/'' @ symb) = (200, js_stats J
           \<lparr>sd_symbol = symb,
            sd_bid_price = to_f64 J (fst (best_level (bk_bids (ob_build_book (book_for e (in_id ins)))))),
            sd_bid_qty = to_f64 J (snd (best_level (bk_bids (ob_build_book (book_for e (in_id ins)))))),
            sd_ask_price = to_f64 J (fst (best_level (bk_asks (ob_build_book (book_for e (in_id ins)))))),
            sd_ask_qty = to_f64 J (snd (best_level (bk_asks (ob_build_book (book_for e (in_id ins)))))),
            sd_volume = to_f64 J (st_volume (sn_stats sn)), sd_high = to_f64 J (st_high (sn_stats sn)),
            sd_low = to_f64 J (st_low (sn_stats sn)), sd_has_high_low = st_has_high_low (sn_stats sn)\<rparr>)"
      using served_snapshot [OF c m] by blast
  next
    fix symb :: string assume "symb \<noteq> []"
    then show "fst (respond J e (''/api/book/'' @ symb)) = (if symb \<in> set (reader_symbols (en_market_data e)) then 200 else 404)"
      using reader_snapshot_known [OF ok, of symb] unfolding respond_book [OF \<open>symb \<noteq> []\<close>] by (auto split: option.split)
  next
    show "respond J e ''/api/instruments'' = (200, js_strings J (reader_symbols (en_market_data e)))"
      by (simp add: respond_def market_snapshot_def)
    show "sorted (reader_symbols (en_market_data e))" "distinct (reader_symbols (en_market_data e))"
      using ok by (simp_all add: catalog_ok_def reader_symbols_def strict_sorted_iff)
    have "symb \<in> fst ` set (pb_catalog (en_market_data e))" if "get_by_symbol (en_instruments e) symb \<noteq> None" for symb
      using that c by (force simp: catalog_inv_def dest: map_of_SomeD)
    then show "set (all_symbols (en_instruments e)) \<subseteq> set (reader_symbols (en_market_data e))"
      by (auto simp: all_symbols_def reader_symbols_def get_by_symbol_def map_of_eq_None_iff)
  next
    fix path
    show "(case rest_answer J (en_market_data e) e path of (status, _, body) \<Rightarrow> (status, body)) = respond J e path"
      by (auto simp: rest_answer_def respond_def request_snapshot_def Let_def split: prod.split)
  }
qed

definition sample_json :: "rat json" where
  "sample_json = \<lparr>js_f64 = Some, js_zero = 0, js_strings = concat, js_book = bd_symbol, js_stats = sd_symbol\<rparr>"

theorem rest_serves_current_state_witness:
  "\<exists>e. run (engine_step sample_decimal) (with_fill_policy Real_Fill) sample_calls e \<and>
     respond sample_json e ''/api/book/IBM'' = (200, ''IBM'') \<and> fst (respond sample_json e ''/api/book/AAPL'') = 404"
proof -
  obtain e where e: "run (engine_step sample_decimal) (with_fill_policy Real_Fill) sample_calls e"
    "reader_symbols (en_market_data e) = [''IBM'']" "get_by_symbol (en_instruments e) ''IBM'' = Some (instrument_new 1 ''IBM'')"
    using sample_history by (elim exE conjE) (rule that)
  note t = rest_serves_current_state [OF e(1), of sample_json]
  from conjunct1 [OF conjunct2 [OF t]] have "symb \<noteq> [] \<Longrightarrow>
    fst (respond sample_json e (''/api/book/'' @ symb)) = (if symb \<in> set (reader_symbols (en_market_data e)) then 200 else 404)" for symb
    by blast
  from this [of "''AAPL''"] have a: "fst (respond sample_json e ''/api/book/AAPL'') = 404" using e(2) by simp
  have "''IBM'' \<noteq> [] \<and> get_by_symbol (en_instruments e) ''IBM'' = Some (instrument_new 1 ''IBM'')" using e(3) by simp
  from conjunct1 [OF t, rule_format, OF this]
  have "\<exists>bk. respond sample_json e (''/api/book/'' @ ''IBM'') = (200, js_book sample_json bk) \<and> bd_symbol bk = ''IBM''"
    by (elim exE conjE) (intro exI conjI, assumption, rule book_dto.select_convs)
  then have "respond sample_json e ''/api/book/IBM'' = (200, ''IBM'')" by (auto simp: sample_json_def)
  with a e(1) show ?thesis by blast
qed

end
