(* ===== verification/Exchange_Console.thy ===== *)
theory Exchange_Console
  imports Rest_Properties
begin

text \<open>
  The command line and the interactive console of the exchange (\<open>src/bin/exchange.rs\<close>): the options, and what a
  command prints. The defaults of the options come from the installation and are arguments.
\<close>

section \<open>Options\<close>

record exchange_options =
  xo_fix :: string
  xo_instruments :: string
  xo_port :: string
  xo_server :: bool
  xo_check :: bool
  xo_ready :: "string option"

datatype option_error = OptionNeedsValue string | UnknownOption string | InvalidRestPort

text \<open>The value that follows an option.\<close>

definition option_value :: "string \<Rightarrow> string list \<Rightarrow> option_error + (string \<times> string list)" where
  "option_value arg args =
     (case args of
        [] \<Rightarrow> Inl (OptionNeedsValue arg)
      | value # rest \<Rightarrow> if value = [] then Inl (OptionNeedsValue arg) else Inr (value, rest))"

lemma option_value_shorter: "option_value arg args = Inr (value, rest) \<Longrightarrow> length rest < length args"
  by (auto simp: option_value_def split: list.splits if_splits)

text \<open>\<^const>\<open>None\<close> is the help text, after which the program ends.\<close>

function exchange_args :: "string list \<Rightarrow> exchange_options \<Rightarrow> option_error + exchange_options option" where
  "exchange_args [] opts = Inr (Some opts)"
| "exchange_args (arg # args) opts =
     (if arg = ''-fix'' then
        (case option_value arg args of Inl e \<Rightarrow> Inl e | Inr (v, rest) \<Rightarrow> exchange_args rest (opts\<lparr>xo_fix := v\<rparr>))
      else if arg = ''-instruments'' then
        (case option_value arg args of Inl e \<Rightarrow> Inl e | Inr (v, rest) \<Rightarrow> exchange_args rest (opts\<lparr>xo_instruments := v\<rparr>))
      else if arg = ''-port'' then
        (case option_value arg args of Inl e \<Rightarrow> Inl e | Inr (v, rest) \<Rightarrow> exchange_args rest (opts\<lparr>xo_port := v\<rparr>))
      else if arg = ''--server'' then exchange_args args (opts\<lparr>xo_server := True\<rparr>)
      else if arg = ''--check'' then exchange_args args (opts\<lparr>xo_check := True\<rparr>)
      else if arg = ''--ready-file'' then
        (case option_value arg args of Inl e \<Rightarrow> Inl e | Inr (v, rest) \<Rightarrow> exchange_args rest (opts\<lparr>xo_ready := Some v\<rparr>))
      else if arg = ''-h'' \<or> arg = ''--help'' then Inr None
      else Inl (UnknownOption arg))"
  by pat_completeness auto
termination
  by (relation "measure (\<lambda>(args, _). length args)") (auto dest: option_value_shorter)

definition rest_port :: "exchange_options \<Rightarrow> option_error + nat" where
  "rest_port opts =
     (case parse_u16 (xo_port opts) of
        None \<Rightarrow> Inl InvalidRestPort
      | Some n \<Rightarrow> if 0 < n then Inr n else Inl InvalidRestPort)"

section \<open>Console\<close>

fun join_text :: "string \<Rightarrow> string list \<Rightarrow> string" where
  "join_text sep [] = []"
| "join_text sep [x] = x"
| "join_text sep (x # y # xs) = x @ sep @ join_text sep (y # xs)"

text \<open>
  The console prints quantities and prices with \<open>Display\<close> of the decimal library, here \<^const>\<open>dec_show\<close> of the value. The
  scale of a \<open>Decimal\<close> is not part of the model, so trailing zeros that the code would print are not shown.
\<close>

definition format_levels :: "decimal_ops \<Rightarrow> book_level list \<Rightarrow> string" where
  "format_levels D ls = join_text '','' (map (\<lambda>l. dec_show D (bl_quantity l) @ '' @ '' @ dec_show D (bl_price l)) ls)"

definition format_book :: "decimal_ops \<Rightarrow> string \<Rightarrow> book \<Rightarrow> string" where
  "format_book D symb bk =
     ''book:'' @ symb @ '' bids: '' @ format_levels D (bk_bids bk) @ '' asks: '' @ format_levels D (bk_asks bk)"

datatype console_output = Say "string list" | Exit

definition console_command :: "decimal_ops \<Rightarrow> engine \<Rightarrow> string \<Rightarrow> console_output" where
  "console_command D e line =
     (case split_whitespace line of
        [] \<Rightarrow> Say []
      | cmd # args \<Rightarrow>
          if cmd = ''help'' then Say [''The available commands are: quit, sessions, book SYMBOL, list'']
          else if cmd = ''quit'' then Exit
          else if cmd = ''sessions'' then Say [''Active sessions: '' @ join_text '','' (session_ids e)]
          else if cmd = ''book'' then
            (case args of
               [] \<Rightarrow> Say [''usage: book SYMBOL'']
             | symb # _ \<Rightarrow>
                 (case engine_book e symb of
                    Some bk \<Rightarrow> Say [format_book D symb bk]
                  | None \<Rightarrow> Say [''no book for '' @ symb]))
          else if cmd = ''list'' then Say (all_symbols (en_instruments e))
          else Say [''Unknown command, '' @ [CHR 0x27] @ cmd @ [CHR 0x27] @ '' use '' @ [CHR 0x27] @ ''help'' @ [CHR 0x27]])"

section \<open>What the console shows\<close>

text \<open>The options are read to the end, and a valid port is in range.\<close>

lemma rest_port_range: "rest_port opts = Inr n \<Longrightarrow> 0 < n \<and> n \<le> 65535"
  using parse_uint_bound by (auto simp: rest_port_def split: option.splits if_splits)

text \<open>In every history the command \<open>book\<close> prints the depth of the current book, or that there is none yet.\<close>

theorem console_book_current:
  assumes "run (engine_step D) (with_fill_policy p) cs e" "split_whitespace line = [''book'', symb]"
    "get_by_symbol (en_instruments e) symb = Some ins"
  shows "console_command D e line = Say [format_book D symb (ob_build_book (book_for e (in_id ins)))] \<or>
    console_command D e line = Say [''no book for '' @ symb]"
proof -
  have c: "catalog_inv {} False e" using catalog.reachable_inv [OF _ assms(1)] by blast
  have m: "market_inv {} False e" using market.reachable_inv [OF _ assms(1)] by blast
  obtain sn where s: "md_snapshot (en_market_data e) (in_id ins) = Some sn"
    "sn_book sn = (ob_build_book (book_for e (in_id ins)))\<lparr>bk_sequence := sn_version sn\<rparr>"
    by (rule registered_snapshot [OF c m assms(3)])
  have "format_book D symb (sn_book sn) = format_book D symb (ob_build_book (book_for e (in_id ins)))"
    by (simp add: s(2) format_book_def)
  then show ?thesis using s(1) assms(2,3) by (simp add: console_command_def engine_book_def)
qed

end
