(* ===== verification/Clients.thy ===== *)
theory Clients
  imports Config_Properties Initiator_Steps
begin

text \<open>
  The two programs on the client side: the interactive client (\<open>src/bin/client.rs\<close>) and the playback of quotes from
  a file (\<open>src/bin/playback.rs\<close>). Both set up the client of \<open>Initiator\<close> from a settings file in the same way; a
  command or a line of the file is then at most one call on it. What is printed is a list of lines; \<open>die\<close> is
  an error. The clock and the identifier of a quote are arguments.
\<close>

section \<open>Set-up\<close>

abbreviation initiator_section :: string where "initiator_section \<equiv> ''initiator [SESSION]''"

definition initiator_setup :: "fix_config \<Rightarrow> string \<Rightarrow> string \<Rightarrow> startup_error + initiator_config" where
  "initiator_setup config sender_comp_id default_dir =
     and_then (settings_ok (fc_initiator config (Some sender_comp_id))) (\<lambda>s.
     and_then (settings_ok (validate_supported_runtime s)) (\<lambda>_.
     and_then (setup_required s ''SenderCompID'' initiator_section) (\<lambda>sender.
     and_then (setup_required s ''TargetCompID'' initiator_section) (\<lambda>target.
     and_then (setup_required s ''SocketConnectHost'' initiator_section) (\<lambda>host.
     and_then (settings_ok (cfg_required_u16 s initiator_section ''SocketConnectPort'')) (\<lambda>port.
     and_then (settings_ok (cfg_required_u32 s initiator_section ''HeartBtInt'')) (\<lambda>heart.
     and_then (settings_ok (log_from_settings s default_dir)) (\<lambda>_.
       Inr \<lparr>ini_sender = sender, ini_target = target, ini_host = host, ini_port = port, ini_heart = heart\<rparr>))))))))"

section \<open>The interactive client\<close>

datatype console_turn = Prompt client "string list" | Leave client

definition order_submitted :: "order_id option \<times> client \<Rightarrow> console_turn" where
  "order_submitted r =
     (case r of (Some _, c) \<Rightarrow> Prompt c [] | (None, c) \<Rightarrow> Prompt c [''unable to submit order: not connected''])"

definition order_command :: "decimal_ops \<Rightarrow> string \<Rightarrow> client \<Rightarrow> side \<Rightarrow> string list \<Rightarrow> console_turn" where
  "order_command D time c sd args =
     (case args of
        [symb, qty] \<Rightarrow>
          (case dec_parse D qty of
             None \<Rightarrow> Prompt c [''invalid quantity '' @ qty]
           | Some q \<Rightarrow> order_submitted (client_create_order D time c symb sd Market 0 q))
      | [symb, qty, price] \<Rightarrow>
          (case dec_parse D qty of
             None \<Rightarrow> Prompt c [''invalid quantity '' @ qty]
           | Some q \<Rightarrow>
               (case dec_parse D price of
                  None \<Rightarrow> Prompt c [''invalid price '' @ price]
                | Some p \<Rightarrow> order_submitted (client_create_order D time c symb sd Limit p q)))
      | _ \<Rightarrow> Prompt c [''usage: buy|sell SYMBOL QTY [PRICE]''])"

definition request_submitted :: "string \<Rightarrow> order_id \<Rightarrow> bool \<times> client \<Rightarrow> console_turn" where
  "request_submitted verb i r =
     (case r of (True, c) \<Rightarrow> Prompt c []
      | (False, c) \<Rightarrow> Prompt c [''unable to '' @ verb @ '' order '' @ show_int i @ '' (unknown id or not connected)''])"

definition cancel_command :: "string \<Rightarrow> client \<Rightarrow> string list \<Rightarrow> console_turn" where
  "cancel_command time c args =
     (case args of
        [ident] \<Rightarrow>
          (case parse_i32 ident of
             None \<Rightarrow> Prompt c [''invalid order id '' @ ident]
           | Some i \<Rightarrow> request_submitted ''cancel'' i (client_cancel_order time c i))
      | _ \<Rightarrow> Prompt c [''usage: cancel ID''])"

definition modify_command :: "decimal_ops \<Rightarrow> string \<Rightarrow> client \<Rightarrow> string list \<Rightarrow> console_turn" where
  "modify_command D time c args =
     (case args of
        [ident, price, qty] \<Rightarrow>
          (case parse_i32 ident of
             None \<Rightarrow> Prompt c [''invalid order id '' @ ident]
           | Some i \<Rightarrow>
               (case (dec_parse D price, dec_parse D qty) of
                  (Some p, Some q) \<Rightarrow> request_submitted ''modify'' i (client_modify_order D time c i p q)
                | _ \<Rightarrow> Prompt c [''invalid price or quantity'']))
      | _ \<Rightarrow> Prompt c [''usage: modify ID PRICE QTY''])"

definition client_command :: "decimal_ops \<Rightarrow> string \<Rightarrow> client \<Rightarrow> string \<Rightarrow> console_turn" where
  "client_command D time c line =
     (case split_whitespace line of
        [] \<Rightarrow> Prompt c []
      | cmd # args \<Rightarrow>
          if cmd = ''quit'' then Leave c
          else if cmd = ''buy'' then order_command D time c Buy args
          else if cmd = ''sell'' then order_command D time c Sell args
          else if cmd = ''cancel'' then cancel_command time c args
          else if cmd = ''modify'' then modify_command D time c args
          else Prompt c [''unknown command '' @ [CHR 0x27] @ cmd @ [CHR 0x27] @
                 '', use buy|sell SYMBOL QTY [PRICE] | modify ID PRICE QTY | cancel ID | quit''])"

section \<open>Playback\<close>

datatype duration_error =
    BadRelative string | UnknownSuffix string | RelativeTooLarge string | NoPrevious | PreviousRelative | BadTimestamp string

text \<open>A delay in nanoseconds.\<close>

definition time_unit :: "string \<Rightarrow> nat option" where
  "time_unit suffix =
     (if suffix = ''us'' then Some 1000
      else if suffix = ''ms'' then Some 1000000
      else if suffix = ''s'' then Some 1000000000
      else if suffix = ''min'' then Some 60000000000
      else None)"

definition calc_duration :: "string option \<Rightarrow> string \<Rightarrow> duration_error + nat" where
  "calc_duration last_timestamp timestamp =
     (if starts_with ''+'' timestamp then
        let rest = drop 1 timestamp;
            digits = takeWhile is_ascii_digit rest;
            suffix = drop (length digits) rest
        in case parse_u64 digits of
             None \<Rightarrow> Inl (BadRelative timestamp)
           | Some n \<Rightarrow>
               (case time_unit suffix of
                  None \<Rightarrow> Inl (UnknownSuffix suffix)
                | Some unit \<Rightarrow> if n * unit \<le> u64_max then Inr (n * unit) else Inl (RelativeTooLarge timestamp))
      else case last_timestamp of
        None \<Rightarrow> Inl NoPrevious
      | Some prev \<Rightarrow>
          if starts_with ''+'' prev then Inl PreviousRelative
          else case parse_u64 prev of
            None \<Rightarrow> Inl (BadTimestamp prev)
          | Some last_ms \<Rightarrow>
              (case parse_u64 timestamp of
                 None \<Rightarrow> Inl (BadTimestamp timestamp)
               | Some ms \<Rightarrow> Inr ((ms - last_ms) * 1000000)))"

datatype playback_error =
    PlaybackUnreadable | BadBidQuantity string | BadBidPrice string | BadAskQuantity string | BadAskPrice string
  | QuoteNotSubmitted | DelayTooLarge

record playback_state =
  pb_client :: client
  pb_last :: "string option"
  pb_slept :: "nat list"
  pb_printed :: "string list"

definition parse_or :: "decimal_ops \<Rightarrow> (string \<Rightarrow> playback_error) \<Rightarrow> string \<Rightarrow> playback_error + rat" where
  "parse_or D fault t = (case dec_parse D t of None \<Rightarrow> Inl (fault t) | Some v \<Rightarrow> Inr v)"

text \<open>The delay of a line: \<open>scale\<close> divides by the speed in floating point, \<^const>\<open>None\<close> where the result is too large.\<close>

definition playback_delay :: "(nat \<Rightarrow> nat option) \<Rightarrow> string option \<Rightarrow> string \<Rightarrow> playback_error + nat list" where
  "playback_delay scale prev timestamp =
     (let duration = (case calc_duration prev timestamp of Inl _ \<Rightarrow> 0 | Inr d \<Rightarrow> d)
      in if duration = 0 then Inr []
         else case scale duration of None \<Rightarrow> Inl DelayTooLarge | Some d \<Rightarrow> Inr [d])"

definition playback_quote ::
  "decimal_ops \<Rightarrow> (nat \<Rightarrow> nat option) \<Rightarrow> string \<Rightarrow> string \<Rightarrow> string \<Rightarrow> string \<Rightarrow> string \<Rightarrow> string \<Rightarrow> string \<Rightarrow>
   playback_state \<Rightarrow> playback_error + playback_state" where
  "playback_quote D scale ident timestamp symb bq bp aq ap st =
     and_then (parse_or D BadBidQuantity bq) (\<lambda>bid_qty.
     and_then (parse_or D BadBidPrice bp) (\<lambda>bid_price.
     and_then (parse_or D BadAskQuantity aq) (\<lambda>ask_qty.
     and_then (parse_or D BadAskPrice ap) (\<lambda>ask_price.
       case client_quote D ident (pb_client st) symb bid_price bid_qty ask_price ask_qty of
         (False, _) \<Rightarrow> Inl QuoteNotSubmitted
       | (True, c) \<Rightarrow>
           and_then (playback_delay scale (pb_last st) timestamp) (\<lambda>slept.
             Inr (st\<lparr>pb_client := c, pb_last := Some timestamp, pb_slept := pb_slept st @ slept\<rparr>))))))"

definition playback_line ::
  "decimal_ops \<Rightarrow> (nat \<Rightarrow> nat option) \<Rightarrow> string \<Rightarrow> unit + string \<Rightarrow> playback_state \<Rightarrow> playback_error + playback_state" where
  "playback_line D scale ident raw st =
     (case raw of
        Inl _ \<Rightarrow> Inl PlaybackUnreadable
      | Inr raw_line \<Rightarrow>
          let line = trim raw_line
          in if line = [] \<or> starts_with ''#'' line then Inr st
             else case split_whitespace line of
               [timestamp, symb, bq, bp, aq, ap] \<Rightarrow> playback_quote D scale ident timestamp symb bq bp aq ap st
             | _ \<Rightarrow> Inr (st\<lparr>pb_printed := pb_printed st @ [''invalid format '' @ line]\<rparr>))"

fun playback_lines ::
  "decimal_ops \<Rightarrow> (nat \<Rightarrow> nat option) \<Rightarrow> (string \<times> (unit + string)) list \<Rightarrow> playback_state \<Rightarrow> playback_error + playback_state" where
  "playback_lines D scale [] st = Inr st"
| "playback_lines D scale ((ident, l) # ls) st =
     and_then (playback_line D scale ident l st) (playback_lines D scale ls)"

section \<open>Both act through the calls of the client\<close>

lemma order_submitted_client: "order_submitted r = Prompt c' out \<Longrightarrow> snd r = c'"
  by (cases r; cases "fst r") (auto simp: order_submitted_def)

lemma request_submitted_client: "request_submitted verb i r = Prompt c' out \<Longrightarrow> snd r = c'"
  by (cases r; cases "fst r") (auto simp: request_submitted_def)

lemma order_command_steps:
  "order_command D time c sd args = Prompt c' out \<Longrightarrow> c' = c \<or> (\<exists>ev. client_step D wd pt cfg c ev c')"
  by (auto simp: order_command_def split: list.splits option.splits dest!: order_submitted_client
      intro: client_step.step_create [OF prod.collapse [symmetric]])

lemma cancel_command_steps:
  "cancel_command time c args = Prompt c' out \<Longrightarrow> c' = c \<or> (\<exists>ev. client_step D wd pt cfg c ev c')"
  by (auto simp: cancel_command_def split: list.splits option.splits dest!: request_submitted_client
      intro: client_step.step_cancel [OF prod.collapse [symmetric]])

lemma modify_command_steps:
  "modify_command D time c args = Prompt c' out \<Longrightarrow> c' = c \<or> (\<exists>ev. client_step D wd pt cfg c ev c')"
  by (auto simp: modify_command_def split: list.splits option.splits dest!: request_submitted_client
      intro: client_step.step_modify [OF prod.collapse [symmetric]])

theorem client_command_steps:
  assumes "client_command D time c line = Prompt c' out"
  shows "c' = c \<or> (\<exists>ev. client_step D wd pt cfg c ev c')"
proof (cases "split_whitespace line")
  case Nil
  then show ?thesis using assms by (simp add: client_command_def)
next
  case (Cons cmd args)
  then show ?thesis
    using assms order_command_steps [of D time c _ args c' out wd pt cfg] cancel_command_steps [of time c args c' out D wd pt cfg]
      modify_command_steps [of D time c args c' out wd pt cfg]
    by (simp add: client_command_def split: if_splits)
qed

text \<open>The quote a line of the file stands for.\<close>

definition line_quote :: "decimal_ops \<Rightarrow> string \<times> (unit + string) \<Rightarrow> client_event option" where
  "line_quote D l =
     (case snd l of
        Inl _ \<Rightarrow> None
      | Inr raw_line \<Rightarrow>
          let line = trim raw_line
          in if line = [] \<or> starts_with ''#'' line then None
             else case split_whitespace line of
               [_, symb, bq, bp, aq, ap] \<Rightarrow>
                 (case (dec_parse D bq, dec_parse D bp, dec_parse D aq, dec_parse D ap) of
                    (Some q, Some p, Some r, Some a) \<Rightarrow> Some (DoQuote (fst l) symb p q a r True)
                  | _ \<Rightarrow> None)
             | _ \<Rightarrow> None)"

lemma parse_or_Inr [rust_bind]: "parse_or D fault t = Inr v \<longleftrightarrow> dec_parse D t = Some v"
  by (cases "dec_parse D t") (simp_all add: parse_or_def)

lemma playback_quote_Inr:
  assumes "playback_quote D scale ident timestamp symb bq bp aq ap st = Inr st'"
  obtains q p r a where "dec_parse D bq = Some q" "dec_parse D bp = Some p" "dec_parse D aq = Some r" "dec_parse D ap = Some a"
    "client_quote D ident (pb_client st) symb p q a r = (True, pb_client st')"
  using assms unfolding playback_quote_def and_then_Inr parse_or_Inr
proof (elim exE conjE)
  fix q p r a
  assume d: "dec_parse D bq = Some q" "dec_parse D bp = Some p" "dec_parse D aq = Some r" "dec_parse D ap = Some a"
    and c: "(case client_quote D ident (pb_client st) symb p q a r of
        (True, c) \<Rightarrow> and_then (playback_delay scale (pb_last st) timestamp)
          (\<lambda>slept. Inr (st\<lparr>pb_client := c, pb_last := Some timestamp, pb_slept := pb_slept st @ slept\<rparr>))
      | (False, uu) \<Rightarrow> Inl QuoteNotSubmitted) = Inr st'"
  obtain sent cl where q: "client_quote D ident (pb_client st) symb p q a r = (sent, cl)" by fastforce
  show thesis
    by (rule that [OF d]) (use c in \<open>auto simp: q and_then_Inr split: bool.splits\<close>)
qed

lemma playback_line_step:
  assumes "playback_line D scale ident raw st = Inr st'"
  shows "case line_quote D (ident, raw) of None \<Rightarrow> pb_client st' = pb_client st
    | Some ev \<Rightarrow> client_step D wd pt cfg (pb_client st) ev (pb_client st')"
proof (cases raw)
  case (Inr raw_line)
  show ?thesis
  proof (cases "trim raw_line = [] \<or> starts_with ''#'' (trim raw_line)")
    case True
    then show ?thesis using assms Inr by (auto simp: playback_line_def line_quote_def Let_def)
  next
    case False
    show ?thesis
    proof (cases "\<exists>t symb bq bp aq ap. split_whitespace (trim raw_line) = [t, symb, bq, bp, aq, ap]")
      case True
      then obtain t symb bq bp aq ap where w: "split_whitespace (trim raw_line) = [t, symb, bq, bp, aq, ap]" by blast
      have "playback_quote D scale ident t symb bq bp aq ap st = Inr st'"
        using assms False w by (simp add: playback_line_def Inr Let_def)
      then show ?thesis
        by (rule playback_quote_Inr) (use False in \<open>simp add: line_quote_def Inr Let_def w client_step.step_quote\<close>)
    next
      case other: False
      let ?ws = "split_whitespace (trim raw_line)"
      have "length ?ws \<noteq> 6"
        using other by (auto simp: numeral_eq_Suc length_Suc_conv)
      then show ?thesis using assms False
        by (auto simp: playback_line_def line_quote_def Inr Let_def split: list.splits)
    qed
  qed
qed (use assms in \<open>simp add: playback_line_def\<close>)

theorem playback_submits_in_order:
  assumes "playback_lines D scale ls st = Inr st'"
  shows "run (client_step D wd pt cfg) (pb_client st) (List.map_filter (line_quote D) ls) (pb_client st')"
  using assms
proof (induction ls arbitrary: st)
  case Nil
  then show ?case by (simp add: run_nil List.map_filter_simps)
next
  case (Cons l ls)
  obtain ident raw where l: "l = (ident, raw)" by (cases l)
  obtain st1 where s: "playback_line D scale ident raw st = Inr st1" "playback_lines D scale ls st1 = Inr st'"
    using Cons.prems by (auto simp: l rust_bind)
  show ?case using playback_line_step [OF s(1), of wd pt cfg] Cons.IH [OF s(2)]
    by (auto simp: l List.map_filter_simps split: option.splits intro: run_cons)
qed

lemma calc_duration_relative:
  assumes "time_unit suffix = Some unit" "n \<le> u64_max"
  shows "calc_duration prev (''+'' @ show_nat n @ suffix) =
    (if n * unit \<le> u64_max then Inr (n * unit) else Inl (RelativeTooLarge (''+'' @ show_nat n @ suffix)))"
proof -
  have s: "suffix = [] \<or> \<not> is_ascii_digit (hd suffix)" "suffix \<noteq> []"
    using assms(1) by (auto simp: time_unit_def is_ascii_digit_def split: if_splits)
  have d: "takeWhile is_ascii_digit (show_nat n @ suffix) = show_nat n"
    using s show_nat_digits [of n] by (cases suffix) (auto simp: takeWhile_append2 list_all_iff)
  show ?thesis using assms by (simp add: calc_duration_def starts_with_def d Let_def)
qed

text \<open>A client set up from a loaded file connects, unless one of its identifiers contains an equals sign.\<close>

lemma fc_initiator_Inr:
  assumes "fc_initiator c (Some sender) = Inr s"
  shows "s \<in> set (resolved_sessions c)" "s ''SenderCompID'' = Some sender"
proof -
  let ?l = "filter (\<lambda>s. s ''SenderCompID'' = Some sender) (with_role ''initiator'' c)"
  have "?l = [s]" using assms by (auto simp: fc_initiator_def Let_def split: list.splits)
  then have "s \<in> set ?l" by simp
  then show "s \<in> set (resolved_sessions c)" "s ''SenderCompID'' = Some sender"
    using with_role_subset [of "''initiator''" c] by auto
qed

theorem initiator_setup_connects:
  assumes "load_config ls = Inr c" "initiator_setup c sender dir = Inr cfg"
  shows "ini_sender cfg = sender"
    "(\<exists>cl. client_connect cfg now = Inr cl) \<longleftrightarrow> CHR ''='' \<notin> set sender \<and> CHR ''='' \<notin> set (ini_target cfg)"
proof -
  obtain s where s: "fc_initiator c (Some sender) = Inr s" "s ''SenderCompID'' = Some (ini_sender cfg)"
    "s ''TargetCompID'' = Some (ini_target cfg)" "ini_host cfg \<noteq> []"
    "cfg_required_u16 s initiator_section ''SocketConnectPort'' = Inr (ini_port cfg)"
    "cfg_required_u32 s initiator_section ''HeartBtInt'' = Inr (ini_heart cfg)"
    using assms(2) by (auto simp: initiator_setup_def rust_bind)
  note m = fc_initiator_Inr [OF s(1)]
  show "ini_sender cfg = sender" using m(2) s(2) by simp
  note chk = check_settings_Inr [OF loaded_settings(1) [OF assms(1)]]
  have ids: "comp_id_ok (ini_sender cfg)" "comp_id_ok (ini_target cfg)"
    using chk(6) [of s "''SenderCompID''" "ini_sender cfg"] chk(6) [of s "''TargetCompID''" "ini_target cfg"] m(1) s(2,3) by simp_all
  have "0 < ini_port cfg" using s(5) parse_port_Inr by (auto simp: cfg_required_u16_def rust_bind)
  moreover have "0 < ini_heart cfg" using s(6) parse_count_Inr by (auto simp: cfg_required_u32_def rust_bind)
  ultimately show "(\<exists>cl. client_connect cfg now = Inr cl) \<longleftrightarrow> CHR ''='' \<notin> set sender \<and> CHR ''='' \<notin> set (ini_target cfg)"
    using comp_id_component [OF ids(1)] comp_id_component [OF ids(2)] s(4) \<open>ini_sender cfg = sender\<close>
    by (auto simp: client_connect_def validate_initiator_config_def)
qed

end
