(* ===== verification/Logs.thy ===== *)
theory Logs
  imports Config
begin

text \<open>
  The session logs (\<open>src/fix/log.rs\<close>) and the runtime settings with the application log (\<open>src/runtime.rs\<close>): names,
  rotation by date and the deletion of expired files. A directory is the list of its entries in the order
  they are read, with unreadable entries and refused deletions as values; a date is a day number, printed
  and parsed by the calendar library, which is an argument. The text of a time stamp is an argument too.
\<close>

record calendar =
  cal_parse :: "string \<Rightarrow> int option"
  cal_show :: "int \<Rightarrow> string"

section \<open>Names of session logs\<close>

definition is_ascii_alphanumeric :: "char \<Rightarrow> bool" where
  "is_ascii_alphanumeric c \<longleftrightarrow>
     (let n = (of_char c :: nat) in 48 \<le> n \<and> n \<le> 57 \<or> 65 \<le> n \<and> n \<le> 90 \<or> 97 \<le> n \<and> n \<le> 122)"

definition safe_filename_char :: "char \<Rightarrow> bool" where
  "safe_filename_char c \<longleftrightarrow> is_ascii_alphanumeric c \<or> c = CHR ''-'' \<or> c = CHR ''_'' \<or> c = CHR ''.''"

definition safe_filename_component :: "string \<Rightarrow> string" where
  "safe_filename_component value =
     (let component = map (\<lambda>c. if safe_filename_char c then c else CHR ''_'') value
      in if component = [] \<or> component = ''.'' \<or> component = ''..'' then ''_'' else component)"

definition filename_prefix :: "string \<Rightarrow> string \<Rightarrow> string \<Rightarrow> string" where
  "filename_prefix begin_string sender target =
     safe_filename_component begin_string @ ''-'' @ safe_filename_component sender @ ''-'' @ safe_filename_component target"

definition session_log_names :: "string \<Rightarrow> string list" where
  "session_log_names prefix = [prefix @ ''.messages.log'', prefix @ ''.event.log'']"

section \<open>Deletion of expired session logs\<close>

record log_entry =
  le_name :: "string option"
  le_dir :: bool
  le_files :: "string list"

text \<open>Deletions the operating system refuses, of a file in a directory and of an empty directory.\<close>

record log_io =
  io_keeps_file :: "string option \<Rightarrow> string \<Rightarrow> bool"
  io_keeps_dir :: "string option \<Rightarrow> bool"

definition expired :: "int \<Rightarrow> nat \<Rightarrow> int \<Rightarrow> bool" where
  "expired today days date \<longleftrightarrow> \<not> (today - date < 0 \<or> nat (today - date) < days)"

definition prunable :: "calendar \<Rightarrow> int \<Rightarrow> nat \<Rightarrow> log_entry \<Rightarrow> bool" where
  "prunable cal today days e \<longleftrightarrow>
     le_dir e \<and>
     (case le_name e of
        None \<Rightarrow> False
      | Some name \<Rightarrow>
          (case cal_parse cal name of
             None \<Rightarrow> False
           | Some date \<Rightarrow> cal_show cal date = name \<and> expired today days date))"

fun remove_files :: "(string \<Rightarrow> bool) \<Rightarrow> string list \<Rightarrow> string list \<Rightarrow> bool \<times> string list" where
  "remove_files refused [] fs = (True, fs)"
| "remove_files refused (n # ns) fs =
     (if refused n then (False, fs) else remove_files refused ns (removeAll n fs))"

definition prune_entry :: "log_io \<Rightarrow> string \<Rightarrow> log_entry \<Rightarrow> bool \<times> log_entry list" where
  "prune_entry io prefix e =
     (case remove_files (io_keeps_file io (le_name e)) (session_log_names prefix) (le_files e) of
        (False, fs) \<Rightarrow> (False, [e\<lparr>le_files := fs\<rparr>])
      | (True, fs) \<Rightarrow> (True, if fs = [] \<and> \<not> io_keeps_dir io (le_name e) then [] else [e\<lparr>le_files := fs\<rparr>]))"

fun prune_entries ::
  "calendar \<Rightarrow> log_io \<Rightarrow> string \<Rightarrow> int \<Rightarrow> nat \<Rightarrow> (unit + log_entry) list \<Rightarrow> bool \<times> (unit + log_entry) list" where
  "prune_entries cal io prefix today days [] = (True, [])"
| "prune_entries cal io prefix today days (Inl u # es) = (False, Inl u # es)"
| "prune_entries cal io prefix today days (Inr e # es) =
     (if \<not> prunable cal today days e
      then case prune_entries cal io prefix today days es of (done, es) \<Rightarrow> (done, Inr e # es)
      else case prune_entry io prefix e of
             (False, kept) \<Rightarrow> (False, map Inr kept @ es)
           | (True, kept) \<Rightarrow>
               (case prune_entries cal io prefix today days es of (done, es) \<Rightarrow> (done, map Inr kept @ es)))"

definition prune_session_logs ::
  "calendar \<Rightarrow> log_io \<Rightarrow> string \<Rightarrow> int \<Rightarrow> nat \<Rightarrow> (unit + log_entry) list \<Rightarrow> bool \<times> (unit + log_entry) list" where
  "prune_session_logs cal io prefix today days es =
     (if days = 0 then (True, es) else prune_entries cal io prefix today days es)"

section \<open>Records\<close>

text \<open>What one log has written: the date of the file, whether it is the event file, and the line.\<close>

record daily_files =
  df_date :: int
  df_written :: "(int \<times> bool \<times> string) list"

text \<open>Outcome of opening the files of a new date and of writing the line.\<close>

record write_io =
  wo_open :: bool
  wo_write :: bool

definition rotate_files :: "write_io \<Rightarrow> int \<Rightarrow> daily_files \<Rightarrow> daily_files option" where
  "rotate_files io date f =
     (if df_date f = date then Some f else if wo_open io then Some (f\<lparr>df_date := date\<rparr>) else None)"

definition write_record :: "write_io \<Rightarrow> bool \<Rightarrow> string \<Rightarrow> int \<Rightarrow> string \<Rightarrow> daily_files option \<Rightarrow> daily_files option" where
  "write_record io event raw date stamp log_files =
     (case log_files of
        None \<Rightarrow> None
      | Some f \<Rightarrow>
          (case rotate_files io date f of
             None \<Rightarrow> Some f
           | Some f \<Rightarrow>
               Some (if wo_write io
                     then f\<lparr>df_written := df_written f @ [(df_date f, event, stamp @ '': '' @ raw @ [CHR 0x0A])]\<rparr>
                     else f)))"

definition hex_digit :: "nat \<Rightarrow> char" where
  "hex_digit n = (if n < 10 then char_of (48 + n) else char_of (55 + n))"

definition byte_hex :: "char \<Rightarrow> string" where
  "byte_hex c = [hex_digit (of_char c div 16), hex_digit (of_char c mod 16)]"

definition hex_line :: "string \<Rightarrow> string" where
  "hex_line raw = ''in-hex '' @ concat (map byte_hex raw)"

section \<open>Runtime settings\<close>

definition RUNTIME_KEYS :: "string list" where
  "RUNTIME_KEYS =
     [''RUST_LOG'', ''APP_LOG_PATH'', ''APP_LOG_RETENTION_DAYS'', ''FIX_LOG_RETENTION_DAYS'', ''REST_PORT'', ''START_TIMEOUT'',
      ''STOP_TIMEOUT'']"

datatype runtime_error =
    RuntimeUnreadable | RuntimeNotKeyValue nat | RuntimeUnknown nat string | RuntimeDuplicate string | RuntimeDays string

definition runtime_line :: "nat \<Rightarrow> string \<Rightarrow> settings \<Rightarrow> runtime_error + settings" where
  "runtime_line n raw values =
     (let line = trim raw
      in if line = [] \<or> starts_with ''#'' line then Inr values
         else case split_once (CHR ''='') line of
           None \<Rightarrow> Inl (RuntimeNotKeyValue n)
         | Some (key, value) \<Rightarrow>
             let key = trim key
             in if key \<notin> set RUNTIME_KEYS then Inl (RuntimeUnknown n key)
                else if values key \<noteq> None then Inl (RuntimeDuplicate key)
                else Inr (values(key \<mapsto> trim value)))"

fun runtime_lines :: "nat \<Rightarrow> string list \<Rightarrow> settings \<Rightarrow> runtime_error + settings" where
  "runtime_lines n [] values = Inr values"
| "runtime_lines n (l # ls) values = and_then (runtime_line n l values) (runtime_lines (n + 1) ls)"

text \<open>The environment of the process comes first, then the file, then the default.\<close>

definition runtime_value :: "settings \<Rightarrow> settings \<Rightarrow> string \<Rightarrow> string \<Rightarrow> string" where
  "runtime_value environment values key dflt =
     (case environment key of
        Some v \<Rightarrow> v
      | None \<Rightarrow> (case values key of Some v \<Rightarrow> v | None \<Rightarrow> dflt))"

definition runtime_days :: "settings \<Rightarrow> settings \<Rightarrow> string \<Rightarrow> runtime_error + nat" where
  "runtime_days environment values key =
     (case parse_u32 (runtime_value environment values key ''14'') of None \<Rightarrow> Inl (RuntimeDays key) | Some n \<Rightarrow> Inr n)"

text \<open>The lines of the settings file, \<^const>\<open>None\<close> where there is no such file, or an error of reading it.\<close>

definition runtime_load :: "settings \<Rightarrow> unit + string list option \<Rightarrow> runtime_error + settings" where
  "runtime_load environment file =
     (case file of
        Inl _ \<Rightarrow> Inl RuntimeUnreadable
      | Inr lines \<Rightarrow>
          and_then (runtime_lines 1 (case lines of None \<Rightarrow> [] | Some ls \<Rightarrow> ls) Map.empty) (\<lambda>values.
          and_then (runtime_days environment values ''APP_LOG_RETENTION_DAYS'') (\<lambda>_.
          and_then (runtime_days environment values ''FIX_LOG_RETENTION_DAYS'') (\<lambda>_. Inr values))))"

section \<open>Deletion of expired application logs\<close>

definition strip_ends :: "string \<Rightarrow> string \<Rightarrow> string \<Rightarrow> string option" where
  "strip_ends prefix suffix s =
     (if starts_with prefix s
      then let rest = drop (length prefix) s
           in if length suffix \<le> length rest \<and> drop (length rest - length suffix) rest = suffix
              then Some (take (length rest - length suffix) rest) else None
      else None)"

definition app_log_expired :: "calendar \<Rightarrow> string \<Rightarrow> int \<Rightarrow> nat \<Rightarrow> string \<Rightarrow> bool" where
  "app_log_expired cal binary today retention name =
     (case strip_ends (binary @ ''-'') ''.log'' name of
        None \<Rightarrow> False
      | Some day \<Rightarrow> (case cal_parse cal day of None \<Rightarrow> False | Some d \<Rightarrow> int retention \<le> today - d))"

text \<open>An entry of the directory is unreadable, or a name that may be a file.\<close>

fun prune_app_entries ::
  "calendar \<Rightarrow> (string \<Rightarrow> bool) \<Rightarrow> string \<Rightarrow> int \<Rightarrow> nat \<Rightarrow> (unit + string \<times> bool) list \<Rightarrow> bool \<times> (unit + string \<times> bool) list" where
  "prune_app_entries cal refused binary today retention [] = (True, [])"
| "prune_app_entries cal refused binary today retention (Inl u # es) = (False, Inl u # es)"
| "prune_app_entries cal refused binary today retention (Inr (name, is_file) # es) =
     (if \<not> is_file \<or> \<not> app_log_expired cal binary today retention name
      then case prune_app_entries cal refused binary today retention es of (done, es) \<Rightarrow> (done, Inr (name, is_file) # es)
      else if refused name then (False, Inr (name, is_file) # es)
      else prune_app_entries cal refused binary today retention es)"

definition prune_app_logs ::
  "calendar \<Rightarrow> (string \<Rightarrow> bool) \<Rightarrow> string \<Rightarrow> int \<Rightarrow> nat \<Rightarrow> (unit + string \<times> bool) list \<Rightarrow> bool \<times> (unit + string \<times> bool) list" where
  "prune_app_logs cal refused binary today retention es =
     (if retention = 0 then (True, es) else prune_app_entries cal refused binary today retention es)"

section \<open>Names are safe\<close>

lemma safe_filename_component_safe:
  "list_all safe_filename_char (safe_filename_component v)"
  "safe_filename_component v \<noteq> [] \<and> safe_filename_component v \<noteq> ''.'' \<and> safe_filename_component v \<noteq> ''..''"
  by (auto simp: safe_filename_component_def Let_def list_all_iff safe_filename_char_def split: if_splits)

theorem filename_prefix_safe: "CHR ''/'' \<notin> set (filename_prefix b s t) \<and> CHR 0x00 \<notin> set (filename_prefix b s t)"
proof -
  have "\<not> safe_filename_char (CHR ''/'')" "\<not> safe_filename_char (CHR 0x00)"
    by (simp_all add: safe_filename_char_def is_ascii_alphanumeric_def)
  then have "CHR ''/'' \<notin> set (safe_filename_component v) \<and> CHR 0x00 \<notin> set (safe_filename_component v)" for v
    using safe_filename_component_safe(1) [of v] by (auto simp: list_all_iff)
  then show ?thesis by (simp add: filename_prefix_def)
qed

text \<open>Two clients with well-formed identifiers can share the files of a session log.\<close>

lemma filename_prefix_collides:
  "comp_id_ok ''A/B'' \<and> comp_id_ok ''A_B'' \<and> filename_prefix b s ''A/B'' = filename_prefix b s ''A_B''"
  by (simp add: comp_id_ok_def is_ascii_char_def is_ascii_whitespace_char_def filename_prefix_def safe_filename_component_def
      safe_filename_char_def is_ascii_alphanumeric_def)

section \<open>Only expired files of the session are deleted\<close>

lemma remove_files_keeps: "remove_files r ns fs = (ok, fs') \<Longrightarrow> set fs - set ns \<subseteq> set fs' \<and> set fs' \<subseteq> set fs"
proof (induction ns arbitrary: fs)
  case (Cons n ns)
  show ?case
  proof (cases "r n")
    case False
    then show ?thesis using Cons.IH [of "removeAll n fs"] Cons.prems by auto
  qed (use Cons.prems in auto)
qed simp

lemma remove_files_all: "remove_files r ns fs = (True, fs') \<Longrightarrow> set fs' = set fs - set ns"
  by (induction ns arbitrary: fs) (auto split: if_splits)

lemma prune_entry_kept:
  assumes "prune_entry io prefix e = (ok, kept)" "f \<in> set (le_files e)" "f \<notin> set (session_log_names prefix)"
  shows "\<exists>e' \<in> set kept. le_name e' = le_name e \<and> f \<in> set (le_files e')"
proof -
  obtain b fs where r: "remove_files (io_keeps_file io (le_name e)) (session_log_names prefix) (le_files e) = (b, fs)" by fastforce
  have "f \<in> set fs" using remove_files_keeps [OF r] assms(2,3) by blast
  then have "fs \<noteq> []" by auto
  then show ?thesis using assms(1) r \<open>f \<in> set fs\<close> by (auto simp: prune_entry_def split: bool.splits)
qed

lemma prune_entry_shape:
  assumes "prune_entry io prefix e = (ok, kept)" "e' \<in> set kept"
  shows "le_name e' = le_name e \<and> le_dir e' = le_dir e \<and> set (le_files e') \<subseteq> set (le_files e) \<and>
    (ok \<longrightarrow> set (le_files e') \<inter> set (session_log_names prefix) = {})"
proof -
  obtain b fs where r: "remove_files (io_keeps_file io (le_name e)) (session_log_names prefix) (le_files e) = (b, fs)" by fastforce
  have "e' = e\<lparr>le_files := fs\<rparr>" "ok = b" using assms r by (auto simp: prune_entry_def split: bool.splits if_splits)
  then show ?thesis using remove_files_keeps [OF r] remove_files_all [of _ _ "le_files e" fs] r by auto
qed

lemma prune_entries_Cons:
  assumes "prune_entries cal io prefix today days (Inr a # es) = (ok, es')"
  obtains (kept) es1 where "\<not> prunable cal today days a" "prune_entries cal io prefix today days es = (ok, es1)" "es' = Inr a # es1"
  | (refused) kept where "prunable cal today days a" "prune_entry io prefix a = (False, kept)" "\<not> ok" "es' = map Inr kept @ es"
  | (pruned) kept es1 where "prunable cal today days a" "prune_entry io prefix a = (True, kept)"
      "prune_entries cal io prefix today days es = (ok, es1)" "es' = map Inr kept @ es1"
proof -
  obtain ok1 es1 where p: "prune_entries cal io prefix today days es = (ok1, es1)" by fastforce
  obtain b kept where k: "prune_entry io prefix a = (b, kept)" by fastforce
  show thesis
  proof (cases "prunable cal today days a")
    case False
    then show thesis using that(1) [of es1] assms p by simp
  next
    case True
    show thesis
    proof (cases b)
      case True
      then show thesis using that(3) [of kept es1] \<open>prunable cal today days a\<close> assms p k by simp
    next
      case False
      then show thesis using that(2) [of kept] \<open>prunable cal today days a\<close> assms p k by simp
    qed
  qed
qed

lemma prune_entries_keeps:
  assumes "prune_entries cal io prefix today days es = (ok, es')" "Inr e \<in> set es" "f \<in> set (le_files e)"
    "f \<notin> set (session_log_names prefix) \<or> \<not> prunable cal today days e"
  shows "\<exists>e'. Inr e' \<in> set es' \<and> le_name e' = le_name e \<and> f \<in> set (le_files e')"
  using assms
proof (induction es arbitrary: ok es')
  case (Cons x es)
  show ?case
  proof (cases x)
    case (Inr a)
    from Cons.prems(1) [unfolded Inr] show ?thesis
    proof (cases rule: prune_entries_Cons)
      case (kept es1)
      then show ?thesis using Cons.IH [OF kept(2) _ Cons.prems(3,4)] Cons.prems(2,3) Inr by auto
    next
      case (refused kept)
      then show ?thesis using prune_entry_kept [OF refused(2), of f] Cons.prems(2-4) Inr by fastforce
    next
      case (pruned kept es1)
      show ?thesis
      proof (cases "Inr e \<in> set es")
        case True
        then show ?thesis using Cons.IH [OF pruned(3) True Cons.prems(3,4)] pruned(4) by auto
      next
        case False
        then have "e = a" using Cons.prems(2) Inr by simp
        then show ?thesis using prune_entry_kept [OF pruned(2), of f] Cons.prems(3,4) pruned(1,4) by fastforce
      qed
    qed
  qed (use Cons.prems in auto)
qed simp

lemma prune_entries_done:
  assumes "prune_entries cal io prefix today days es = (True, es')" "Inr e' \<in> set es'" "prunable cal today days e'"
  shows "set (le_files e') \<inter> set (session_log_names prefix) = {}"
  using assms
proof (induction es arbitrary: es')
  case (Cons x es)
  show ?case
  proof (cases x)
    case (Inr a)
    from Cons.prems(1) [unfolded Inr] show ?thesis
    proof (cases rule: prune_entries_Cons)
      case (kept es1)
      then have "Inr e' \<in> set es1" using Cons.prems(2,3) by auto
      then show ?thesis using Cons.IH [OF kept(2)] Cons.prems(3) by blast
    next
      case (pruned kept es1)
      then have "e' \<in> set kept \<or> Inr e' \<in> set es1" using Cons.prems(2) by auto
      then show ?thesis using prune_entry_shape [OF pruned(2), of e'] Cons.IH [OF pruned(3) _ Cons.prems(3)] by blast
    qed simp
  qed (use Cons.prems in auto)
qed simp

theorem prune_session_logs_exact:
  assumes "prune_session_logs cal io prefix today days es = (ok, es')"
  shows "Inr e \<in> set es \<Longrightarrow> f \<in> set (le_files e) \<Longrightarrow>
      days = 0 \<or> f \<notin> set (session_log_names prefix) \<or> \<not> prunable cal today days e \<Longrightarrow>
      \<exists>e'. Inr e' \<in> set es' \<and> le_name e' = le_name e \<and> f \<in> set (le_files e')"
    and "ok \<Longrightarrow> 0 < days \<Longrightarrow> Inr e' \<in> set es' \<Longrightarrow> prunable cal today days e' \<Longrightarrow>
      set (le_files e') \<inter> set (session_log_names prefix) = {}"
  using assms prune_entries_keeps [of cal io prefix today days es ok es'] prune_entries_done [of cal io prefix today days es es']
  by (auto simp: prune_session_logs_def split: if_splits)

lemma prune_app_entries_exact:
  assumes "prune_app_entries cal refused binary today retention es = (ok, es')"
  shows "set es' \<subseteq> set es \<and>
    (\<forall>x \<in> set es - set es'. \<exists>name. x = Inr (name, True) \<and> app_log_expired cal binary today retention name) \<and>
    (ok \<longrightarrow> (\<forall>name. Inr (name, True) \<in> set es' \<longrightarrow> \<not> app_log_expired cal binary today retention name))"
  using assms
proof (induction es arbitrary: ok es')
  case (Cons x es)
  obtain ok1 es1 where p: "prune_app_entries cal refused binary today retention es = (ok1, es1)" by fastforce
  note ih = Cons.IH [OF p]
  show ?case
  proof (cases x)
    case (Inr a)
    obtain name is_file where a: "a = (name, is_file)" by fastforce
    consider "\<not> is_file \<or> \<not> app_log_expired cal binary today retention name"
      | "is_file" "app_log_expired cal binary today retention name" "refused name"
      | "is_file" "app_log_expired cal binary today retention name" "\<not> refused name" by blast
    then show ?thesis
    proof cases
      case 1
      then have "ok = ok1" "es' = Inr (name, is_file) # es1" using Cons.prems by (simp_all add: Inr a p)
      then show ?thesis using ih 1 by (auto simp: Inr a)
    next
      case 2
      then show ?thesis using Cons.prems by (simp add: Inr a)
    next
      case 3
      then have "ok = ok1" "es' = es1" using Cons.prems by (simp_all add: Inr a p)
      then show ?thesis using ih 3 by (auto simp: Inr a)
    qed
  qed (use Cons.prems in auto)
qed simp

theorem prune_app_logs_exact:
  assumes "prune_app_logs cal refused binary today retention es = (ok, es')"
  shows "set es' \<subseteq> set es"
    and "x \<in> set es \<Longrightarrow> x \<notin> set es' \<Longrightarrow> \<exists>name. x = Inr (name, True) \<and> 0 < retention \<and> app_log_expired cal binary today retention name"
    and "ok \<Longrightarrow> 0 < retention \<Longrightarrow> Inr (name, True) \<in> set es' \<Longrightarrow> \<not> app_log_expired cal binary today retention name"
proof -
  have "set es' \<subseteq> set es" "\<forall>x \<in> set es - set es'. \<exists>name. x = Inr (name, True) \<and> app_log_expired cal binary today retention name"
    "ok \<longrightarrow> (\<forall>name. Inr (name, True) \<in> set es' \<longrightarrow> \<not> app_log_expired cal binary today retention name)"
    if "prune_app_entries cal refused binary today retention es = (ok, es')"
    using prune_app_entries_exact [OF that] by blast+
  then show "set es' \<subseteq> set es"
    "x \<in> set es \<Longrightarrow> x \<notin> set es' \<Longrightarrow> \<exists>name. x = Inr (name, True) \<and> 0 < retention \<and> app_log_expired cal binary today retention name"
    "ok \<Longrightarrow> 0 < retention \<Longrightarrow> Inr (name, True) \<in> set es' \<Longrightarrow> \<not> app_log_expired cal binary today retention name"
    using assms by (auto simp: prune_app_logs_def split: if_splits)
qed

section \<open>Records\<close>

text \<open>A record is in the file of its own date, or nowhere.\<close>

theorem write_record_dated:
  assumes "write_record io event raw date stamp (Some f) = Some f'"
  shows "df_written f' = df_written f \<or>
    df_date f' = date \<and> df_written f' = df_written f @ [(date, event, stamp @ '': '' @ raw @ [CHR 0x0A])]"
  using assms by (auto simp: write_record_def rotate_files_def split: option.splits if_splits)

lemma hex_digit_inj: "m < 16 \<Longrightarrow> n < 16 \<Longrightarrow> hex_digit m = hex_digit n \<Longrightarrow> m = n"
proof -
  assume "m < 16" "n < 16" "hex_digit m = hex_digit n"
  then have "of_char (hex_digit m) = (of_char (hex_digit n) :: nat)" by simp
  then show "m = n" using \<open>m < 16\<close> \<open>n < 16\<close> by (auto simp: hex_digit_def split: if_splits)
qed

lemma byte_hex_inj: "byte_hex c = byte_hex d \<Longrightarrow> c = d"
proof -
  assume a: "byte_hex c = byte_hex d"
  have lt: "(of_char c :: nat) < 256" "(of_char d :: nat) < 256" by simp_all
  have "(of_char c :: nat) div 16 = of_char d div 16" "(of_char c :: nat) mod 16 = of_char d mod 16"
    using a lt by (auto simp: byte_hex_def div_less_iff_less_mult intro!: hex_digit_inj)
  then have "(of_char c :: nat) = of_char d" by (metis mod_div_decomp)
  then show "c = d" by simp
qed

theorem hex_line_lossless: "hex_line r = hex_line s \<longleftrightarrow> r = s"
proof -
  have "concat (map byte_hex r) = concat (map byte_hex s) \<Longrightarrow> r = s"
  proof (induction r arbitrary: s)
    case Nil
    then show ?case by (cases s) (auto simp: byte_hex_def)
  next
    case (Cons c r)
    then obtain d t where s: "s = d # t" by (cases s) (auto simp: byte_hex_def)
    have "byte_hex c = byte_hex d" "concat (map byte_hex r) = concat (map byte_hex t)"
      using Cons.prems by (auto simp: s byte_hex_def [of c] byte_hex_def [of d])
    then show ?case using Cons.IH byte_hex_inj by (simp add: s)
  qed
  then show ?thesis by (auto simp: hex_line_def)
qed

lemma hex_digit_newline: "n < 16 \<Longrightarrow> hex_digit n \<noteq> CHR 0x0A"
proof
  assume n: "n < 16" "hex_digit n = CHR 0x0A"
  then have "(of_char (hex_digit n) :: nat) = 10" by simp
  then show False using n(1) by (auto simp: hex_digit_def split: if_splits)
qed

lemma hex_line_one_line: "CHR 0x0A \<notin> set (hex_line r)"
proof -
  have "(of_char c :: nat) div 16 < 16" "(of_char c :: nat) mod 16 < 16" for c :: char
    by (simp_all add: div_less_iff_less_mult)
  note d = hex_digit_newline [OF this(1), symmetric] hex_digit_newline [OF this(2), symmetric]
  have "CHR 0x0A \<notin> set (byte_hex c)" for c by (simp add: byte_hex_def d)
  then show ?thesis by (auto simp: hex_line_def)
qed

section \<open>Runtime settings are well typed\<close>

lemma runtime_lines_keys:
  "runtime_lines n ls vs = Inr vs' \<Longrightarrow> dom vs \<subseteq> set RUNTIME_KEYS \<Longrightarrow> dom vs' \<subseteq> set RUNTIME_KEYS"
proof (induction ls arbitrary: n vs)
  case (Cons l ls)
  obtain v where v: "runtime_line n l vs = Inr v" "runtime_lines (n + 1) ls v = Inr vs'"
    using Cons.prems(1) by (auto simp: rust_bind)
  have "v k = None \<or> vs k \<noteq> None \<or> k \<in> set RUNTIME_KEYS" for k
    using v(1) by (auto simp: runtime_line_def Let_def split: if_splits option.splits)
  then have "dom v \<subseteq> dom vs \<union> set RUNTIME_KEYS" by (metis UnCI domIff subsetI)
  then have "dom v \<subseteq> set RUNTIME_KEYS" using Cons.prems(2) by blast
  then show ?case using Cons.IH [OF v(2)] by blast
qed simp

theorem runtime_load_typed:
  assumes "runtime_load environment file = Inr vs"
  shows "dom vs \<subseteq> set RUNTIME_KEYS"
    "k \<in> {''APP_LOG_RETENTION_DAYS'', ''FIX_LOG_RETENTION_DAYS''} \<Longrightarrow> \<exists>n. runtime_days environment vs k = Inr n \<and> n \<le> u32_max"
  using assms runtime_lines_keys [of 1 _ Map.empty vs] parse_uint_bound
  by (auto simp: runtime_load_def runtime_days_def rust_bind split: sum.splits option.splits)

end
