(* ===== verification/Runtime.thy ===== *)
theory Runtime
  imports Logs
begin

text \<open>
  The process around the programs (\<open>src/runtime.rs\<close>): where the installation is, how paths are resolved, the
  application log with its daily file, the probe of a directory and the readiness file. A path is its
  components; the file system is a map from paths to contents with a set of directories, and which operations
  of it fail is an argument.
\<close>

section \<open>Paths\<close>

record path =
  pa_abs :: bool
  pa_parts :: "string list"

text \<open>\<open>Path::join\<close>, \<open>parent\<close>, \<open>file_name\<close>, \<open>ancestors\<close>\<close>

definition join_path :: "path \<Rightarrow> path \<Rightarrow> path" where
  "join_path r p = (if pa_abs p then p else r\<lparr>pa_parts := pa_parts r @ pa_parts p\<rparr>)"

definition under :: "path \<Rightarrow> string list \<Rightarrow> path" where
  "under r ps = join_path r \<lparr>pa_abs = False, pa_parts = ps\<rparr>"

definition path_parent :: "path \<Rightarrow> path option" where
  "path_parent p = (if pa_parts p = [] then None else Some (p\<lparr>pa_parts := butlast (pa_parts p)\<rparr>))"

definition path_file_name :: "path \<Rightarrow> string option" where
  "path_file_name p = (if pa_parts p = [] then None else Some (last (pa_parts p)))"

lemma path_parent_shorter: "path_parent p = Some q \<Longrightarrow> length (pa_parts q) < length (pa_parts p)"
  by (auto simp: path_parent_def split: if_splits)

function ancestors :: "path \<Rightarrow> path list" where
  "ancestors p = p # (case path_parent p of None \<Rightarrow> [] | Some q \<Rightarrow> ancestors q)"
  by pat_completeness auto
termination
  by (relation "measure (\<lambda>p. length (pa_parts p))") (auto dest: path_parent_shorter)

declare ancestors.simps [simp del]

definition resolve_path :: "path \<Rightarrow> path \<Rightarrow> path" where
  "resolve_path base p = (if pa_abs p then p else join_path base p)"

datatype runtime_fault = NoExecutable | NoParent

text \<open>
  The executable, if the system knows it; \<open>is_file\<close> and \<open>is_dir\<close> are the file system.
\<close>

definition installation_root :: "(path \<Rightarrow> bool) \<Rightarrow> (path \<Rightarrow> bool) \<Rightarrow> path option \<Rightarrow> runtime_fault + path" where
  "installation_root is_file is_dir exe =
     (case exe of
        None \<Rightarrow> Inl NoExecutable
      | Some exe \<Rightarrow>
          (case path_parent exe of
             None \<Rightarrow> Inl NoParent
           | Some parent \<Rightarrow>
               if path_file_name parent = Some ''bin''
               then Inr (case path_parent parent of None \<Rightarrow> parent | Some base \<Rightarrow> base)
               else (case find (\<lambda>c. is_file (under c [''Cargo.toml'']) \<and> is_dir (under c [''configs''])) (ancestors parent) of
                       Some c \<Rightarrow> Inr c
                     | None \<Rightarrow> Inr parent)))"

section \<open>Files\<close>

record host =
  ho_files :: "path \<Rightarrow> string option"
  ho_dirs :: "path set"

text \<open>Which operations succeed: creating a directory, opening, writing and removing a file.\<close>

record host_io =
  hi_mkdir :: "path \<Rightarrow> bool"
  hi_open :: "path \<Rightarrow> bool"
  hi_write :: bool
  hi_remove :: "path \<Rightarrow> bool"

definition create_dir_all :: "host_io \<Rightarrow> path \<Rightarrow> host \<Rightarrow> host option" where
  "create_dir_all io p h = (if hi_mkdir io p then Some (h\<lparr>ho_dirs := ho_dirs h \<union> set (ancestors p)\<rparr>) else None)"

text \<open>\<open>create_new\<close>: fails if there is such a file already.\<close>

definition create_new :: "host_io \<Rightarrow> path \<Rightarrow> host \<Rightarrow> host option" where
  "create_new io p h =
     (if ho_files h p = None \<and> hi_open io p then Some (h\<lparr>ho_files := (ho_files h)(p \<mapsto> [])\<rparr>) else None)"

definition remove_file :: "host_io \<Rightarrow> path \<Rightarrow> host \<Rightarrow> host option" where
  "remove_file io p h =
     (if ho_files h p \<noteq> None \<and> hi_remove io p then Some (h\<lparr>ho_files := (ho_files h)(p := None)\<rparr>) else None)"

definition check_writable_dir :: "host_io \<Rightarrow> nat \<Rightarrow> path \<Rightarrow> host \<Rightarrow> bool \<times> host" where
  "check_writable_dir io pid p h =
     (case create_dir_all io p h of
        None \<Rightarrow> (False, h)
      | Some h \<Rightarrow>
          let probe = under p [''.rust-trader-write-'' @ show_nat pid]
          in case create_new io probe h of
               None \<Rightarrow> (False, h)
             | Some h \<Rightarrow> (case remove_file io probe h of None \<Rightarrow> (False, h) | Some h \<Rightarrow> (True, h)))"

text \<open>The directory of a file, unless it is the working directory.\<close>

definition file_dir :: "path \<Rightarrow> path option" where
  "file_dir p = (case path_parent p of None \<Rightarrow> None | Some q \<Rightarrow> if \<not> pa_abs q \<and> pa_parts q = [] then None else Some q)"

text \<open>\<open>ReadyFile::create\<close> and \<open>drop\<close>; a file that cannot be written stays behind.\<close>

definition ready_create :: "host_io \<Rightarrow> nat \<Rightarrow> path \<Rightarrow> host \<Rightarrow> bool \<times> host" where
  "ready_create io pid p h =
     (case (case file_dir p of None \<Rightarrow> Some h | Some d \<Rightarrow> create_dir_all io d h) of
        None \<Rightarrow> (False, h)
      | Some h \<Rightarrow>
          (case create_new io p h of
             None \<Rightarrow> (False, h)
           | Some h \<Rightarrow>
               if hi_write io then (True, h\<lparr>ho_files := (ho_files h)(p \<mapsto> show_nat pid @ [CHR 0x0A])\<rparr>) else (False, h)))"

definition ready_drop :: "host_io \<Rightarrow> path \<Rightarrow> host \<Rightarrow> host" where
  "ready_drop io p h = (case remove_file io p h of None \<Rightarrow> h | Some h \<Rightarrow> h)"

section \<open>The application log\<close>

text \<open>
  \<open>dw_entries\<close> is the log directory as \<open>read_dir\<close> gives it; \<open>dw_written\<close> is what was written, with the date
  of the file it went to.
\<close>

record daily_writer =
  dw_binary :: string
  dw_date :: int
  dw_retention :: nat
  dw_entries :: "(unit + string \<times> bool) list"
  dw_written :: "(int \<times> string) list"

record daily_io =
  di_open :: bool
  di_refused :: "string \<Rightarrow> bool"
  di_write :: bool
  di_terminal :: bool
  di_stderr :: bool

definition app_log_name :: "calendar \<Rightarrow> string \<Rightarrow> int \<Rightarrow> string" where
  "app_log_name cal binary date = binary @ ''-'' @ cal_show cal date @ ''.log''"

text \<open>Opening the file of a date creates it when it is not there.\<close>

definition daily_open :: "calendar \<Rightarrow> int \<Rightarrow> daily_writer \<Rightarrow> daily_writer" where
  "daily_open cal date w =
     (let entry = Inr (app_log_name cal (dw_binary w) date, True)
      in w\<lparr>dw_date := date, dw_entries := (if entry \<in> set (dw_entries w) then dw_entries w else dw_entries w @ [entry])\<rparr>)"

definition daily_prune :: "calendar \<Rightarrow> daily_io \<Rightarrow> daily_writer \<Rightarrow> bool \<times> daily_writer" where
  "daily_prune cal io w =
     (case prune_app_logs cal (di_refused io) (dw_binary w) (dw_date w) (dw_retention w) (dw_entries w) of
        (ok, es) \<Rightarrow> (ok, w\<lparr>dw_entries := es\<rparr>))"

definition daily_new ::
  "calendar \<Rightarrow> daily_io \<Rightarrow> string \<Rightarrow> nat \<Rightarrow> int \<Rightarrow> (unit + string \<times> bool) list \<Rightarrow> daily_writer option" where
  "daily_new cal io binary retention today es =
     (if \<not> di_open io then None
      else case daily_prune cal io (daily_open cal today
          \<lparr>dw_binary = binary, dw_date = today, dw_retention = retention, dw_entries = es, dw_written = []\<rparr>) of
        (ok, w) \<Rightarrow> if ok then Some w else None)"

text \<open>The number of bytes taken, or \<^const>\<open>None\<close> for an error, with the writer after the call.\<close>

definition daily_emit :: "daily_io \<Rightarrow> string \<Rightarrow> daily_writer \<Rightarrow> nat option \<times> daily_writer" where
  "daily_emit io bytes w =
     (if \<not> di_write io then (None, w)
      else let w = w\<lparr>dw_written := dw_written w @ [(dw_date w, bytes)]\<rparr>
           in if di_terminal io \<and> \<not> di_stderr io then (None, w) else (Some (length bytes), w))"

definition daily_write :: "calendar \<Rightarrow> daily_io \<Rightarrow> int \<Rightarrow> string \<Rightarrow> daily_writer \<Rightarrow> nat option \<times> daily_writer" where
  "daily_write cal io today bytes w =
     (if today = dw_date w then daily_emit io bytes w
      else if \<not> di_open io then (None, w)
      else case daily_prune cal io (daily_open cal today w) of
        (ok, w) \<Rightarrow> if ok then daily_emit io bytes w else (None, w))"

datatype logging_error = EmptyLogPath | BadRetention runtime_error | LogUnusable

definition init_logging ::
  "calendar \<Rightarrow> daily_io \<Rightarrow> settings \<Rightarrow> settings \<Rightarrow> string \<Rightarrow> int \<Rightarrow> (unit + string \<times> bool) list option \<Rightarrow> logging_error + daily_writer" where
  "init_logging cal io environment values binary today dir =
     (if trim (runtime_value environment values ''APP_LOG_PATH'' ''logs/app'') = [] then Inl EmptyLogPath
      else case runtime_days environment values ''APP_LOG_RETENTION_DAYS'' of
        Inl e \<Rightarrow> Inl (BadRetention e)
      | Inr days \<Rightarrow>
          (case dir of
             None \<Rightarrow> Inl LogUnusable
           | Some es \<Rightarrow>
               (case daily_new cal io binary days today es of None \<Rightarrow> Inl LogUnusable | Some w \<Rightarrow> Inr w)))"

section \<open>Where things are\<close>

lemma under_parts [simp]: "pa_parts (under r ps) = pa_parts r @ ps" "pa_abs (under r ps) = pa_abs r"
  by (simp_all add: under_def join_path_def)

lemma ancestors_prefix: "q \<in> set (ancestors p) \<Longrightarrow> pa_abs q = pa_abs p \<and> (\<exists>ps. pa_parts p = pa_parts q @ ps)"
proof (induction p rule: ancestors.induct)
  case (1 p)
  show ?case
  proof (cases "q = p")
    case False
    then obtain r where r: "path_parent p = Some r" "q \<in> set (ancestors r)"
      using "1.prems" unfolding ancestors.simps [of p] by (cases "path_parent p") auto
    have p: "pa_parts p = pa_parts r @ [last (pa_parts p)]" "pa_abs r = pa_abs p"
      using r(1) by (auto simp: path_parent_def split: if_splits)
    obtain ps where "pa_abs q = pa_abs r" "pa_parts r = pa_parts q @ ps" using "1.IH" [OF r] by blast
    then have "pa_abs q = pa_abs p" "pa_parts p = pa_parts q @ ps @ [last (pa_parts p)]" using p by auto
    then show ?thesis by blast
  qed auto
qed

text \<open>
  The installation is a directory above the executable, wherever the program was started from; so every
  path that is resolved against it is absolute if the executable's is.
\<close>

theorem installation_above_executable:
  assumes "installation_root is_file is_dir (Some exe) = Inr base"
  shows "pa_abs base = pa_abs exe" "\<exists>ps. ps \<noteq> [] \<and> pa_parts exe = pa_parts base @ ps"
    "pa_abs exe \<Longrightarrow> pa_abs (resolve_path base p)"
proof -
  obtain par where par: "path_parent exe = Some par" using assms by (auto simp: installation_root_def split: option.splits)
  then have e: "pa_parts exe = pa_parts par @ [last (pa_parts exe)]" "pa_abs par = pa_abs exe"
    by (auto simp: path_parent_def split: if_splits)
  have up: "path_parent par = Some q \<Longrightarrow> q \<in> set (ancestors par)" for q
    by (subst ancestors.simps) (simp add: ancestors.simps [of q])
  have "base \<in> set (ancestors par)"
    using assms par up ancestors.simps [of par]
    by (auto simp: installation_root_def find_Some_iff split: option.splits if_splits)
  from ancestors_prefix [OF this] obtain ps where "pa_abs base = pa_abs par" "pa_parts par = pa_parts base @ ps" by blast
  then show a: "pa_abs base = pa_abs exe" and "\<exists>ps. ps \<noteq> [] \<and> pa_parts exe = pa_parts base @ ps"
    using e by (auto intro: exI [of _ "ps @ [last (pa_parts exe)]"])
  then show "pa_abs exe \<Longrightarrow> pa_abs (resolve_path base p)" by (simp add: resolve_path_def join_path_def)
qed

section \<open>Probes and readiness\<close>

text \<open>The probe of a directory leaves every file as it was, unless the probe itself cannot be removed.\<close>

theorem check_writable_dir_leaves_files:
  assumes "check_writable_dir io pid p h = (ok, h')" "ok \<or> (\<forall>q. hi_remove io q)"
  shows "ho_files h' = ho_files h"
  using assms
  by (auto simp: check_writable_dir_def create_dir_all_def create_new_def remove_file_def Let_def fun_upd_idem
      split: option.splits if_splits)

text \<open>A readiness file that was published can be taken back, and one that is there is never overwritten.\<close>

theorem ready_file_round_trip:
  assumes "ready_create io pid p h = (ok, h')"
  shows "ok \<Longrightarrow> ho_files h p = None \<and> ho_files h' = (ho_files h)(p \<mapsto> show_nat pid @ [CHR 0x0A])"
    "ok \<Longrightarrow> hi_remove io p \<Longrightarrow> ho_files (ready_drop io p h') = ho_files h"
    "ho_files h p \<noteq> None \<Longrightarrow> \<not> ok \<and> ho_files h' = ho_files h"
  using assms
  by (auto simp: ready_create_def create_dir_all_def create_new_def ready_drop_def remove_file_def fun_upd_idem
      split: option.splits if_splits)

section \<open>The application log keeps to its date\<close>

lemma daily_prune_frame:
  "daily_prune cal io w = (ok, w') \<Longrightarrow> dw_date w' = dw_date w \<and> dw_written w' = dw_written w \<and> dw_binary w' = dw_binary w \<and>
     dw_retention w' = dw_retention w"
  by (auto simp: daily_prune_def split: prod.splits)

text \<open>A record goes to the file of its day or nowhere, and is counted only if it was written.\<close>

theorem daily_write_dated:
  assumes "daily_write cal io today bytes w = (r, w')"
  shows "dw_written w' = dw_written w \<and> r = None \<or>
    dw_date w' = today \<and> dw_written w' = dw_written w @ [(today, bytes)] \<and> r \<in> {None, Some (length bytes)}"
  using assms daily_prune_frame
  by (auto simp: daily_write_def daily_emit_def daily_open_def Let_def split: if_splits prod.splits)

lemma own_log_not_expired:
  assumes "cal_parse cal (cal_show cal date) = Some date" "0 < retention"
  shows "\<not> app_log_expired cal binary date retention (app_log_name cal binary date)"
  using assms by (simp add: app_log_expired_def app_log_name_def strip_ends_def starts_with_def Let_def)

text \<open>The log never deletes the file it writes to.\<close>

theorem daily_write_keeps_own_file:
  assumes "daily_write cal io today bytes w = (r, w')" "cal_parse cal (cal_show cal (dw_date w')) = Some (dw_date w')"
    "Inr (app_log_name cal (dw_binary w) (dw_date w), True) \<in> set (dw_entries w)"
  shows "Inr (app_log_name cal (dw_binary w') (dw_date w'), True) \<in> set (dw_entries w')"
proof (cases "today = dw_date w \<or> \<not> di_open io")
  case True
  then show ?thesis using assms by (auto simp: daily_write_def daily_emit_def Let_def split: if_splits)
next
  case False
  let ?w = "daily_open cal today w"
  obtain ok w1 where p: "daily_prune cal io ?w = (ok, w1)" by fastforce
  then have w': "dw_entries w' = dw_entries w1" "dw_date w' = dw_date w1" "dw_binary w' = dw_binary w1"
    using assms(1) False by (auto simp: daily_write_def daily_emit_def Let_def split: if_splits)
  obtain es where es: "prune_app_logs cal (di_refused io) (dw_binary w) today (dw_retention w) (dw_entries ?w) = (ok, es)"
    "w1 = ?w\<lparr>dw_entries := es\<rparr>"
    using p by (auto simp: daily_prune_def daily_open_def Let_def split: prod.splits)
  have d: "dw_date w' = today" "dw_binary w' = dw_binary w" "dw_entries w' = es"
    using w' es(2) by (simp_all add: daily_open_def Let_def)
  let ?x = "Inr (app_log_name cal (dw_binary w) today, True)"
  have x: "?x \<in> set (dw_entries ?w)" by (auto simp: daily_open_def Let_def)
  have "?x \<in> set es"
  proof (rule ccontr)
    assume "?x \<notin> set es"
    from prune_app_logs_exact(2) [OF es(1) x this] show False
      using own_log_not_expired [of cal today "dw_retention w" "dw_binary w"] assms(2) d(1) by auto
  qed
  then show ?thesis using d by simp
qed

section \<open>Opening the session logs\<close>

text \<open>\<open>open_files\<close> of \<open>src/fix/log.rs\<close>: the two files of a date, created when they are not there and appended to.\<close>

definition open_append :: "host_io \<Rightarrow> path \<Rightarrow> host \<Rightarrow> host option" where
  "open_append io p h =
     (if hi_open io p then Some (h\<lparr>ho_files := (ho_files h)(p \<mapsto> (case ho_files h p of None \<Rightarrow> [] | Some c \<Rightarrow> c))\<rparr>) else None)"

definition session_log_path :: "calendar \<Rightarrow> path \<Rightarrow> string \<Rightarrow> int \<Rightarrow> string \<Rightarrow> path" where
  "session_log_path cal dir prefix date suffix = under dir [cal_show cal date, prefix @ ''.'' @ suffix @ ''.log'']"

definition open_files :: "calendar \<Rightarrow> host_io \<Rightarrow> path \<Rightarrow> string \<Rightarrow> int \<Rightarrow> host \<Rightarrow> bool \<times> host" where
  "open_files cal io dir prefix date h =
     (case create_dir_all io (under dir [cal_show cal date]) h of
        None \<Rightarrow> (False, h)
      | Some h \<Rightarrow>
          (case open_append io (session_log_path cal dir prefix date ''messages'') h of
             None \<Rightarrow> (False, h)
           | Some h \<Rightarrow>
               (case open_append io (session_log_path cal dir prefix date ''event'') h of
                  None \<Rightarrow> (False, h)
                | Some h \<Rightarrow> (True, h))))"

datatype session_log_error = LogNoInstallation runtime_fault | LogBadSettings runtime_error | LogNotOpened

text \<open>\<open>retention_days\<close>, from the installation and its settings file.\<close>

definition retention_days :: "settings \<Rightarrow> runtime_fault + path \<Rightarrow> unit + string list option \<Rightarrow> session_log_error + nat" where
  "retention_days environment installation file =
     (case installation of
        Inl e \<Rightarrow> Inl (LogNoInstallation e)
      | Inr _ \<Rightarrow>
          (case runtime_load environment file of
             Inl e \<Rightarrow> Inl (LogBadSettings e)
           | Inr values \<Rightarrow>
               (case runtime_days environment values ''FIX_LOG_RETENTION_DAYS'' of
                  Inl e \<Rightarrow> Inl (LogBadSettings e)
                | Inr n \<Rightarrow> Inr n)))"

text \<open>\<open>SessionLog::new_at\<close> and \<open>new\<close>; \<open>SessionLog::disabled\<close> is \<^const>\<open>None\<close> for \<open>write_record\<close>.\<close>

definition session_log_at :: "calendar \<Rightarrow> host_io \<Rightarrow> path \<Rightarrow> string \<Rightarrow> int \<Rightarrow> host \<Rightarrow> (session_log_error + daily_files) \<times> host" where
  "session_log_at cal io dir prefix date h =
     (case open_files cal io dir prefix date h of
        (ok, h) \<Rightarrow> (if ok then Inr \<lparr>df_date = date, df_written = []\<rparr> else Inl LogNotOpened, h))"

definition session_log_new ::
  "calendar \<Rightarrow> host_io \<Rightarrow> session_log_error + nat \<Rightarrow> path \<Rightarrow> string \<Rightarrow> string \<Rightarrow> string \<Rightarrow> int \<Rightarrow> host
     \<Rightarrow> (session_log_error + daily_files) \<times> host" where
  "session_log_new cal io retention dir begin_string sender target today h =
     (case retention of
        Inl e \<Rightarrow> (Inl e, h)
      | Inr _ \<Rightarrow> session_log_at cal io dir (filename_prefix begin_string sender target) today h)"

definition log_incoming :: "write_io \<Rightarrow> string \<Rightarrow> int \<Rightarrow> string \<Rightarrow> daily_files option \<Rightarrow> daily_files option" where
  "log_incoming io raw date stamp f = write_record io False raw date stamp f"

definition log_outgoing :: "write_io \<Rightarrow> string \<Rightarrow> int \<Rightarrow> string \<Rightarrow> daily_files option \<Rightarrow> daily_files option" where
  "log_outgoing io raw date stamp f = write_record io False raw date stamp f"

definition log_incoming_bytes :: "write_io \<Rightarrow> string \<Rightarrow> int \<Rightarrow> string \<Rightarrow> daily_files option \<Rightarrow> daily_files option" where
  "log_incoming_bytes io raw date stamp f = write_record io False (hex_line raw) date stamp f"

definition log_event :: "write_io \<Rightarrow> string \<Rightarrow> int \<Rightarrow> string \<Rightarrow> daily_files option \<Rightarrow> daily_files option" where
  "log_event io line date stamp f = write_record io True line date stamp f"

lemma open_append_keeps: "open_append io p h = Some h' \<Longrightarrow> ho_files h q = Some c \<Longrightarrow> ho_files h' q = Some c"
  by (auto simp: open_append_def split: if_splits)

text \<open>
  Opening a log never truncates a file, whoever wrote it, and touches no file but the two of its session and
  date.
\<close>

theorem open_files_keeps:
  assumes "open_files cal io dir prefix date h = (ok, h')"
  shows "ho_files h q = Some c \<Longrightarrow> ho_files h' q = Some c"
    "q \<notin> session_log_path cal dir prefix date ` {''messages'', ''event''} \<Longrightarrow> ho_files h' q = ho_files h q"
proof -
  show "ho_files h q = Some c \<Longrightarrow> ho_files h' q = Some c"
    using assms open_append_keeps
    by (fastforce simp: open_files_def create_dir_all_def split: option.splits if_splits)
  show "q \<notin> session_log_path cal dir prefix date ` {''messages'', ''event''} \<Longrightarrow> ho_files h' q = ho_files h q"
    using assms by (auto simp: open_files_def create_dir_all_def open_append_def split: option.splits if_splits)
qed

text \<open>Two sessions with different names never share a file.\<close>

theorem session_log_paths_differ:
  assumes "session_log_path cal dir p date x = session_log_path cal dir q date y" "x \<in> {''messages'', ''event''}" "y \<in> {''messages'', ''event''}"
  shows "p = q \<and> x = y"
proof -
  have "pa_parts (session_log_path cal dir p date x) = pa_parts (session_log_path cal dir q date y)" using assms(1) by simp
  then have "p @ ''.'' @ x @ ''.log'' = q @ ''.'' @ y @ ''.log''" unfolding session_log_path_def under_parts by simp
  then have "rev (p @ ''.'' @ x @ ''.log'') = rev (q @ ''.'' @ y @ ''.log'')" by (rule arg_cong)
  then show ?thesis using assms(2,3) by (elim insertE emptyE) simp_all
qed

end
