(* ===== verification/Error_Texts.thy ===== *)
theory Error_Texts
  imports Acceptor Codec_Properties
begin

text \<open>
  The texts of refusals (\<open>Display\<close> of the errors of the engine and of the book in \<open>src/core/exchange/mod.rs\<close> and
  \<open>src/core/orderbook.rs\<close>, and the literals of \<open>handle_business\<close>): one instance of the wording that the session layer
  takes as an argument. A text that goes out in tag 58 must not be empty and must not contain the field separator.
\<close>

fun order_state_name :: "order_state \<Rightarrow> string" where
  "order_state_name New = ''New''"
| "order_state_name Booked = ''Booked''"
| "order_state_name PartialFill = ''PartialFill''"
| "order_state_name Filled = ''Filled''"
| "order_state_name Cancelled = ''Cancelled''"
| "order_state_name Expired = ''Expired''"
| "order_state_name Rejected = ''Rejected''"

fun invalid_execution_text :: "decimal_ops \<Rightarrow> invalid_execution \<Rightarrow> string" where
  "invalid_execution_text D (NonPositiveRemaining i q) =
     ''resting order '' @ show_int i @ '' must have positive remaining, got '' @ dec_show D q"
| "invalid_execution_text D (NonPositiveFill q p) =
     ''fill quantity '' @ dec_show D q @ '' and price '' @ dec_show D p @ '' must be positive''"
| "invalid_execution_text D (NotActive i st) = ''order '' @ show_int i @ '' is not active ('' @ order_state_name st @ '')''"
| "invalid_execution_text D (ExceedsRemaining q r) = ''fill quantity '' @ dec_show D q @ '' exceeds remaining '' @ dec_show D r"

fun tiered_error_text :: "decimal_ops \<Rightarrow> tiered_book_error \<Rightarrow> string" where
  "tiered_error_text D TieredOrderNotFound = ''order not found in book''"
| "tiered_error_text D TieredDuplicateOrder = ''duplicate order in price level''"
| "tiered_error_text D (TieredInvalidExecution r) = ''invalid execution: '' @ invalid_execution_text D r"

fun violation_text :: "decimal_ops \<Rightarrow> violation \<Rightarrow> string" where
  "violation_text D (BookFault e) = tiered_error_text D e"
| "violation_text D (FillFault e k) = tiered_error_text D e @ '' (fill #'' @ show_nat k @ '')''"

text \<open>The limit of the tiered mode is printed as the decimal it is; where its product overflows the code panics.\<close>

fun engine_error_text :: "decimal_ops \<Rightarrow> engine_error \<Rightarrow> string" where
  "engine_error_text D OrderNotFound = ''order not found''"
| "engine_error_text D OrderIsNotActive = ''order is not active''"
| "engine_error_text D (DuplicateOrderId i) = ''duplicate order id '' @ show_int i"
| "engine_error_text D (InvalidOrderId i) = ''invalid order id '' @ show_int i"
| "engine_error_text D InvalidQuantity = ''quantity must be positive''"
| "engine_error_text D InvalidPrice = ''price must be positive''"
| "engine_error_text D QuantityBelowCumulated = ''replacement quantity is below already filled quantity''"
| "engine_error_text D (UnknownSymbol s) = ''unknown symbol '' @ s"
| "engine_error_text D TooManyTierFills =
     ''quantity exceeds the tiered fill limit ('' @ (case tier_max_remaining D of None \<Rightarrow> [] | Some q \<Rightarrow> dec_show D q) @ '')''"
| "engine_error_text D QuoteNotSupportedInTiered = ''quotes are not accepted while FillPolicy=Tiered''"
| "engine_error_text D (BookInvariantViolation s inst v) =
     ''internal book invariant violation: session='' @ s @ '' instrument='' @ show_int inst @ '' '' @ violation_text D v"

fun wire_id_text :: "wire_id_error \<Rightarrow> string" where
  "wire_id_text EmptyClOrdId = ''ClOrdID must not be empty''"
| "wire_id_text TooManyClOrdIds = ''too many ClOrdIDs''"
| "wire_id_text DuplicateClOrdId = ''duplicate ClOrdID''"

text \<open>A broken invariant is worded for the fault log, by \<open>propagate_engine_fault\<close>.\<close>

fun business_text :: "decimal_ops \<Rightarrow> business_error \<Rightarrow> string" where
  "business_text D (BadId e) = wire_id_text e"
| "business_text D NoSymbol = ''unknown symbol''"
| "business_text D NoOriginal = ''unknown original ClOrdID''"
| "business_text D NoOrder = ''unknown order''"
| "business_text D SymbolSideDiffer = ''symbol/side differs from original order''"
| "business_text D (EngineFailed e) =
     (case e of
        BookInvariantViolation s inst v \<Rightarrow>
          ''internal book fault: session='' @ s @ '' instrument='' @ show_int inst @ '' '' @ violation_text D v
      | _ \<Rightarrow> engine_error_text D e)"

definition exchange_wording :: "decimal_ops \<Rightarrow> (session_error \<Rightarrow> string) \<Rightarrow> (codec_error \<Rightarrow> string) \<Rightarrow> wording" where
  "exchange_wording D session_text codec_text =
     \<lparr>wd_session = session_text, wd_codec = codec_text, wd_business = business_text D\<rparr>"

section \<open>Texts can be sent\<close>

lemma show_int_no_soh: "CHR 0x01 \<notin> set (show_int i)"
  using show_nat_chars(1) [unfolded SOH_def] by (auto simp: show_int_def split: if_splits)

text \<open>
  Every refusal that is answered has a text that may stand in a field, if printed decimals and the symbols of clients
  do not contain the separator.
\<close>

theorem refusal_text_sendable:
  assumes "\<forall>q. CHR 0x01 \<notin> set (dec_show D q)" "\<forall>s. err = EngineFailed (UnknownSymbol s) \<longrightarrow> CHR 0x01 \<notin> set s"
    "\<forall>e. err = EngineFailed e \<longrightarrow> \<not> is_violation e"
  shows "business_text D err \<noteq> []" "CHR 0x01 \<notin> set (business_text D err)"
proof -
  have "business_text D err \<noteq> [] \<and> CHR 0x01 \<notin> set (business_text D err)"
  proof (cases err)
    case (BadId e)
    then show ?thesis by (cases e) simp_all
  next
    case (EngineFailed e)
    then show ?thesis
      using assms show_int_no_soh by (cases e) (auto split: option.split)
  qed simp_all
  then show "business_text D err \<noteq> []" "CHR 0x01 \<notin> set (business_text D err)" by blast+
qed

end
