(* ===== verification/Programs.thy ===== *)
theory Programs
  imports Exchange_Console Clients Runtime Error_Texts
begin

text \<open>
  The three programs from their command lines on: the options of \<open>src/bin/client.rs\<close> and \<open>src/bin/playback.rs\<close>, what
  the interactive client prints, its loop over the lines of the terminal, and the start of the services in
  \<open>src/bin/exchange.rs\<close> with the readiness file. Binding a port and starting the web server succeed or fail by an
  argument.
\<close>

section \<open>Options of the client programs\<close>

record client_options =
  clo_fix :: string
  clo_id :: string

text \<open>\<^const>\<open>None\<close> is the help text, after which the program ends.\<close>

function client_args :: "string list \<Rightarrow> client_options \<Rightarrow> option_error + client_options option" where
  "client_args [] opts = Inr (Some opts)"
| "client_args (arg # args) opts =
     (if arg = ''-fix'' then
        (case option_value arg args of Inl e \<Rightarrow> Inl e | Inr (v, rest) \<Rightarrow> client_args rest (opts\<lparr>clo_fix := v\<rparr>))
      else if arg = ''-id'' then
        (case option_value arg args of Inl e \<Rightarrow> Inl e | Inr (v, rest) \<Rightarrow> client_args rest (opts\<lparr>clo_id := v\<rparr>))
      else if arg = ''-h'' \<or> arg = ''--help'' then Inr None
      else Inl (UnknownOption arg))"
  by pat_completeness auto
termination
  by (relation "measure (\<lambda>(args, _). length args)") (auto dest: option_value_shorter)

text \<open>
  The speed is a floating-point number; \<open>speed_of\<close> gives it where the text is a finite number greater than zero.
\<close>

record 's playback_options =
  plo_fix :: string
  plo_file :: string
  plo_speed :: 's
  plo_id :: string

datatype playback_option_error = PlaybackOption option_error | BadSpeed

function playback_args ::
  "(string \<Rightarrow> 's option) \<Rightarrow> string list \<Rightarrow> 's playback_options \<Rightarrow> playback_option_error + 's playback_options option" where
  "playback_args speed_of [] opts = Inr (Some opts)"
| "playback_args speed_of (arg # args) opts =
     (if arg = ''-fix'' then
        (case option_value arg args of
           Inl e \<Rightarrow> Inl (PlaybackOption e) | Inr (v, rest) \<Rightarrow> playback_args speed_of rest (opts\<lparr>plo_fix := v\<rparr>))
      else if arg = ''-file'' then
        (case option_value arg args of
           Inl e \<Rightarrow> Inl (PlaybackOption e) | Inr (v, rest) \<Rightarrow> playback_args speed_of rest (opts\<lparr>plo_file := v\<rparr>))
      else if arg = ''-speed'' then
        (case speed_of (case args of [] \<Rightarrow> [] | v # _ \<Rightarrow> v) of
           None \<Rightarrow> Inl BadSpeed
         | Some s \<Rightarrow> playback_args speed_of (drop 1 args) (opts\<lparr>plo_speed := s\<rparr>))
      else if arg = ''-id'' then
        (case option_value arg args of
           Inl e \<Rightarrow> Inl (PlaybackOption e) | Inr (v, rest) \<Rightarrow> playback_args speed_of rest (opts\<lparr>plo_id := v\<rparr>))
      else if arg = ''-h'' \<or> arg = ''--help'' then Inr None
      else Inl (PlaybackOption (UnknownOption arg)))"
  by pat_completeness auto
termination
  by (relation "measure (\<lambda>(_, args, _). length args)") (auto dest: option_value_shorter)

text \<open>Both set up their session in the same way, with a log directory of their own.\<close>

definition client_setup :: "fix_config \<Rightarrow> client_options \<Rightarrow> startup_error + initiator_config" where
  "client_setup config opts = initiator_setup config (clo_id opts) ''logs/client''"

definition playback_setup :: "fix_config \<Rightarrow> 's playback_options \<Rightarrow> startup_error + initiator_config" where
  "playback_setup config opts = initiator_setup config (plo_id opts) ''logs/playback''"

section \<open>What the client prints\<close>

definition print_instrument :: "instrument \<Rightarrow> string" where
  "print_instrument ins = ''instrument '' @ in_symbol ins @ '' id '' @ show_int (in_id ins)"

definition print_order :: "decimal_ops \<Rightarrow> order_view \<Rightarrow> string" where
  "print_order D v =
     ''order '' @ show_int (ov_id v) @ '' '' @ ov_symbol v @ '' '' @ side_as_str (ov_side v) @ '' '' @
     order_state_name (ov_state v) @ '' qty '' @ dec_show D (ov_quantity v) @ '' @ '' @ dec_show D (ov_price v) @
     '' remaining '' @ dec_show D (ov_remaining v) @ '' ('' @ (if is_active (ov_state v) then ''active'' else ''inactive'') @ '')''"

definition print_fill :: "decimal_ops \<Rightarrow> fill_view \<Rightarrow> string" where
  "print_fill D v =
     ''fill '' @ fv_symbol v @ '' '' @ side_as_str (fv_side v) @ '' '' @ dec_show D (fv_quantity v) @ '' @ '' @
     dec_show D (fv_price v)"

definition print_callback :: "decimal_ops \<Rightarrow> callback_call \<Rightarrow> string" where
  "print_callback D k =
     (case k of OnInstrument ins \<Rightarrow> print_instrument ins | OnOrderStatus v \<Rightarrow> print_order D v | OnFill v \<Rightarrow> print_fill D v)"

text \<open>The loop over the lines typed, each with the time at which its command is carried out; the end of the input ends it.\<close>

fun client_loop :: "decimal_ops \<Rightarrow> (string \<times> string) list \<Rightarrow> client \<Rightarrow> string list \<times> client" where
  "client_loop D [] c = ([], c)"
| "client_loop D ((time, line) # ls) c =
     (case client_command D time c line of
        Leave c \<Rightarrow> ([], c)
      | Prompt c out \<Rightarrow> (case client_loop D ls c of (out', c) \<Rightarrow> (out @ out', c)))"

section \<open>The console of the exchange\<close>

text \<open>Each line with the engine as it is when the line is entered.\<close>

fun console_loop :: "decimal_ops \<Rightarrow> (engine \<times> string) list \<Rightarrow> string list" where
  "console_loop D [] = []"
| "console_loop D ((e, line) # ls) =
     (case console_command D e line of Exit \<Rightarrow> [] | Say out \<Rightarrow> out @ console_loop D ls)"

section \<open>The web server\<close>

text \<open>
  \<open>rest::start\<close>: the workers wait at a gate until all of them and the thread that joins them have started. \<open>spawns\<close>
  says of each of the four attempts whether the thread started. The result is whether the server runs, how many
  workers answer requests, and how many have ended because their gate was dropped.
\<close>

fun spawn_workers :: "bool list \<Rightarrow> nat \<Rightarrow> bool \<times> nat" where
  "spawn_workers [] n = (True, n)"
| "spawn_workers (ok # oks) n = (if ok then spawn_workers oks (Suc n) else (False, n))"

definition rest_start :: "bool \<Rightarrow> bool list \<Rightarrow> bool \<Rightarrow> bool \<times> nat \<times> nat" where
  "rest_start bound spawns joiner =
     (if \<not> bound then (False, 0, 0)
      else case spawn_workers spawns 0 of
        (ok, n) \<Rightarrow> if ok \<and> joiner then (True, n, 0) else (False, 0, n))"

lemma spawn_workers_all: "spawn_workers spawns n = (ok, m) \<Longrightarrow> n \<le> m \<and> (ok \<longrightarrow> m = n + length spawns)"
  by (induction spawns arbitrary: n) (fastforce split: if_splits)+

text \<open>There is no partly started server: either all workers answer or none does.\<close>

theorem rest_start_all_or_none:
  "rest_start bound spawns joiner = (ok, answering, ended) \<Longrightarrow> answering = (if ok then length spawns else 0)"
  using spawn_workers_all [of spawns 0] by (auto simp: rest_start_def split: if_splits prod.splits)

section \<open>Services\<close>

record services =
  sv_host :: host
  sv_fix :: bool
  sv_rest :: bool

datatype start_error =
    ReadyDirUnusable | StaleReadyFile | FixListenerFailed | RestFailed | ReadyNotPublished

datatype start_outcome = Died start_error | ConfigurationOk | Serving

record start_io =
  si_host :: host_io
  si_bind :: bool
  si_rest :: bool

text \<open>The checks before anything is opened.\<close>

definition preflight_ready :: "start_io \<Rightarrow> nat \<Rightarrow> path option \<Rightarrow> host \<Rightarrow> start_error option \<times> host" where
  "preflight_ready io pid ready h =
     (case ready of
        None \<Rightarrow> (None, h)
      | Some p \<Rightarrow>
          (case (case file_dir p of None \<Rightarrow> (True, h) | Some d \<Rightarrow> check_writable_dir (si_host io) pid d h) of
             (False, h) \<Rightarrow> (Some ReadyDirUnusable, h)
           | (True, h) \<Rightarrow> (if ho_files h p \<noteq> None then Some StaleReadyFile else None, h)))"

definition bind_acceptor :: "start_io \<Rightarrow> acceptor_config \<Rightarrow> bool" where
  "bind_acceptor io cfg \<longleftrightarrow> validate_acceptor_config cfg = Inr () \<and> si_bind io"

definition start_services :: "start_io \<Rightarrow> nat \<Rightarrow> acceptor_config \<Rightarrow> bool \<Rightarrow> path option \<Rightarrow> host \<Rightarrow> start_outcome \<times> services" where
  "start_services io pid cfg check_only ready h =
     (case preflight_ready io pid ready h of
        (Some err, h) \<Rightarrow> (Died err, \<lparr>sv_host = h, sv_fix = False, sv_rest = False\<rparr>)
      | (None, h) \<Rightarrow>
          if check_only then (ConfigurationOk, \<lparr>sv_host = h, sv_fix = False, sv_rest = False\<rparr>)
          else if \<not> bind_acceptor io cfg then (Died FixListenerFailed, \<lparr>sv_host = h, sv_fix = False, sv_rest = False\<rparr>)
          else if \<not> si_rest io then (Died RestFailed, \<lparr>sv_host = h, sv_fix = True, sv_rest = False\<rparr>)
          else (case (case ready of None \<Rightarrow> (True, h) | Some p \<Rightarrow> ready_create (si_host io) pid p h) of
                  (ok, h) \<Rightarrow> (if ok then Serving else Died ReadyNotPublished, \<lparr>sv_host = h, sv_fix = True, sv_rest = True\<rparr>)))"

section \<open>Properties\<close>

text \<open>Options: what was read is never empty, and an unknown argument stops the program.\<close>

theorem client_args_filled:
  "client_args args opts = Inr (Some opts') \<Longrightarrow> clo_fix opts \<noteq> [] \<Longrightarrow> clo_id opts \<noteq> [] \<Longrightarrow> clo_fix opts' \<noteq> [] \<and> clo_id opts' \<noteq> []"
  by (induction args opts rule: client_args.induct)
    (auto simp: option_value_def split: if_splits list.splits)

text \<open>The client's loop acts on the client through its calls only.\<close>

lemma client_command_leave: "client_command D time c line = Leave c' \<Longrightarrow> c' = c"
  by (auto simp: client_command_def order_command_def cancel_command_def modify_command_def order_submitted_def request_submitted_def
      split: list.splits if_splits option.splits prod.splits bool.splits)

theorem client_loop_run: "client_loop D ls c = (out, c') \<Longrightarrow> reaches (client_step D wd pt cfg) c c'"
proof (induction ls arbitrary: c out)
  case (Cons l ls)
  obtain time line where l: "l = (time, line)" by fastforce
  show ?case
  proof (cases "client_command D time c line")
    case (Prompt c1 o1)
    obtain out' where r: "client_loop D ls c1 = (out', c')" using Cons.prems by (auto simp: l Prompt split: prod.splits)
    have "reaches (client_step D wd pt cfg) c c1"
      using client_command_steps [OF Prompt, of wd pt cfg] by (auto intro: reaches_step)
    then show ?thesis by (rule reaches_trans [OF _ Cons.IH [OF r]])
  next
    case (Leave c1)
    then show ?thesis using Cons.prems client_command_leave [OF Leave] by (simp add: l)
  qed
qed simp

text \<open>Readiness is published only when both listeners are open, and a check opens none.\<close>

theorem ready_only_when_listening:
  assumes "start_services io pid cfg check_only (Some p) h = (outcome, sv)" "\<forall>q. hi_remove (si_host io) q"
    "ho_files h p = None" "ho_files (sv_host sv) p \<noteq> None"
  shows "sv_fix sv \<and> sv_rest sv"
proof -
  obtain err h1 where p: "preflight_ready io pid (Some p) h = (err, h1)" by fastforce
  have "ho_files h1 = ho_files h"
    using p assms(2) check_writable_dir_leaves_files [of "si_host io" pid]
    by (auto simp: preflight_ready_def split: option.splits prod.splits bool.splits if_splits)
  then show ?thesis
    using assms(1,3,4) p by (auto simp: start_services_def split: option.splits if_splits prod.splits)
qed

end
