(* ===== verification/Spec2Isabelle.thy ===== *)
theory Spec2Isabelle
  imports
    Book_Properties
    Tiered_Properties
    Engine_Invariants
    Engine_Samples
    Queue
    Frame_Properties
    Codec_Properties
    Wire_Ids
    Sequence
    Writer_Properties
    Acceptor_Properties
    Reader_Properties
    Acceptor_Liveness
    Exchange_Properties
    Initiator_Properties
    Config_Properties
    Rest_Properties
    Programs
begin

text \<open>
  A verification library of rust-trader, a simulated exchange: a matching engine with price-time priority, a
  hand-written FIX 4.2 session layer in front of it with both sides of a connection, and published market data.

  \<^bold>\<open>The program.\<close> A client sends FIX messages over a socket. On the exchange side the reader of a connection
  (\<open>handle_acceptor_connection\<close> in \<open>src/fix/session.rs\<close>) cuts frames from the byte stream
  (\<open>src/fix/frame.rs\<close>), checks header and sequence number, decodes the message (\<open>src/fix/codec.rs\<close>), and
  calls the engine (\<open>src/core/exchange/mod.rs\<close>) under a lock. The engine keeps one book per instrument
  (\<open>src/core/orderbook.rs\<close>), a record of the open orders and quotes of every session, and the statistics
  and depth it publishes (\<open>src/market_data.rs\<close>). The reports it makes go into the bounded mailbox
  (\<open>src/queue.rs\<close>) of each session, where a writer numbers, frames and sends them. The client library
  (\<open>Initiator\<close> in \<open>src/fix/session.rs\<close>) submits orders and keeps a view of them from the reports it reads. The
  exchange starts from a settings file (\<open>src/fix/config.rs\<close>, \<open>src/bin/exchange.rs\<close>) and serves the published market
  data over HTTP as well (\<open>src/rest.rs\<close>).

  \<^bold>\<open>Theories and the code they model.\<close>
  \<^item> \<open>Prelude\<close>, \<open>BTree\<close>, \<open>Text\<close>, \<open>Transition\<close>: the shared part. Panics are \<^const>\<open>None\<close>, errors are the left
    of a sum; sorted association lists stand for \<open>BTreeMap\<close>; printing and parsing of integers at their
    width; step relations with their invariants (locales over a step relation).
  \<^item> \<open>Order\<close>, \<open>Price_Level\<close>, \<open>Order_Book\<close>, \<open>Matching\<close>: \<open>src/core/order.rs\<close> and \<open>src/core/orderbook.rs\<close>. The
    lemmas of \<open>Book_Lemmas\<close>, \<open>Matching_Spec\<close>, \<open>Match_Trace\<close>, \<open>Book_Add\<close>, \<open>Tiered_Book\<close> and the properties of
    \<open>Book_Properties\<close>, \<open>Book_Invariant\<close>, \<open>Tiered_Properties\<close>: the matching loop refines matching of two
    priority queues, keeps the book well formed and uncrossed, conserves quantity, trades at the resting
    price; snapshots, removal and the tiered operations are exact; matching can panic on overflow.
  \<^item> \<open>Instruments\<close>: \<open>src/core/instrument.rs\<close>, with the atomicity of the loader.
  \<^item> \<open>Queue\<close>: \<open>src/queue.rs\<close>, first-in first-out, bounded, closed for good by the first refusal.
  \<^item> \<open>Market_Data\<close>: \<open>src/market_data.rs\<close> and \<open>src/core/stats.rs\<close>.
  \<^item> \<open>Engine\<close>, \<open>Engine_Ops\<close>: \<open>src/core/exchange/mod.rs\<close>. \<open>Engine_Cases\<close>, \<open>Book_Frame\<close>, \<open>Engine_Calls\<close> hold the
    case rules and frames of the operations and the step relation of all calls; \<open>Engine_Invariants\<close> the
    properties of every history: published books are current, rejected requests change nothing,
    execution identifiers are unique. \<open>Engine_Sessions\<close>: which calls change the sessions the engine knows, and
    that its log of reports only grows.
  \<^item> \<open>Frame\<close>, \<open>Frame_Properties\<close>: \<open>src/fix/frame.rs\<close>; what is framed is read back, however the stream is cut.
  \<^item> \<open>Codec\<close>, \<open>Codec_Lemmas\<close>, \<open>Codec_Roundtrip\<close>, \<open>Codec_Report\<close>, \<open>Codec_Properties\<close>: \<open>src/fix/codec.rs\<close>;
    requests and reports survive the wire, what is accepted is sound up to the two checks left to the engine, and where decoding panics.
  \<^item> \<open>Wire_Ids\<close>, \<open>Sequence\<close>, \<open>Session_Messages\<close>, \<open>Writer_Properties\<close>, \<open>Reader\<close>, \<open>Acceptor\<close>, \<open>Acceptor_Steps\<close>,
    \<open>Acceptor_Properties\<close>: \<open>src/fix/session.rs\<close>; identifier translation, sequence numbers, the writer, the part
    of a turn that both reader loops have in common, and
    the exchange side of a connection, which is shown to act on engine and mailbox through their
    operations only. \<open>Reader_Properties\<close>: in every history of its reader loop messages are acted on in order and
    once, and messages that arrive out of order are recovered completely. \<open>Acceptor_Liveness\<close>: a silent peer is probed and then dropped.
  \<^item> \<open>Exchange_System\<close>, \<open>Exchange_Steps\<close>, \<open>Exchange_Properties\<close>: the exchange as a whole (\<open>run_acceptor_on\<close>), any
    number of connections with their readers and writers around the shared engine, in any interleaving. It
    refines the engine, a session belongs to one connection at a time, and every client is told the reports of
    its session in order and once.
  \<^item> \<open>Initiator\<close>, \<open>Initiator_Steps\<close>, \<open>Initiator_Properties\<close>: the client side in \<open>src/fix/session.rs\<close>, with the
    calls of the application and the turns of the reader in any order; the life cycle of a client, the way of
    an order from its call to the engine, and of a report from the engine to its table of orders.
  \<^item> \<open>Config\<close>, \<open>Startup\<close>, \<open>Config_Properties\<close>: \<open>src/fix/config.rs\<close>, and what \<open>main\<close> of \<open>src/bin/exchange.rs\<close> makes
    of the settings; a file that loads is well typed, and the exchange admits exactly the clients it names.
  \<^item> \<open>Rest\<close>, \<open>Rest_Properties\<close>: \<open>src/rest.rs\<close>; what is served is the current book of the engine, for every
    registered symbol. Its invariant is one more interpretation of the contract of engine invariants.
  \<^item> \<open>Exchange_Console\<close>, \<open>Clients\<close>, \<open>Programs\<close>: the programs around the library (\<open>src/bin/exchange.rs\<close>,
    \<open>src/bin/client.rs\<close>, \<open>src/bin/playback.rs\<close>): options and consoles, playback of quotes, the start of the services. A command is
    at most one step of the client, a playback is the run of exactly the quotes of its file, and readiness
    is published only when both listeners are open.
  \<^item> \<open>Logs\<close>, \<open>Runtime\<close>: \<open>src/fix/log.rs\<close> and \<open>src/runtime.rs\<close>; file names are safe, only expired files of the own
    session or program are deleted and never the one being written, records go to the file of their date, opening
    never truncates, and the installation is found above the executable.
  \<^item> \<open>Error_Texts\<close>: the texts of refusals, which can always be sent.

  \<^bold>\<open>Parameters.\<close> Code outside the repository is an argument. \<open>decimal_ops\<close> holds the operations of the
  \<open>rust_decimal\<close> crate on the rationals it represents, each of which may overflow; what a theorem needs of it
  (exactness on a grid of quantities, printing that parses back) is a named hypothesis, and the witnesses
  satisfy it by \<open>sample_decimal\<close> and \<open>sample_codec\<close>. The date parser of \<open>chrono\<close> is an argument of the decoder
  and of the header checks. The JSON printer and the conversion to floating point are a record of
  functions. Clocks, the calendar day, identifiers drawn from process-wide counters and
  the wording of error texts are arguments of the operations that use them.

  \<^bold>\<open>Loops.\<close> The matching loop is a \<open>partial_function (option)\<close>, and the theorems show that
  it returns; the frame reader ends because every turn consumes input. The reader loop of a connection runs
  over a list of turns, one per iteration, each with its clock and what the socket gives.

  \<^bold>\<open>Concurrency.\<close> The engine is behind one lock, so its histories are sequences of calls. In \<open>Exchange_System\<close> a step is
  what one thread does between two points where another can intervene; a turn of a reader is two steps, because
  it takes the lock twice. The reports of an engine call go into the mailboxes of their sessions in the
  order of the log, as part of the call; writers act between calls. A Logon is one step, although the code takes the lock
  several times: until the last of them the engine does not know the session and sends it nothing. A send into a mailbox is one step, so no
  history has a clone of a sender that overtakes the refusal of another; the end of a client's reader is one step, so
  the moment between the resets of its signals is not seen.

  \<^bold>\<open>Not modelled.\<close> Sockets, threads and files themselves: that a port can be bound, that a thread starts and that the
  system lets a file be opened, written or removed are arguments. The scale of a \<open>Decimal\<close>: numbers are
  rationals, so trailing zeros in what the console prints are lost. The printers of \<open>serde_json\<close>, \<open>chrono\<close> and
  \<open>env_logger\<close>, the texts of codec and header errors, and the test and benchmark code of the repository.
\<close>

end
